(* ===== verification/Rounding.thy ===== *)
theory Rounding
  imports Complex_Main
begin

text \<open>
  Round-to-nearest-even on the reals with the parameters of binary64: 53 significant
  bits, least exponent -1074. The float operations of \<open>Float64\<close> are shown there to return
  \<open>rnd\<close> of the exact result; this theory holds what the component proofs use of \<open>rnd\<close>:
  it is monotone, odd, exact on the representable reals, and off by at most half a unit in
  the last place. Nothing here models code.
\<close>

subsection \<open>Nearest integer, ties to even\<close>

definition rne :: "real \<Rightarrow> int" where
  "rne r = (let q = \<lfloor>r\<rfloor>; f = r - of_int q
            in if f < 1 / 2 \<or> (f = 1 / 2 \<and> even q) then q else q + 1)"

lemma rne_cases:
  obtains "rne r = \<lfloor>r\<rfloor>" "r - of_int \<lfloor>r\<rfloor> < 1 / 2 \<or> (r - of_int \<lfloor>r\<rfloor> = 1 / 2 \<and> even \<lfloor>r\<rfloor>)"
        | "rne r = \<lfloor>r\<rfloor> + 1" "r - of_int \<lfloor>r\<rfloor> > 1 / 2 \<or> (r - of_int \<lfloor>r\<rfloor> = 1 / 2 \<and> odd \<lfloor>r\<rfloor>)"
  unfolding rne_def Let_def by (metis linorder_neqE)

lemma rne_error: "\<bar>of_int (rne r) - r\<bar> \<le> 1 / 2"
proof -
  have f: "of_int \<lfloor>r\<rfloor> \<le> r" "r < of_int \<lfloor>r\<rfloor> + 1" by linarith+
  show ?thesis by (rule rne_cases [of r]) (use f in auto)
qed

lemma rne_of_int [simp]: "rne (of_int k) = k"
  by (simp add: rne_def)

lemma rne_0 [simp]: "rne 0 = 0"
  using rne_of_int [of 0] by simp

lemma rne_mono: assumes "r \<le> s" shows "rne r \<le> rne s"
proof (cases "\<lfloor>r\<rfloor> = \<lfloor>s\<rfloor>")
  case True
  then show ?thesis using assms by (auto simp: rne_def Let_def)
next
  case False
  have "\<lfloor>r\<rfloor> \<le> \<lfloor>s\<rfloor>" using assms by (rule floor_mono)
  with False have "\<lfloor>r\<rfloor> + 1 \<le> \<lfloor>s\<rfloor>" by simp
  moreover have "rne r \<le> \<lfloor>r\<rfloor> + 1" "\<lfloor>s\<rfloor> \<le> rne s" by (simp_all add: rne_def Let_def)
  ultimately show ?thesis by simp
qed

lemma rne_unique:
  assumes "\<bar>of_int k - r\<bar> < 1 / 2" shows "rne r = k"
proof -
  have "\<bar>of_int (rne r) - r\<bar> \<le> 1 / 2" by (rule rne_error)
  with assms have "\<bar>of_int (rne r) - (of_int k :: real)\<bar> < 1" by linarith
  then show ?thesis by linarith
qed

lemma rne_uminus: "rne (- r) = - rne r"
proof (cases "\<bar>of_int (rne r) - r\<bar> < 1 / 2")
  case True
  then show ?thesis by (intro rne_unique) (simp add: abs_minus_commute)
next
  case False
  with rne_error [of r] have half: "\<bar>of_int (rne r) - r\<bar> = 1 / 2" by simp
  define q where "q = \<lfloor>r\<rfloor>"
  have r: "r = of_int q + 1 / 2"
    using half unfolding q_def by (cases rule: rne_cases [of r]) auto
  have fl: "\<lfloor>- r\<rfloor> = - q - 1" unfolding r by (simp add: floor_eq_iff)
  have "rne r = (if even q then q else q + 1)"
    unfolding rne_def Let_def q_def [symmetric] by (simp add: r)
  moreover have "rne (- r) = (if even (- q - 1) then - q - 1 else - q)"
    unfolding rne_def Let_def fl by (simp add: r)
  ultimately show ?thesis by auto
qed

lemma rne_le_of_int: "r \<le> of_int k \<Longrightarrow> rne r \<le> k"
  using rne_mono [of r "of_int k"] by simp

lemma rne_ge_of_int: "of_int k \<le> r \<Longrightarrow> k \<le> rne r"
  using rne_mono [of "of_int k" r] by simp

subsection \<open>Powers of two\<close>

text \<open>A constant of its own, so that the simplifier does not expand \<open>2^1024\<close>.\<close>

definition p2 :: "int \<Rightarrow> real" where "p2 k = 2 powi k"

lemma p2_pos [simp]: "0 < p2 k" by (simp add: p2_def)

lemma p2_not_neg [simp]: "\<not> p2 k < 0" "0 \<le> p2 k" "p2 k \<noteq> 0" "\<not> p2 k \<le> 0" "\<bar>p2 k\<bar> = p2 k"
  using p2_pos [of k] by (simp_all del: p2_pos add: not_less)

lemma p2_add: "p2 (a + b) = p2 a * p2 b"
  by (simp add: p2_def power_int_add)

lemma p2_diff: "p2 (a - b) = p2 a / p2 b"
  by (simp add: p2_def power_int_diff)

lemma p2_le_iff [simp]: "p2 a \<le> p2 b \<longleftrightarrow> a \<le> b"
  unfolding p2_def
  by (metis power_int_increasing power_int_strict_increasing linorder_not_le one_less_numeral_iff
      one_le_numeral semiring_norm(76))

lemma p2_less_iff [simp]: "p2 a < p2 b \<longleftrightarrow> a < b"
  using p2_le_iff [of b a] by (simp add: not_le [symmetric] del: p2_le_iff)

lemma p2_nat: "0 \<le> k \<Longrightarrow> p2 k = 2 ^ nat k"
  by (simp add: p2_def power_int_def)

lemma p2_of_int: "0 \<le> k \<Longrightarrow> p2 k = of_int (2 ^ nat k)"
  by (simp add: p2_nat)

lemma p2_eval [simp]:
  "p2 0 = 1" "p2 1 = 2" "p2 2 = 4" "p2 (-1) = 1 / 2" "p2 20 = 2 ^ 20" "p2 52 = 2 ^ 52" "p2 53 = 2 ^ 53" "p2 54 = 2 ^ 54"
  "p2 (-53) = 1 / 2 ^ 53"
  by (simp_all add: p2_def)

subsection \<open>The exponent of a real\<close>

definition cexp :: "real \<Rightarrow> int" where
  "cexp x = (if x = 0 then -1074 else max (\<lfloor>log 2 \<bar>x\<bar>\<rfloor> - 52) (-1074))"

lemma cexp_uminus [simp]: "cexp (- x) = cexp x"
  by (simp add: cexp_def)

lemma cexp_ge: "-1074 \<le> cexp x"
  by (simp add: cexp_def)

lemma floor_log2: assumes "0 < x" shows "p2 \<lfloor>log 2 x\<rfloor> \<le> x" "x < p2 (\<lfloor>log 2 x\<rfloor> + 1)"
proof -
  have "p2 \<lfloor>log 2 x\<rfloor> = 2 powr (of_int \<lfloor>log 2 x\<rfloor>)" by (simp add: powr_real_of_int' p2_def)
  also have "\<dots> \<le> 2 powr (log 2 x)" by (intro powr_mono) auto
  also have "\<dots> = x" using assms by simp
  finally show "p2 \<lfloor>log 2 x\<rfloor> \<le> x" .
  have "x = 2 powr (log 2 x)" using assms by simp
  also have "\<dots> < 2 powr (of_int (\<lfloor>log 2 x\<rfloor> + 1))" by (intro powr_less_mono) linarith+
  also have "\<dots> = p2 (\<lfloor>log 2 x\<rfloor> + 1)" unfolding p2_def by (rule powr_real_of_int') auto
  finally show "x < p2 (\<lfloor>log 2 x\<rfloor> + 1)" .
qed

lemma floor_log2_eqI: "p2 k \<le> x \<Longrightarrow> x < p2 (k + 1) \<Longrightarrow> \<lfloor>log 2 x\<rfloor> = k"
proof -
  assume a: "p2 k \<le> x" "x < p2 (k + 1)"
  have x: "0 < x" using a(1) p2_pos [of k] by linarith
  have "p2 \<lfloor>log 2 x\<rfloor> < p2 (k + 1)" "p2 k < p2 (\<lfloor>log 2 x\<rfloor> + 1)"
    using floor_log2 [OF x] a by linarith+
  then show ?thesis by simp
qed

lemma cexp_upper: "\<bar>x\<bar> < p2 (cexp x + 53)"
proof (cases "x = 0")
  case False
  have "\<bar>x\<bar> < p2 (\<lfloor>log 2 \<bar>x\<bar>\<rfloor> + 1)" using False by (intro floor_log2) simp
  also have "\<dots> \<le> p2 (cexp x + 53)" using False unfolding p2_le_iff by (simp add: cexp_def)
  finally show ?thesis .
qed simp

lemma cexp_lower: "cexp x = -1074 \<or> p2 (cexp x + 52) \<le> \<bar>x\<bar>"
  using floor_log2(1) [of "\<bar>x\<bar>"] by (auto simp: cexp_def max_def)

lemma cexp_eqI:
  assumes "\<bar>x\<bar> < p2 (e + 53)" "-1074 \<le> e" "e = -1074 \<or> p2 (e + 52) \<le> \<bar>x\<bar>"
  shows "cexp x = e"
proof (rule antisym)
  show "cexp x \<le> e"
  proof (cases "cexp x = -1074")
    case False
    with cexp_lower have "p2 (cexp x + 52) \<le> \<bar>x\<bar>" by blast
    with assms(1) have "p2 (cexp x + 52) < p2 (e + 53)" by linarith
    then show ?thesis unfolding p2_less_iff by simp
  qed (use assms in simp)
  show "e \<le> cexp x"
  proof (cases "e = -1074")
    case False
    with assms(3) have "p2 (e + 52) < p2 (cexp x + 53)" using cexp_upper [of x] by linarith
    then show ?thesis unfolding p2_less_iff by simp
  qed (use cexp_ge in simp)
qed

lemma cexp_mono: assumes "\<bar>x\<bar> \<le> \<bar>y\<bar>" shows "cexp x \<le> cexp y"
proof (cases "cexp x = -1074")
  case False
  with cexp_lower have "p2 (cexp x + 52) \<le> \<bar>x\<bar>" by blast
  also have "\<dots> < p2 (cexp y + 53)" using cexp_upper [of y] assms by linarith
  finally show ?thesis unfolding p2_less_iff by simp
qed (simp add: cexp_ge)

subsection \<open>Rounding\<close>

definition rnd :: "real \<Rightarrow> real" where
  "rnd x = of_int (rne (x / p2 (cexp x))) * p2 (cexp x)"

lemma rnd_0 [simp]: "rnd 0 = 0"
  by (simp add: rnd_def)

lemma rnd_uminus [simp]: "rnd (- x) = - rnd x"
  by (simp add: rnd_def rne_uminus)

lemma rnd_error_ulp: "\<bar>rnd x - x\<bar> \<le> p2 (cexp x) / 2"
proof -
  have "rnd x - x = (of_int (rne (x / p2 (cexp x))) - x / p2 (cexp x)) * p2 (cexp x)"
    by (simp add: rnd_def field_simps)
  then have "\<bar>rnd x - x\<bar> = \<bar>of_int (rne (x / p2 (cexp x))) - x / p2 (cexp x)\<bar> * p2 (cexp x)"
    by (simp add: abs_mult)
  also have "\<dots> \<le> 1 / 2 * p2 (cexp x)"
    by (intro mult_right_mono rne_error) simp
  finally show ?thesis by simp
qed

text \<open>The unit roundoff and half of the least subnormal.\<close>

definition urnd :: real where "urnd = p2 (-53)"
definition eta :: real where "eta = p2 (-1075)"

lemma rnd_error: "\<bar>rnd x - x\<bar> \<le> urnd * \<bar>x\<bar> + eta"
proof (cases "cexp x = -1074")
  case True
  have "\<bar>rnd x - x\<bar> \<le> p2 (-1074) / 2" using rnd_error_ulp [of x] True by simp
  also have "\<dots> = eta" using p2_add [of "-1075" 1] by (simp add: eta_def)
  finally show ?thesis by (simp add: urnd_def add_increasing)
next
  case False
  with cexp_lower have lo: "p2 (cexp x + 52) \<le> \<bar>x\<bar>" by blast
  have "\<bar>rnd x - x\<bar> \<le> p2 (cexp x) / 2" by (rule rnd_error_ulp)
  also have "\<dots> = urnd * p2 (cexp x + 52)"
    using p2_add [of "-53" "cexp x + 52"] p2_add [of "cexp x" "-1"] by (simp add: urnd_def)
  also have "\<dots> \<le> urnd * \<bar>x\<bar>" using lo by (intro mult_left_mono) (simp_all add: urnd_def)
  finally show ?thesis by (simp add: eta_def add_increasing2)
qed

lemma rnd_nonneg: "0 \<le> x \<Longrightarrow> 0 \<le> rnd x"
  unfolding rnd_def by (intro mult_nonneg_nonneg of_int_nonneg rne_ge_of_int) auto

lemma rnd_mono_pos:
  assumes "0 \<le> x" "x \<le> y" shows "rnd x \<le> rnd y"
proof (cases "cexp x = cexp y")
  case True
  then show ?thesis using assms
    by (auto simp: rnd_def intro!: mult_right_mono rne_mono divide_right_mono)
next
  case False
  with cexp_mono [of x y] assms have less: "cexp x < cexp y" by simp
  then have "cexp y \<noteq> -1074" using cexp_ge [of x] by simp
  with cexp_lower have lo: "p2 (cexp y + 52) \<le> y" using assms by (metis abs_of_nonneg order_trans)
  have "x / p2 (cexp x) \<le> of_int (2 ^ 53)"
    using cexp_upper [of x] assms p2_add [of "cexp x" 53] by (simp add: field_simps)
  then have "rnd x \<le> of_int (2 ^ 53) * p2 (cexp x)"
    unfolding rnd_def by (intro mult_right_mono of_int_le_iff [THEN iffD2] rne_le_of_int) simp_all
  also have "\<dots> = p2 (cexp x + 53)" using p2_add [of "cexp x" 53] by simp
  also have "\<dots> \<le> p2 (cexp y + 52)" using less unfolding p2_le_iff by simp
  also have "\<dots> = of_int (2 ^ 52) * p2 (cexp y)" using p2_add [of "cexp y" 52] by simp
  also have "\<dots> \<le> rnd y"
    unfolding rnd_def
  proof (intro mult_right_mono of_int_le_iff [THEN iffD2] rne_ge_of_int)
    show "of_int (2 ^ 52) \<le> y / p2 (cexp y)"
      using lo p2_add [of "cexp y" 52] by (simp add: field_simps)
  qed simp
  finally show ?thesis .
qed

lemma rnd_mono: assumes "x \<le> y" shows "rnd x \<le> rnd y"
proof -
  consider "0 \<le> x" | "y \<le> 0" | "x \<le> 0" "0 \<le> y" by linarith
  then show ?thesis
  proof cases
    case 1
    then show ?thesis using assms by (rule rnd_mono_pos)
  next
    case 2
    then have "rnd (- y) \<le> rnd (- x)" using assms by (intro rnd_mono_pos) auto
    then show ?thesis by simp
  next
    case 3
    then have "0 \<le> rnd (- x)" "0 \<le> rnd y" by (simp_all only: rnd_nonneg neg_0_le_iff_le)
    then show ?thesis by simp
  qed
qed

subsection \<open>Representable reals\<close>

definition representable :: "real \<Rightarrow> bool" where
  "representable x \<longleftrightarrow> (\<exists>m e. x = of_int m * p2 e \<and> \<bar>m\<bar> \<le> 2 ^ 53 \<and> -1074 \<le> e)"

lemma representableI:
  "\<bar>m\<bar> \<le> 2 ^ 53 \<Longrightarrow> -1074 \<le> e \<Longrightarrow> representable (of_int m * p2 e)"
  unfolding representable_def by blast

lemma rnd_dyadic:
  assumes "cexp x \<le> e" "x = of_int m * p2 e" shows "rnd x = x"
proof -
  have "x / p2 (cexp x) = of_int m * p2 (e - cexp x)"
    using assms(2) by (simp add: p2_diff)
  also have "\<dots> = of_int (m * 2 ^ nat (e - cexp x))"
    using assms(1) by (simp add: p2_of_int)
  finally have "rne (x / p2 (cexp x)) = m * 2 ^ nat (e - cexp x)"
    by (simp only: rne_of_int)
  moreover have "of_int (m * 2 ^ nat (e - cexp x)) * p2 (cexp x) = x"
    using assms p2_add [of "e - cexp x" "cexp x"] by (simp add: p2_nat mult.assoc)
  ultimately show ?thesis by (simp add: rnd_def)
qed

lemma cexp_le_dyadic:
  assumes "x = of_int m * p2 e" "\<bar>m\<bar> < 2 ^ 53" "-1074 \<le> e" shows "cexp x \<le> e"
proof (cases "cexp x = -1074")
  case False
  with cexp_lower have "p2 (cexp x + 52) \<le> \<bar>x\<bar>" by blast
  also have "\<bar>x\<bar> = \<bar>of_int m\<bar> * p2 e" using assms(1) by (simp add: abs_mult)
  also have "\<dots> < 2 ^ 53 * p2 e"
    using assms(2) by (intro mult_strict_right_mono) (simp_all flip: of_int_abs)
  also have "\<dots> = p2 (e + 53)" using p2_add [of e 53] by simp
  finally show ?thesis unfolding p2_less_iff by simp
qed (use assms in simp)

lemma rnd_representable:
  assumes "representable x" shows "rnd x = x"
proof -
  obtain m e where x: "x = of_int m * p2 e" and m: "\<bar>m\<bar> \<le> 2 ^ 53" and e: "-1074 \<le> e"
    using assms unfolding representable_def by blast
  show ?thesis
  proof (cases "\<bar>m\<bar> = 2 ^ 53")
    case False
    with m have "\<bar>m\<bar> < 2 ^ 53" by simp
    then show ?thesis using cexp_le_dyadic [OF x _ e] x by (intro rnd_dyadic)
  next
    case True
    have "x = of_int (sgn m * 2 ^ 52) * p2 (e + 1)"
      using True unfolding x p2_add by (auto simp: sgn_if abs_if split: if_splits)
    moreover have "\<bar>sgn m * 2 ^ 52\<bar> < (2::int) ^ 53" by (simp add: sgn_if)
    ultimately show ?thesis using e cexp_le_dyadic [of x "sgn m * 2 ^ 52" "e + 1"]
      by (intro rnd_dyadic [of x "e + 1" "sgn m * 2 ^ 52"]) simp_all
  qed
qed

lemma representable_rnd: "representable (rnd x)"
proof -
  have "x / p2 (cexp x) \<le> of_int (2 ^ 53)" "of_int (- (2 ^ 53)) \<le> x / p2 (cexp x)"
    using cexp_upper [of x] p2_add [of "cexp x" 53] by (simp_all add: field_simps abs_less_iff)
  then have "rne (x / p2 (cexp x)) \<le> 2 ^ 53" "- (2 ^ 53) \<le> rne (x / p2 (cexp x))"
    using rne_le_of_int rne_ge_of_int by blast+
  then have "\<bar>rne (x / p2 (cexp x))\<bar> \<le> 2 ^ 53" by linarith
  then show ?thesis unfolding rnd_def by (intro representableI cexp_ge)
qed

lemma rnd_rnd [simp]: "rnd (rnd x) = rnd x"
  by (intro rnd_representable representable_rnd)

lemma representable_uminus: "representable x \<Longrightarrow> representable (- x)"
proof -
  assume "representable x"
  then obtain m e where "x = of_int m * p2 e" "\<bar>m\<bar> \<le> 2 ^ 53" "-1074 \<le> e"
    unfolding representable_def by blast
  then show "representable (- x)" using representableI [of "- m" e] by simp
qed

lemma representable_of_int: "\<bar>k\<bar> \<le> 2 ^ 53 \<Longrightarrow> representable (of_int k)"
  using representableI [of k 0] by simp

lemma representable_0 [simp]: "representable 0" and representable_1 [simp]: "representable 1"
  using representable_of_int [of 0] representable_of_int [of 1] by simp_all

lemma representable_p2: "-1074 \<le> k \<Longrightarrow> representable (p2 k)"
  using representableI [of 1 k] by simp

lemma rnd_1 [simp]: "rnd 1 = 1"
  by (simp add: rnd_representable)

lemma rnd_le: "x \<le> y \<Longrightarrow> representable y \<Longrightarrow> rnd x \<le> y"
  using rnd_mono [of x y] rnd_representable [of y] by simp

lemma rnd_ge: "y \<le> x \<Longrightarrow> representable y \<Longrightarrow> y \<le> rnd x"
  using rnd_mono [of y x] rnd_representable [of y] by simp

lemma rnd_abs_le: "\<bar>x\<bar> \<le> y \<Longrightarrow> representable y \<Longrightarrow> \<bar>rnd x\<bar> \<le> y"
  using rnd_le [of x y] rnd_ge [of "- y" x] representable_uminus [of y] by (simp add: abs_le_iff)

lemma rnd_abs: "\<bar>rnd x\<bar> = rnd \<bar>x\<bar>"
  using rnd_nonneg [of x] rnd_nonneg [of "- x"] by (cases "0 \<le> x") auto

end
