(* ===== verification/Float64.thy ===== *)
theory Float64
  imports Rounding
begin

text \<open>
  Go's \<open>float64\<close> as IEEE 754 binary64 data. A finite number is a significand and an
  exponent of two, \<open>Fin m e\<close> standing for \<open>m * 2^e\<close>; the negative zero, the infinities and
  NaN (one NaN: Go programs do not see payloads) are constructors of their own. Every
  operation computes the exact result on integers and rounds once, to nearest with ties to
  even. Go may fuse \<open>x*y + z\<close> on some machines; the model is the unfused evaluation that
  the amd64 compiler produces. All definitions compute, so closed terms evaluate.
\<close>

subsection \<open>The data\<close>

datatype f64 = NaN | PInf | NInf | NZero | Fin int int

definition is_nan :: "f64 \<Rightarrow> bool" where "is_nan x \<longleftrightarrow> x = NaN"

fun finite_f64 :: "f64 \<Rightarrow> bool" where
  "finite_f64 (Fin m e) = True"
| "finite_f64 NZero = True"
| "finite_f64 _ = False"

fun mant :: "f64 \<Rightarrow> int" where
  "mant (Fin m e) = m"
| "mant _ = 0"

fun expo :: "f64 \<Rightarrow> int" where
  "expo (Fin m e) = e"
| "expo _ = -1074"

fun signbit :: "f64 \<Rightarrow> bool" where
  "signbit (Fin m e) = (m < 0)"
| "signbit NZero = True"
| "signbit NInf = True"
| "signbit _ = False"

definition inf_of :: "bool \<Rightarrow> f64" where
  "inf_of neg = (if neg then NInf else PInf)"

definition zero_of :: "bool \<Rightarrow> f64" where
  "zero_of neg = (if neg then NZero else Fin 0 (-1074))"

text \<open>The bit patterns: the significand is normalised unless the exponent is the least one.\<close>

fun canonical :: "f64 \<Rightarrow> bool" where
  "canonical (Fin m e) \<longleftrightarrow>
     (m = 0 \<and> e = -1074) \<or>
     (m \<noteq> 0 \<and> \<bar>m\<bar> < 2 ^ 53 \<and> -1074 \<le> e \<and> e \<le> 971 \<and> (2 ^ 52 \<le> \<bar>m\<bar> \<or> e = -1074))"
| "canonical _ = True"

subsection \<open>Rounding an exact quotient\<close>

fun blen_num :: "num \<Rightarrow> int" where
  "blen_num num.One = 1"
| "blen_num (num.Bit0 n) = blen_num n + 1"
| "blen_num (num.Bit1 n) = blen_num n + 1"

text \<open>The number of binary digits of a positive integer.\<close>

function blen :: "int \<Rightarrow> int" where
  "blen n = (if n \<le> 0 then 0 else blen (n div 2) + 1)"
  by pat_completeness auto
termination by (relation "measure nat") auto

declare blen.simps [simp del]

lemma blen_0 [simp]: "blen 0 = 0"
  by (simp add: blen.simps)

lemma blen_numeral: "blen (numeral n) = blen_num n"
  by (induction n) (subst blen.simps; simp)+

lemma blen_code [code]:
  "blen (Int.Pos n) = blen_num n" "blen 0 = 0" "blen (Int.Neg n) = 0"
  by (simp_all add: Int.Pos_def blen_numeral blen.simps [of "- numeral n"])

definition shl :: "int \<Rightarrow> int \<Rightarrow> int" where
  "shl m k = (if m = 0 then 0 else m * 2 ^ nat k)"

definition rne_div :: "int \<Rightarrow> int \<Rightarrow> int" where
  "rne_div n d = (let q = n div d; r = n mod d
                  in if 2 * r < d \<or> (2 * r = d \<and> even q) then q else q + 1)"

definition scale_num :: "int \<Rightarrow> int \<Rightarrow> int \<Rightarrow> int" where
  "scale_num n e x = (if x \<le> e then shl n (e - x) else n)"

definition scale_den :: "int \<Rightarrow> int \<Rightarrow> int \<Rightarrow> int" where
  "scale_den d e x = (if x \<le> e then d else shl d (x - e))"

definition quo_exp :: "int \<Rightarrow> int \<Rightarrow> int \<Rightarrow> int" where
  "quo_exp n d e =
     (let x = max (e + blen n - blen d - 53) (-1074)
      in if 9007199254740992 * scale_den d e x \<le> scale_num n e x then x + 1 else x)"

definition pack :: "bool \<Rightarrow> int \<Rightarrow> int \<Rightarrow> f64" where
  "pack neg m x =
     (if m = 0 then zero_of neg
      else if 971 < x then inf_of neg
      else Fin (if neg then - m else m) x)"

text \<open>
  \<open>round_f64 neg n d e\<close> is the binary64 number nearest to \<open>n / d * 2^e\<close> with the sign
  \<open>neg\<close>, for \<open>0 \<le> n\<close> and \<open>0 < d\<close>; beyond the largest finite number it is an infinity.
\<close>

definition round_f64 :: "bool \<Rightarrow> int \<Rightarrow> int \<Rightarrow> int \<Rightarrow> f64" where
  "round_f64 neg n d e =
     (if n = 0 then zero_of neg
      else let x = quo_exp n d e; m = rne_div (scale_num n e x) (scale_den d e x)
           in if m = 9007199254740992 then pack neg 4503599627370496 (x + 1) else pack neg m x)"

text \<open>A decimal constant of the source: \<open>lit n k\<close> is \<open>n / 10^k\<close>. Conversions from integers.\<close>

definition lit :: "int \<Rightarrow> nat \<Rightarrow> f64" where
  "lit n k = round_f64 (n < 0) \<bar>n\<bar> (10 ^ k) 0"

definition f64_of_int :: "int \<Rightarrow> f64" where
  "f64_of_int k = round_f64 (k < 0) \<bar>k\<bar> 1 0"

subsection \<open>Arithmetic\<close>

text \<open>The exponent two operands are brought to before they are added or compared.\<close>

definition common_exp :: "f64 \<Rightarrow> f64 \<Rightarrow> int" where
  "common_exp a b =
     (if mant a = 0 \<and> mant b \<noteq> 0 then expo b
      else if mant b = 0 \<and> mant a \<noteq> 0 then expo a
      else min (expo a) (expo b))"

definition align :: "f64 \<Rightarrow> f64 \<Rightarrow> int" where
  "align a b = shl (mant a) (expo a - common_exp a b)"

instantiation f64 :: "{zero, one, uminus, plus, minus, times, divide, ord, abs}"
begin

definition zero_f64 :: f64 where "zero_f64 = Fin 0 (-1074)"

definition one_f64 :: f64 where "one_f64 = Fin 4503599627370496 (-52)"

fun uminus_f64 :: "f64 \<Rightarrow> f64" where
  "uminus_f64 NaN = NaN"
| "uminus_f64 PInf = NInf"
| "uminus_f64 NInf = PInf"
| "uminus_f64 NZero = Fin 0 (-1074)"
| "uminus_f64 (Fin m e) = (if m = 0 then NZero else Fin (- m) e)"

definition plus_f64 :: "f64 \<Rightarrow> f64 \<Rightarrow> f64" where
  "plus_f64 a b =
     (if a = NaN \<or> b = NaN \<or> (a = PInf \<and> b = NInf) \<or> (a = NInf \<and> b = PInf) then NaN
      else if a = PInf \<or> b = PInf then PInf
      else if a = NInf \<or> b = NInf then NInf
      else if a = NZero \<and> b = NZero then NZero
      else let n = align a b + align b a
           in round_f64 (n < 0) \<bar>n\<bar> 1 (common_exp a b))"

definition minus_f64 :: "f64 \<Rightarrow> f64 \<Rightarrow> f64" where
  "minus_f64 a b = a + (- b)"

definition times_f64 :: "f64 \<Rightarrow> f64 \<Rightarrow> f64" where
  "times_f64 a b =
     (let neg = (signbit a \<noteq> signbit b)
      in if a = NaN \<or> b = NaN then NaN
         else if finite_f64 a \<and> finite_f64 b
              then round_f64 neg \<bar>mant a * mant b\<bar> 1 (expo a + expo b)
         else if (finite_f64 a \<and> mant a = 0) \<or> (finite_f64 b \<and> mant b = 0) then NaN
         else inf_of neg)"

definition divide_f64 :: "f64 \<Rightarrow> f64 \<Rightarrow> f64" where
  "divide_f64 a b =
     (let neg = (signbit a \<noteq> signbit b)
      in if a = NaN \<or> b = NaN \<or> (\<not> finite_f64 a \<and> \<not> finite_f64 b) then NaN
         else if \<not> finite_f64 a then inf_of neg
         else if \<not> finite_f64 b then zero_of neg
         else if mant b = 0 then (if mant a = 0 then NaN else inf_of neg)
         else round_f64 neg \<bar>mant a\<bar> \<bar>mant b\<bar> (expo a - expo b))"

fun abs_f64 :: "f64 \<Rightarrow> f64" where
  "abs_f64 NInf = PInf"
| "abs_f64 NZero = Fin 0 (-1074)"
| "abs_f64 (Fin m e) = Fin \<bar>m\<bar> e"
| "abs_f64 x = x"

definition less_f64 :: "f64 \<Rightarrow> f64 \<Rightarrow> bool" where
  "less_f64 a b =
     (if a = NaN \<or> b = NaN \<or> a = PInf \<or> b = NInf then False
      else if a = NInf \<or> b = PInf then True
      else align a b < align b a)"

definition less_eq_f64 :: "f64 \<Rightarrow> f64 \<Rightarrow> bool" where
  "less_eq_f64 a b =
     (if a = NaN \<or> b = NaN then False
      else if a = NInf \<or> b = PInf then True
      else if a = PInf \<or> b = NInf then False
      else align a b \<le> align b a)"

instance ..

end

instantiation f64 :: inverse
begin

definition inverse_f64 :: "f64 \<Rightarrow> f64" where
  "inverse_f64 a = 1 div a"

instance ..

end

text \<open>Go's \<open>==\<close> on floats: NaN differs from itself, the two zeros are equal.\<close>

definition feq :: "f64 \<Rightarrow> f64 \<Rightarrow> bool" where
  "feq a b \<longleftrightarrow> a \<le> b \<and> b \<le> a"

subsection \<open>The functions of package math\<close>

definition math_max :: "f64 \<Rightarrow> f64 \<Rightarrow> f64" where
  "math_max x y =
     (if x = PInf \<or> y = PInf then PInf
      else if x = NaN \<or> y = NaN then NaN
      else if feq x 0 \<and> feq x y then (if signbit x then y else x)
      else if y < x then x else y)"

definition math_min :: "f64 \<Rightarrow> f64 \<Rightarrow> f64" where
  "math_min x y =
     (if x = NInf \<or> y = NInf then NInf
      else if x = NaN \<or> y = NaN then NaN
      else if feq x 0 \<and> feq x y then (if signbit x then x else y)
      else if x < y then x else y)"

text \<open>\<open>math.Round\<close>: to the nearest integer, halves away from zero.\<close>

definition math_round :: "f64 \<Rightarrow> f64" where
  "math_round x =
     (if \<not> finite_f64 x \<or> 0 \<le> expo x then x
      else let k = 2 ^ nat (- expo x) in round_f64 (signbit x) ((2 * \<bar>mant x\<bar> + k) div (2 * k)) 1 0)"

text \<open>
  The conversion \<open>int64(x)\<close>: truncation; what does not fit gives the least \<open>int64\<close>, as the
  amd64 instruction does.
\<close>

definition int64_of_f64 :: "f64 \<Rightarrow> int" where
  "int64_of_f64 x =
     (let t = (if 0 \<le> expo x then shl \<bar>mant x\<bar> (expo x) else \<bar>mant x\<bar> div 2 ^ nat (- expo x));
          r = (if mant x < 0 then - t else t)
      in if finite_f64 x \<and> - 9223372036854775808 \<le> r \<and> r < 9223372036854775808
         then r else - 9223372036854775808)"

text \<open>\<open>sort.Float64s\<close>: ascending, NaN before every number.\<close>

definition float_before :: "f64 \<Rightarrow> f64 \<Rightarrow> bool" where
  "float_before x y \<longleftrightarrow> x < y \<or> (x = NaN \<and> y \<noteq> NaN)"

fun insert_float :: "f64 \<Rightarrow> f64 list \<Rightarrow> f64 list" where
  "insert_float x [] = [x]"
| "insert_float x (y # ys) = (if float_before y x then y # insert_float x ys else x # y # ys)"

definition sort_floats :: "f64 list \<Rightarrow> f64 list" where
  "sort_floats xs = foldr insert_float xs []"

end
