(* ===== verification/Float_Facts.thy ===== *)
theory Float_Facts
  imports Float64 "HOL-Library.Multiset"
begin

text \<open>
  What the component proofs know of the float operations: on finite operands each of
  them is the exact real operation followed by \<open>rnd\<close>, as long as the result is below the
  overflow threshold \<open>2^1024\<close>; comparisons are those of the reals.
\<close>

definition val :: "f64 \<Rightarrow> real" where
  "val x = of_int (mant x) * p2 (expo x)"

definition sgnr :: "bool \<Rightarrow> real" where "sgnr neg = (if neg then -1 else 1)"

lemma sgnr_simps [simp]: "sgnr True = -1" "sgnr False = 1"
  by (simp_all add: sgnr_def)

text \<open>Results below the overflow threshold are finite.\<close>

definition ovf :: real where "ovf = p2 1024"

lemma ovf_pos [simp]: "0 < ovf"
  by (simp only: ovf_def p2_pos)

lemma p2_less_ovf: "p2 k < ovf \<longleftrightarrow> k < 1024"
  unfolding ovf_def by (rule p2_less_iff)

subsection \<open>Digits and quotients\<close>

lemma blen_nonneg: "0 \<le> blen n"
proof (induction n rule: blen.induct)
  case (1 n)
  then show ?case by (cases "n \<le> 0") (simp_all add: blen.simps [of n])
qed

lemma blen_bounds: "0 < n \<Longrightarrow> 2 ^ nat (blen n - 1) \<le> n \<and> n < 2 ^ nat (blen n) \<and> 1 \<le> blen n"
proof (induction n rule: blen.induct)
  case (1 n)
  show ?case
  proof (cases "n = 1")
    case True
    then show ?thesis by (simp add: blen.simps [of 1])
  next
    case False
    with 1(2) have pos: "0 < n div 2" by simp
    define k where "k = blen (n div 2)"
    have b: "blen n = k + 1" using 1(2) by (simp add: k_def blen.simps [of n])
    have IH: "2 ^ nat (k - 1) \<le> n div 2" "n div 2 < 2 ^ nat k" "1 \<le> k"
      using 1 pos unfolding k_def by auto
    have e: "nat k = Suc (nat (k - 1))" "nat (k + 1) = Suc (nat k)" using IH(3) by simp_all
    have "2 ^ nat k = 2 * (2::int) ^ nat (k - 1)" "2 ^ nat (k + 1) = 2 * (2::int) ^ nat k"
      unfolding e by simp_all
    moreover have "n div 2 * 2 \<le> n" "n < (n div 2 + 1) * 2" by simp_all
    ultimately show ?thesis using IH unfolding b by auto
  qed
qed

lemma blen_real: assumes "0 < n" shows "p2 (blen n - 1) \<le> of_int n" "of_int n < p2 (blen n)"
proof -
  note b = blen_bounds [OF assms]
  have "of_int (2 ^ nat (blen n - 1)) \<le> (of_int n :: real)" using b unfolding of_int_le_iff by blast
  then show "p2 (blen n - 1) \<le> of_int n" using b by (simp add: p2_nat)
  have "of_int n < (of_int (2 ^ nat (blen n)) :: real)" using b unfolding of_int_less_iff by blast
  then show "of_int n < p2 (blen n)" using b by (simp add: p2_nat)
qed

lemma shl_val: "0 \<le> k \<Longrightarrow> of_int (shl m k) = of_int m * p2 k"
  by (simp add: shl_def p2_nat)

lemma shl_mono: "shl a k < shl b k \<longleftrightarrow> a < b"
  by (auto simp: shl_def zero_less_mult_iff mult_less_0_iff)

lemma scale_pos: "0 < n \<Longrightarrow> 0 < scale_num n e x" "0 < d \<Longrightarrow> 0 < scale_den d e x"
  by (simp_all add: scale_num_def scale_den_def shl_def)

lemma scale_quotient:
  assumes "0 < d"
  shows "of_int (scale_num n e x) / of_int (scale_den d e x) = of_int n / of_int d * p2 (e - x)"
proof (cases "x \<le> e")
  case True
  then show ?thesis by (simp add: scale_num_def scale_den_def shl_val)
next
  case False
  then have "p2 (e - x) = 1 / p2 (x - e)" using p2_diff [of 0 "x - e"] by simp
  with False show ?thesis by (simp add: scale_num_def scale_den_def shl_val)
qed

lemma rne_div_rne: assumes "0 < d" shows "rne_div n d = rne (of_int n / of_int d)"
proof -
  have fl: "\<lfloor>of_int n / of_int d :: real\<rfloor> = n div d" by (rule floor_divide_of_int_eq)
  have n: "of_int n = (of_int (n div d) * of_int d + of_int (n mod d) :: real)"
    by (metis div_mult_mod_eq of_int_add of_int_mult)
  have fr: "of_int n / of_int d - of_int (n div d) = of_int (n mod d) / (of_int d :: real)"
    using assms by (subst n) (simp add: field_simps)
  have d0: "(0::real) < of_int d" using assms by simp
  have half: "x / y < (1 / 2 :: real) \<longleftrightarrow> 2 * x < y" "x / y = 1 / 2 \<longleftrightarrow> 2 * x = y" if "0 < y" for x y :: real
    using that by (auto simp: field_simps)
  have "of_int (n mod d) / of_int d < (1 / 2 :: real) \<longleftrightarrow> of_int (2 * (n mod d)) < (of_int d :: real)"
    "of_int (n mod d) / of_int d = (1 / 2 :: real) \<longleftrightarrow> of_int (2 * (n mod d)) = (of_int d :: real)"
    unfolding half [OF d0] of_int_mult of_int_numeral by (rule refl)+
  then have "of_int (n mod d) / of_int d < (1 / 2 :: real) \<longleftrightarrow> 2 * (n mod d) < d"
    "of_int (n mod d) / of_int d = (1 / 2 :: real) \<longleftrightarrow> 2 * (n mod d) = d"
    unfolding of_int_less_iff of_int_eq_iff by blast+
  then show ?thesis unfolding rne_div_def rne_def Let_def fl fr by simp
qed

lemma quo_exp_cexp:
  assumes "0 < n" "0 < d" shows "quo_exp n d e = cexp (of_int n / of_int d * p2 e)"
proof -
  define y :: real where "y = of_int n / of_int d * p2 e"
  define k where "k = e + blen n - blen d - 53"
  define x where "x = max k (-1074)"
  have y0: "0 < y" using assms by (simp add: y_def)
  have n: "p2 (blen n - 1) \<le> of_int n" "of_int n < p2 (blen n)"
   and d: "p2 (blen d - 1) \<le> of_int d" "of_int d < p2 (blen d)"
    using blen_real assms by blast+
  have d0: "(0::real) < of_int d" using assms by simp
  have "of_int n / of_int d < p2 (blen n) / p2 (blen d - 1)"
    using n d d0 by (intro frac_less) (auto simp: assms less_imp_le)
  also have "\<dots> = p2 (blen n - blen d + 1)" by (simp add: algebra_simps flip: p2_diff)
  finally have "y < p2 (blen n - blen d + 1) * p2 e"
    unfolding y_def by (rule mult_strict_right_mono) simp
  then have hi: "y < p2 (k + 54)" by (simp add: k_def algebra_simps flip: p2_add)
  have "p2 (blen n - 1) / p2 (blen d) < of_int n / of_int d"
    using n d d0 by (intro frac_less2) auto
  then have "p2 (blen n - 1 - blen d) * p2 e < y"
    unfolding y_def p2_diff [symmetric] by (rule mult_strict_right_mono) simp
  then have lo: "p2 (k + 52) < y" by (simp add: k_def algebra_simps flip: p2_add)
  have q: "of_int (scale_num n e x) / of_int (scale_den d e x) = y / p2 x"
    using scale_quotient [OF assms(2), of n e x] by (simp add: y_def p2_diff)
  have D: "(0::real) < of_int (scale_den d e x)" using scale_pos assms by simp
  have "9007199254740992 * scale_den d e x \<le> scale_num n e x \<longleftrightarrow>
      2 ^ 53 * of_int (scale_den d e x) \<le> (of_int (scale_num n e x) :: real)"
    by (simp flip: of_int_le_iff [where 'a = real])
  also have "\<dots> \<longleftrightarrow> 2 ^ 53 \<le> y / p2 x" using D unfolding q [symmetric] by (simp add: field_simps)
  also have "\<dots> \<longleftrightarrow> p2 (x + 53) \<le> y" using p2_add [of x 53] by (simp add: field_simps)
  finally have test: "quo_exp n d e = (if p2 (x + 53) \<le> y then x + 1 else x)"
    unfolding quo_exp_def Let_def k_def [symmetric] x_def [symmetric] by simp
  have kx: "k \<le> x" "-1074 \<le> x" "x = -1074 \<or> x = k" by (auto simp: x_def)
  have "cexp y = quo_exp n d e"
  proof (cases "p2 (x + 53) \<le> y")
    case True
    have "p2 (k + 54) \<le> p2 (x + 1 + 53)" using kx unfolding p2_le_iff by simp
    with hi have "\<bar>y\<bar> < p2 (x + 1 + 53)" using y0 by linarith
    moreover have "p2 (x + 1 + 52) \<le> \<bar>y\<bar>" using True y0 by (simp add: algebra_simps)
    ultimately show ?thesis using kx test True by (intro cexp_eqI) simp_all
  next
    case False
    have "x = -1074 \<or> p2 (x + 52) \<le> \<bar>y\<bar>" using kx(3) lo y0 by auto
    then show ?thesis using kx test False y0 by (intro cexp_eqI) auto
  qed
  then show ?thesis by (simp add: y_def)
qed

subsection \<open>The rounding function\<close>

lemma val_Fin: "val (Fin m e) = of_int m * p2 e"
  by (simp add: val_def)

lemma zero_of_simps [simp]: "val (zero_of neg) = 0" "finite_f64 (zero_of neg)" "canonical (zero_of neg)"
  by (simp_all add: zero_of_def val_def)

lemma inf_of_simps [simp]: "\<not> finite_f64 (inf_of neg)" "canonical (inf_of neg)"
  by (simp_all add: inf_of_def)

lemma rnd_rne: "rnd y = of_int (rne (y / p2 (cexp y))) * p2 (cexp y)"
  by (rule rnd_def)

lemma rne_quotient_bounds:
  assumes "0 < y"
  shows "0 \<le> rne (y / p2 (cexp y))" "rne (y / p2 (cexp y)) \<le> 2 ^ 53"
    "cexp y = -1074 \<or> 2 ^ 52 \<le> rne (y / p2 (cexp y))"
proof -
  show "0 \<le> rne (y / p2 (cexp y))" using assms by (intro rne_ge_of_int) simp
  show "rne (y / p2 (cexp y)) \<le> 2 ^ 53"
    using cexp_upper [of y] assms p2_add [of "cexp y" 53] by (intro rne_le_of_int) (simp add: field_simps)
  show "cexp y = -1074 \<or> 2 ^ 52 \<le> rne (y / p2 (cexp y))"
    using cexp_lower [of y] assms p2_add [of "cexp y" 52]
    by (auto simp: field_simps intro!: rne_ge_of_int)
qed

lemma round_f64_eq:
  assumes "0 < n" "0 < d" and y: "y = of_int n / of_int d * p2 e"
  shows "round_f64 neg n d e =
    (let x = cexp y; m = rne (y / p2 x)
     in if m = 2 ^ 53 then pack neg (2 ^ 52) (x + 1) else pack neg m x)"
proof -
  define x where "x = cexp y"
  have x: "quo_exp n d e = x" using quo_exp_cexp assms by (simp add: x_def)
  have "rne_div (scale_num n e x) (scale_den d e x) = rne (y / p2 x)"
    using scale_pos(2) [OF assms(2), of e x] scale_quotient [OF assms(2), of n e x]
    by (simp add: rne_div_rne y p2_diff)
  then show ?thesis
    using assms(1) by (simp add: round_f64_def Let_def x flip: x_def)
qed

lemma round_f64_canonical: assumes "0 \<le> n" "0 < d" shows "canonical (round_f64 neg n d e)"
proof (cases "n = 0")
  case False
  define y :: real where "y = of_int n / of_int d * p2 e"
  have y0: "0 < y" using False assms by (simp add: y_def)
  note b = rne_quotient_bounds [OF y0] and x = cexp_ge [of y]
  have "canonical (round_f64 neg n d e)"
    unfolding round_f64_eq [OF _ assms(2) y_def] Let_def
    using b x by (subst round_f64_eq [OF _ assms(2) y_def]) (auto simp: False assms pack_def Let_def less_le)
  then show ?thesis .
qed (simp add: round_f64_def)

lemma round_f64_val:
  assumes "0 \<le> n" "0 < d" "rnd (of_int n / of_int d * p2 e) < ovf"
  shows "finite_f64 (round_f64 neg n d e) \<and>
    val (round_f64 neg n d e) = sgnr neg * rnd (of_int n / of_int d * p2 e)"
proof (cases "n = 0")
  case False
  define y :: real where "y = of_int n / of_int d * p2 e"
  define x where "x = cexp y"
  define m where "m = rne (y / p2 x)"
  have n: "0 < n" using False assms by simp
  have y0: "0 < y" using n assms by (simp add: y_def)
  have b: "0 \<le> m" "m \<le> 2 ^ 53" "x = -1074 \<or> 2 ^ 52 \<le> m"
    using rne_quotient_bounds [OF y0] by (simp_all add: m_def x_def)
  have r: "rnd y = of_int m * p2 x" by (simp add: rnd_def m_def x_def)
  have small: "of_int m * p2 x < ovf" using assms(3) unfolding y_def [symmetric] r .
  have eq: "round_f64 neg n d e = (if m = 2 ^ 53 then pack neg (2 ^ 52) (x + 1) else pack neg m x)"
    using round_f64_eq [OF n assms(2) y_def] by (simp add: Let_def m_def x_def)
  have "finite_f64 (round_f64 neg n d e) \<and> val (round_f64 neg n d e) = sgnr neg * (of_int m * p2 x)"
  proof (cases "m = 2 ^ 53")
    case True
    have "p2 (x + 53) < ovf" using small p2_add [of x 53] by (simp add: True)
    then have "x + 1 \<le> 971" unfolding p2_less_ovf by simp
    then show ?thesis using p2_add [of x 1]
      by (simp add: eq True pack_def val_Fin sgnr_def)
  next
    case False
    have "x \<le> 971"
    proof (rule ccontr)
      assume "\<not> x \<le> 971"
      with b(3) have "2 ^ 52 \<le> m" and x: "972 \<le> x" by auto
      have "ovf \<le> p2 (x + 52)" using x p2_less_ovf [of "x + 52"] by simp
      also have "\<dots> = of_int (2 ^ 52) * p2 x" using p2_add [of x 52] by simp
      also have "\<dots> \<le> of_int m * p2 x" using \<open>2 ^ 52 \<le> m\<close>
        by (intro mult_right_mono of_int_le_iff [THEN iffD2]) simp_all
      finally show False using small by simp
    qed
    then show ?thesis using False by (simp add: eq pack_def val_Fin sgnr_def)
  qed
  then show ?thesis unfolding y_def [symmetric] r .
qed (simp add: round_f64_def)

subsection \<open>The operations on finite numbers\<close>

text \<open>Facts about single operations; \<open>fval\<close> collects those that compute \<open>val\<close>.\<close>

named_theorems fval

lemma finite_cases:
  assumes "finite_f64 x"
  obtains m e where "x = Fin m e" | "x = NZero"
  using assms by (cases x) auto

lemma not_nan_inf: "finite_f64 x \<Longrightarrow> x \<noteq> NaN \<and> x \<noteq> PInf \<and> x \<noteq> NInf"
  by (cases x) auto

lemma val_zero [simp]: "val 0 = 0" and finite_zero [simp]: "finite_f64 0" and canonical_zero [simp]: "canonical 0"
  by (simp_all add: zero_f64_def val_def)

lemma val_one [simp]: "val 1 = 1" and finite_one [simp]: "finite_f64 1" and canonical_one [simp]: "canonical 1"
  using p2_diff [of 0 52] by (simp_all add: one_f64_def val_def)

lemma val_NZero [simp]: "val NZero = 0"
  by (simp add: val_def)

lemma mant_0_iff: "mant x = 0 \<longleftrightarrow> val x = 0"
  by (simp add: val_def)

lemma canonical_representable:
  assumes "canonical x" shows "representable (val x)"
proof (cases x)
  case (Fin m e)
  with assms have "\<bar>m\<bar> \<le> 2 ^ 53" "-1074 \<le> e" by auto
  then show ?thesis unfolding Fin val_Fin by (rule representableI)
qed (simp_all add: val_def)

lemma rnd_val [simp]: "canonical x \<Longrightarrow> rnd (val x) = val x"
  by (simp add: rnd_representable canonical_representable)

lemma val_less_ovf:
  assumes "canonical x" shows "\<bar>val x\<bar> < ovf"
proof (cases x)
  case (Fin m e)
  show ?thesis
  proof (cases "m = 0")
    case False
    with assms Fin have b: "\<bar>m\<bar> < 2 ^ 53" "e \<le> 971" by auto
    have "\<bar>val x\<bar> = of_int \<bar>m\<bar> * p2 e" by (simp add: Fin val_Fin abs_mult)
    also have "\<dots> < of_int (2 ^ 53) * p2 e"
      using b(1) by (intro mult_strict_right_mono of_int_less_iff [THEN iffD2]) simp_all
    also have "\<dots> = p2 (e + 53)" using p2_add [of e 53] by simp
    also have "\<dots> \<le> ovf" using b(2) unfolding ovf_def p2_le_iff by simp
    finally show ?thesis .
  qed (simp add: Fin val_Fin)
qed (simp_all add: val_def)

lemma common_exp_commute: "common_exp a b = common_exp b a"
  by (simp add: common_exp_def min.commute)

lemma align_val:
  "of_int (align a b) * p2 (common_exp a b) = val a"
proof (cases "mant a = 0")
  case False
  then have "common_exp a b \<le> expo a" by (simp add: common_exp_def)
  then show ?thesis
    using p2_add [of "expo a - common_exp a b" "common_exp a b"]
    by (simp add: align_def shl_val val_def)
qed (simp add: align_def shl_def val_def)

lemma align_cmp:
  "align a b < align b a \<longleftrightarrow> val a < val b" "align a b \<le> align b a \<longleftrightarrow> val a \<le> val b"
proof -
  define s where "s = p2 (common_exp a b)"
  have s: "0 < s" by (simp add: s_def)
  have v: "val a = of_int (align a b) * s" "val b = of_int (align b a) * s"
    using align_val [of a b] align_val [of b a] by (simp_all add: s_def common_exp_commute)
  show "align a b < align b a \<longleftrightarrow> val a < val b" "align a b \<le> align b a \<longleftrightarrow> val a \<le> val b"
    unfolding v using s by simp_all
qed

lemma less_val [fval]:
  "finite_f64 a \<Longrightarrow> finite_f64 b \<Longrightarrow> a < b \<longleftrightarrow> val a < val b"
  using not_nan_inf [of a] not_nan_inf [of b] by (simp add: less_f64_def align_cmp)

lemma le_val [fval]:
  "finite_f64 a \<Longrightarrow> finite_f64 b \<Longrightarrow> a \<le> b \<longleftrightarrow> val a \<le> val b"
  using not_nan_inf [of a] not_nan_inf [of b] by (simp add: less_eq_f64_def align_cmp)

lemma feq_val [fval]:
  "finite_f64 a \<Longrightarrow> finite_f64 b \<Longrightarrow> feq a b \<longleftrightarrow> val a = val b"
  by (auto simp: feq_def le_val)

lemma uminus_simps [simp]:
  "finite_f64 (- x) = finite_f64 x" "val (- x) = - val x" "canonical x \<Longrightarrow> canonical (- x)"
proof -
  show "finite_f64 (- x) = finite_f64 x" by (cases x) simp_all
  show "val (- x) = - val x" by (cases x) (simp_all add: val_def)
  show "canonical x \<Longrightarrow> canonical (- x)" by (cases x) auto
qed

lemma abs_simps [simp]:
  "finite_f64 \<bar>x\<bar> = finite_f64 x" "val \<bar>x\<bar> = \<bar>val x\<bar>" "canonical x \<Longrightarrow> canonical \<bar>x\<bar>"
proof -
  show "finite_f64 \<bar>x\<bar> = finite_f64 x" by (cases x) simp_all
  show "val \<bar>x\<bar> = \<bar>val x\<bar>" by (cases x) (simp_all add: val_def abs_mult)
  show "canonical x \<Longrightarrow> canonical \<bar>x\<bar>" by (cases x) auto
qed

lemma sgnr_rnd: "sgnr neg * rnd y = rnd (sgnr neg * y)"
  by (simp add: sgnr_def)

lemma plus_f64_val:
  assumes "finite_f64 a" "finite_f64 b" "\<bar>rnd (val a + val b)\<bar> < ovf"
  shows "finite_f64 (a + b) \<and> val (a + b) = rnd (val a + val b)"
proof (cases "a = NZero \<and> b = NZero")
  case True
  then show ?thesis by (simp add: plus_f64_def)
next
  case False
  define e where "e = common_exp a b"
  define n where "n = align a b + align b a"
  have s: "a + b = round_f64 (n < 0) \<bar>n\<bar> 1 e"
    using False not_nan_inf [OF assms(1)] not_nan_inf [OF assms(2)]
    by (auto simp: plus_f64_def Let_def n_def e_def)
  have v: "of_int n * p2 e = val a + val b"
    using align_val [of a b] align_val [of b a]
    by (simp add: n_def e_def distrib_right common_exp_commute)
  have n: "sgnr (n < 0) * (of_int \<bar>n\<bar> / of_int 1 * p2 e) = val a + val b"
    unfolding v [symmetric] by (simp add: sgnr_def)
  have "rnd (of_int \<bar>n\<bar> / of_int 1 * p2 e) = \<bar>rnd (val a + val b)\<bar>"
    unfolding rnd_abs v [symmetric] by (simp add: abs_mult)
  then show ?thesis
    using round_f64_val [of "\<bar>n\<bar>" 1 e "n < 0"] assms(3) unfolding s sgnr_rnd n by simp
qed

lemma minus_f64_val:
  assumes "finite_f64 a" "finite_f64 b" "\<bar>rnd (val a - val b)\<bar> < ovf"
  shows "finite_f64 (a - b) \<and> val (a - b) = rnd (val a - val b)"
  using plus_f64_val [of a "- b"] assms by (simp add: minus_f64_def)

lemma signbit_val: "finite_f64 x \<Longrightarrow> val x \<noteq> 0 \<Longrightarrow> signbit x \<longleftrightarrow> val x < 0"
  by (cases x) (auto simp: val_def mult_less_0_iff not_less)

lemma val_sign: "finite_f64 x \<Longrightarrow> val x = sgnr (signbit x) * \<bar>val x\<bar>"
  by (cases "val x = 0") (auto simp: signbit_val sgnr_def)

lemma sgnr_mult: "sgnr a * sgnr b = sgnr (a \<noteq> b)"
  by (simp add: sgnr_def)

lemma times_f64_val:
  assumes "finite_f64 a" "finite_f64 b" "\<bar>rnd (val a * val b)\<bar> < ovf"
  shows "finite_f64 (a * b) \<and> val (a * b) = rnd (val a * val b)"
proof -
  define neg where "neg = (signbit a \<noteq> signbit b)"
  define n where "n = \<bar>mant a * mant b\<bar>"
  define e where "e = expo a + expo b"
  have s: "a * b = round_f64 neg n 1 e"
    using assms not_nan_inf [of a] not_nan_inf [of b] by (simp add: times_f64_def Let_def n_def e_def neg_def)
  have v: "of_int n / of_int 1 * p2 e = \<bar>val a\<bar> * \<bar>val b\<bar>"
    by (simp add: n_def e_def val_def abs_mult p2_add)
  have sv: "sgnr neg * (of_int n / of_int 1 * p2 e) = val a * val b"
    using val_sign [OF assms(1)] val_sign [OF assms(2)] unfolding v neg_def sgnr_mult [symmetric]
    by (metis mult.assoc mult.left_commute)
  have "rnd (of_int n / of_int 1 * p2 e) = \<bar>rnd (val a * val b)\<bar>"
    unfolding rnd_abs v by (simp add: abs_mult)
  then show ?thesis
    using round_f64_val [of n 1 e neg] assms(3) unfolding s sgnr_rnd sv by (simp add: n_def)
qed

lemma divide_f64_val:
  assumes "finite_f64 a" "finite_f64 b" "val b \<noteq> 0" "\<bar>rnd (val a / val b)\<bar> < ovf"
  shows "finite_f64 (a / b) \<and> val (a / b) = rnd (val a / val b)"
proof -
  define neg where "neg = (signbit a \<noteq> signbit b)"
  define e where "e = expo a - expo b"
  have m: "mant b \<noteq> 0" using assms(3) by (simp add: mant_0_iff)
  have s: "a / b = round_f64 neg \<bar>mant a\<bar> \<bar>mant b\<bar> e"
    using assms(1,2) m not_nan_inf [of a] not_nan_inf [of b] by (simp add: divide_f64_def Let_def e_def neg_def)
  have v: "of_int \<bar>mant a\<bar> / of_int \<bar>mant b\<bar> * p2 e = \<bar>val a\<bar> / \<bar>val b\<bar>"
    by (simp add: e_def val_def abs_mult p2_diff)
  have "sgnr neg * (\<bar>val a\<bar> / \<bar>val b\<bar>) = (sgnr (signbit a) * \<bar>val a\<bar>) / (sgnr (signbit b) * \<bar>val b\<bar>)"
    unfolding neg_def by (simp add: sgnr_def)
  then have sv: "sgnr neg * (of_int \<bar>mant a\<bar> / of_int \<bar>mant b\<bar> * p2 e) = val a / val b"
    using val_sign [OF assms(1)] val_sign [OF assms(2)] unfolding v by simp
  have "rnd (of_int \<bar>mant a\<bar> / of_int \<bar>mant b\<bar> * p2 e) = \<bar>rnd (val a / val b)\<bar>"
    unfolding rnd_abs v by (simp add: abs_divide)
  then show ?thesis
    using round_f64_val [of "\<bar>mant a\<bar>" "\<bar>mant b\<bar>" e neg] assms(4) m unfolding s sgnr_rnd sv by simp
qed

lemma canonical_ops [simp]:
  "canonical (a + b)" "canonical (a - b)" "canonical (a * b)" "canonical (a / b)"
proof -
  have plus: "canonical (a + b)" for a b
    by (auto simp: plus_f64_def Let_def intro!: round_f64_canonical)
  then show "canonical (a + b)" "canonical (a - b)" by (simp_all add: minus_f64_def)
  show "canonical (a * b)"
    by (auto simp: times_f64_def Let_def intro!: round_f64_canonical)
  show "canonical (a / b)"
    by (auto simp: divide_f64_def Let_def intro!: round_f64_canonical)
qed

subsection \<open>Bounds\<close>

lemma rnd_less_ovf: assumes "\<bar>y\<bar> \<le> p2 1023" shows "\<bar>rnd y\<bar> < ovf"
proof -
  have "\<bar>rnd y\<bar> \<le> p2 1023" by (rule rnd_abs_le [OF assms representable_p2]) simp
  also have "\<dots> < ovf" unfolding p2_less_ovf by simp
  finally show ?thesis .
qed

definition between :: "real \<Rightarrow> real \<Rightarrow> f64 \<Rightarrow> bool" where
  "between lo hi x \<longleftrightarrow> finite_f64 x \<and> lo \<le> val x \<and> val x \<le> hi"

lemma betweenD: "between lo hi x \<Longrightarrow> finite_f64 x" "between lo hi x \<Longrightarrow> lo \<le> val x"
    "between lo hi x \<Longrightarrow> val x \<le> hi"
  by (simp_all add: between_def)

lemma betweenI: "finite_f64 x \<Longrightarrow> lo \<le> val x \<Longrightarrow> val x \<le> hi \<Longrightarrow> between lo hi x"
  by (simp add: between_def)

lemma between_mono: "between lo hi x \<Longrightarrow> lo' \<le> lo \<Longrightarrow> hi \<le> hi' \<Longrightarrow> between lo' hi' x"
  by (auto simp: between_def)

text \<open>
  Bounds of an exact result that are representable and below the overflow threshold bound
  the rounded result; \<open>bound lo hi\<close> says so of the bounds.
\<close>

definition bound :: "real \<Rightarrow> real \<Rightarrow> bool" where
  "bound lo hi \<longleftrightarrow> representable lo \<and> representable hi \<and> \<bar>lo\<bar> < ovf \<and> \<bar>hi\<bar> < ovf"

lemma bound_rnd:
  assumes "bound lo hi" "lo \<le> y" "y \<le> hi"
  shows "lo \<le> rnd y" "rnd y \<le> hi" "\<bar>rnd y\<bar> < ovf"
proof -
  show lo: "lo \<le> rnd y" and hi: "rnd y \<le> hi"
    using assms by (simp_all add: bound_def rnd_ge rnd_le)
  show "\<bar>rnd y\<bar> < ovf" using lo hi assms(1) unfolding bound_def abs_less_iff by linarith
qed

lemma plus_between:
  assumes "bound lo hi" "finite_f64 a" "finite_f64 b" "lo \<le> val a + val b" "val a + val b \<le> hi"
  shows "between lo hi (a + b) \<and> val (a + b) = rnd (val a + val b)"
  using plus_f64_val [OF assms(2,3) bound_rnd(3) [OF assms(1,4,5)]] bound_rnd [OF assms(1,4,5)]
  by (simp add: between_def)

lemma minus_between:
  assumes "bound lo hi" "finite_f64 a" "finite_f64 b" "lo \<le> val a - val b" "val a - val b \<le> hi"
  shows "between lo hi (a - b) \<and> val (a - b) = rnd (val a - val b)"
  using minus_f64_val [OF assms(2,3) bound_rnd(3) [OF assms(1,4,5)]] bound_rnd [OF assms(1,4,5)]
  by (simp add: between_def)

lemma times_between:
  assumes "bound lo hi" "finite_f64 a" "finite_f64 b" "lo \<le> val a * val b" "val a * val b \<le> hi"
  shows "between lo hi (a * b) \<and> val (a * b) = rnd (val a * val b)"
  using times_f64_val [OF assms(2,3) bound_rnd(3) [OF assms(1,4,5)]] bound_rnd [OF assms(1,4,5)]
  by (simp add: between_def)

lemma divide_between:
  assumes "bound lo hi" "finite_f64 a" "finite_f64 b" "val b \<noteq> 0" "lo \<le> val a / val b" "val a / val b \<le> hi"
  shows "between lo hi (a / b) \<and> val (a / b) = rnd (val a / val b)"
  using divide_f64_val [OF assms(2-4) bound_rnd(3) [OF assms(1,5,6)]] bound_rnd [OF assms(1,5,6)]
  by (simp add: between_def)

lemma representable_numeral: "(numeral n :: int) \<le> 2 ^ 53 \<Longrightarrow> representable (numeral n)"
  using representable_of_int [of "numeral n"] by simp

lemma representable_double: assumes "representable x" shows "representable (2 * x)"
proof -
  obtain m e where x: "x = of_int m * p2 e" "\<bar>m\<bar> \<le> 2 ^ 53" "-1074 \<le> e"
    using assms unfolding representable_def by blast
  have "2 * x = of_int m * p2 (e + 1)" using x(1) p2_add [of e 1] by simp
  then show ?thesis using x by (metis representableI add_increasing2 zero_le_one)
qed

lemma ovf_big: "x \<le> 2 ^ 1000 \<Longrightarrow> x < ovf"
proof -
  assume "x \<le> 2 ^ 1000"
  also have "(2::real) ^ 1000 = p2 1000" using p2_nat [of 1000] by simp
  also have "\<dots> < ovf" unfolding p2_less_ovf by simp
  finally show ?thesis .
qed

lemma bound_int: "\<bar>a\<bar> \<le> 2 ^ 53 \<Longrightarrow> \<bar>b\<bar> \<le> 2 ^ 53 \<Longrightarrow> bound (of_int a) (of_int b)"
proof -
  assume a: "\<bar>a\<bar> \<le> 2 ^ 53" "\<bar>b\<bar> \<le> 2 ^ 53"
  have small: "\<bar>of_int k :: real\<bar> < ovf" if "\<bar>k\<bar> \<le> 2 ^ 53" for k :: int
  proof -
    have "\<bar>of_int k :: real\<bar> = of_int \<bar>k\<bar>" by simp
    also have "\<dots> \<le> of_int (2 ^ 53)" using that unfolding of_int_le_iff .
    also have "\<dots> = p2 53" using p2_nat [of 53] by simp
    also have "\<dots> < ovf" unfolding p2_less_ovf by simp
    finally show ?thesis .
  qed
  show ?thesis using a small unfolding bound_def by (simp add: representable_of_int)
qed

lemma bound_01: "bound 0 1"
  using bound_int [of 0 1] by simp

subsection \<open>Maximum, minimum, rounding\<close>

lemma math_max_val:
  assumes "finite_f64 a" "finite_f64 b"
  shows "finite_f64 (math_max a b) \<and> val (math_max a b) = max (val a) (val b)"
  using assms not_nan_inf [of a] not_nan_inf [of b] by (auto simp: math_max_def fval)

lemma math_min_val:
  assumes "finite_f64 a" "finite_f64 b"
  shows "finite_f64 (math_min a b) \<and> val (math_min a b) = min (val a) (val b)"
  using assms not_nan_inf [of a] not_nan_inf [of b] by (auto simp: math_min_def fval)

lemma canonical_max_min [simp]:
  "canonical a \<Longrightarrow> canonical b \<Longrightarrow> canonical (math_max a b)"
  "canonical a \<Longrightarrow> canonical b \<Longrightarrow> canonical (math_min a b)"
  by (simp_all add: math_max_def math_min_def)

lemma not_nan_cases:
  assumes "x \<noteq> NaN" obtains "x = PInf" | "x = NInf" | "finite_f64 x"
  using assms by (cases x) auto

lemma inf_less [simp]:
  "\<not> PInf < x" "\<not> x < NInf" "\<not> NaN < x" "\<not> x < NaN"
  "finite_f64 x \<Longrightarrow> x < PInf" "finite_f64 x \<Longrightarrow> NInf < x" "NInf < PInf"
  by (cases x; simp add: less_f64_def)+

lemma lit_canonical [simp]: "canonical (lit n k)"
  by (simp add: lit_def round_f64_canonical)

lemma f64_of_int_val:
  assumes "\<bar>rnd (of_int k)\<bar> < ovf"
  shows "finite_f64 (f64_of_int k) \<and> val (f64_of_int k) = rnd (of_int k)"
proof -
  have "sgnr (k < 0) * rnd \<bar>of_int k\<bar> = rnd (of_int k)"
    unfolding sgnr_rnd by (simp add: sgnr_def)
  then show ?thesis
    using round_f64_val [of "\<bar>k\<bar>" 1 0 "k < 0"] assms by (simp add: f64_of_int_def rnd_abs)
qed

lemma f64_of_int_canonical [simp]: "canonical (f64_of_int k)"
  by (simp add: f64_of_int_def round_f64_canonical)

lemma lit_val:
  assumes "0 \<le> n" "rnd (of_int n / 10 ^ k) < ovf"
  shows "finite_f64 (lit n k) \<and> val (lit n k) = rnd (of_int n / 10 ^ k)"
  using round_f64_val [of "\<bar>n\<bar>" "10 ^ k" 0 "n < 0"] assms by (simp add: lit_def sgnr_def)

lemma math_round_between:
  assumes "finite_f64 x" "0 \<le> a" "b \<le> 2 ^ 53" "of_int a \<le> val x" "val x \<le> of_int b"
  shows "between (of_int a) (of_int b) (math_round x) \<and> (\<exists>k. val (math_round x) = of_int k)"
proof (cases "0 \<le> expo x")
  case True
  have "p2 (expo x) = of_int (2 ^ nat (expo x))" using True by (simp add: p2_of_int)
  then have "val x = of_int (mant x * 2 ^ nat (expo x))" by (simp add: val_def)
  then have "\<exists>k. val x = of_int k" by blast
  moreover have "math_round x = x" using True by (simp add: math_round_def)
  ultimately show ?thesis using assms by (simp add: between_def)
next
  case False
  define k where "k = (2::int) ^ nat (- expo x)"
  define q where "q = (2 * \<bar>mant x\<bar> + k) div (2 * k)"
  have k: "0 < k" by (simp add: k_def)
  have m: "0 \<le> val x" using assms(2,4) by (metis of_int_0_le_iff order_trans)
  have "p2 (expo x) * p2 (- expo x) = 1" using p2_add [of "expo x" "- expo x"] by simp
  moreover have "p2 (- expo x) = of_int k" using False by (simp add: k_def p2_of_int)
  ultimately have v: "val x * of_int k = of_int (mant x)" by (simp add: val_def mult.assoc)
  have m0: "0 \<le> mant x" using v m k by (metis mult_nonneg_nonneg of_int_0_le_iff less_imp_le)
  have "of_int a * of_int k \<le> val x * of_int k" "val x * of_int k \<le> of_int b * of_int k"
    using assms(4,5) k by (intro mult_right_mono; simp)+
  then have lo: "a * k \<le> mant x" and hi: "mant x \<le> b * k"
    unfolding v by (simp_all add: of_int_le_iff flip: of_int_mult)
  have "(a * (2 * k) + k) div (2 * k) \<le> q" "q \<le> (b * (2 * k) + k) div (2 * k)"
    unfolding q_def using lo hi m0 k by (intro zdiv_mono1; simp)+
  then have q: "a \<le> q" "q \<le> b" using k by simp_all
  have r: "math_round x = round_f64 (signbit x) q 1 0"
    using False assms(1) by (simp add: math_round_def q_def k_def Let_def)
  show ?thesis
  proof (cases "q = 0")
    case True
    then show ?thesis using r q by (auto simp: round_f64_def between_def intro: exI [of _ 0])
  next
    case q0: False
    have "mant x \<noteq> 0"
    proof
      assume "mant x = 0"
      then have "q = 0" using k by (simp add: q_def)
      then show False using q0 by simp
    qed
    then have neg: "\<not> signbit x" using signbit_val [OF assms(1)] m by (simp add: mant_0_iff)
    have rep: "representable (of_int q)" "\<bar>of_int q :: real\<bar> < ovf"
      using bound_int [of q q] q assms(2,3) by (simp_all add: bound_def)
    have pos: "0 \<le> q" using q assms(2) by simp
    have "finite_f64 (math_round x) \<and> val (math_round x) = of_int q"
      using round_f64_val [of q 1 0 False] rep pos neg r by (simp add: rnd_representable)
    then show ?thesis using q by (auto simp: between_def)
  qed
qed
subsection \<open>Where NaN cannot come from\<close>

lemma round_f64_not_nan [simp]: "round_f64 neg n d e \<noteq> NaN"
  by (simp add: round_f64_def pack_def zero_of_def inf_of_def Let_def)

lemma zero_inf_not_nan [simp]: "zero_of neg \<noteq> NaN" "inf_of neg \<noteq> NaN"
  by (simp_all add: zero_of_def inf_of_def)

lemma divide_not_nan:
  "finite_f64 a \<Longrightarrow> b \<noteq> NaN \<Longrightarrow> \<not> (finite_f64 b \<and> val a = 0 \<and> val b = 0) \<Longrightarrow> a / b \<noteq> NaN"
  using not_nan_inf [of a] by (auto simp: divide_f64_def Let_def mant_0_iff)

lemma plus_not_nan: "a \<noteq> NaN \<Longrightarrow> finite_f64 b \<Longrightarrow> a + b \<noteq> NaN"
  using not_nan_inf [of b] by (auto simp: plus_f64_def Let_def)

lemma minus_not_nan: "a \<noteq> NaN \<Longrightarrow> finite_f64 b \<Longrightarrow> a - b \<noteq> NaN"
  by (simp add: minus_f64_def plus_not_nan)

lemma math_max_not_nan: "a \<noteq> NaN \<Longrightarrow> b \<noteq> NaN \<Longrightarrow> math_max a b \<noteq> NaN"
  by (simp add: math_max_def)

lemma less_not_nan: "a < b \<Longrightarrow> a \<noteq> NaN \<and> b \<noteq> NaN" for a b :: f64
  by (auto simp: less_f64_def)

lemma less_not_zeros: "a < b \<Longrightarrow> \<not> (finite_f64 a \<and> finite_f64 b \<and> val a = 0 \<and> val b = 0)"
  by (auto simp: fval)

subsection \<open>Sorting floats\<close>

lemma canonical_cexp:
  assumes "canonical (Fin m e)" "m \<noteq> 0" shows "cexp (val (Fin m e)) = e"
proof (rule cexp_eqI)
  have a: "\<bar>val (Fin m e)\<bar> = of_int \<bar>m\<bar> * p2 e" by (simp add: val_Fin abs_mult)
  have m: "\<bar>m\<bar> < 2 ^ 53" "-1074 \<le> e" "2 ^ 52 \<le> \<bar>m\<bar> \<or> e = -1074" using assms by auto
  have "of_int \<bar>m\<bar> * p2 e < of_int (2 ^ 53) * p2 e"
    using m(1) by (intro mult_strict_right_mono of_int_less_iff [THEN iffD2]) simp_all
  then show "\<bar>val (Fin m e)\<bar> < p2 (e + 53)" unfolding a using p2_add [of e 53] by simp
  show "-1074 \<le> e" by (rule m)
  have "of_int (2 ^ 52) * p2 e \<le> of_int \<bar>m\<bar> * p2 e" if "2 ^ 52 \<le> \<bar>m\<bar>"
    using that by (intro mult_right_mono of_int_le_iff [THEN iffD2]) simp_all
  then show "e = -1074 \<or> p2 (e + 52) \<le> \<bar>val (Fin m e)\<bar>"
    unfolding a using m(3) p2_add [of e 52] by auto
qed

definition plain :: "f64 \<Rightarrow> bool" where
  "plain x \<longleftrightarrow> finite_f64 x \<and> canonical x \<and> x \<noteq> NZero"

lemma plain_val_inj: assumes "plain x" "plain y" "val x = val y" shows "x = y"
proof -
  obtain m e m' e' where x: "x = Fin m e" and y: "y = Fin m' e'"
    using assms unfolding plain_def by (metis finite_cases)
  show ?thesis
  proof (cases "val x = 0")
    case True
    then show ?thesis using assms x y by (auto simp: plain_def val_Fin)
  next
    case False
    then have "m \<noteq> 0" "m' \<noteq> 0" using assms(3) x y by (auto simp: val_Fin)
    then have "e = e'"
      using canonical_cexp [of m e] canonical_cexp [of m' e'] assms x y by (simp add: plain_def)
    then show ?thesis using assms(3) x y by (simp add: val_Fin)
  qed
qed

lemma mset_insert_float: "mset (insert_float x xs) = add_mset x (mset xs)"
  by (induction xs) auto

lemma mset_sort_floats [simp]: "mset (sort_floats xs) = mset xs"
  by (induction xs) (simp_all add: sort_floats_def mset_insert_float)

lemma set_sort_floats [simp]: "set (sort_floats xs) = set xs"
  by (metis mset_sort_floats set_mset_mset)

lemma length_sort_floats [simp]: "length (sort_floats xs) = length xs"
  by (metis mset_sort_floats size_mset)

lemma set_insert_float: "set (insert_float x xs) = insert x (set xs)"
  by (induction xs) auto

lemma sorted_insert_float:
  assumes "finite_f64 x" "\<forall>y \<in> set xs. finite_f64 y" "sorted (map val xs)"
  shows "sorted (map val (insert_float x xs))"
  using assms(2,3)
proof (induction xs)
  case (Cons y ys)
  have b: "float_before y x \<longleftrightarrow> val y < val x"
    using assms(1) Cons.prems not_nan_inf [of y] by (simp add: float_before_def fval)
  show ?case using Cons by (auto simp: b set_insert_float)
qed simp

lemma sorted_sort_floats:
  "\<forall>x \<in> set xs. finite_f64 x \<Longrightarrow> sorted (map val (sort_floats xs))"
proof (induction xs)
  case (Cons x xs)
  have "sort_floats (x # xs) = insert_float x (sort_floats xs)" by (simp add: sort_floats_def)
  then show ?case using Cons by (simp add: sorted_insert_float)
qed (simp add: sort_floats_def)

lemma sort_floats_mset_eq:
  assumes "mset xs = mset ys" "\<forall>x \<in> set xs. plain x"
  shows "sort_floats xs = sort_floats ys"
proof -
  have ys: "\<forall>x \<in> set ys. plain x" using assms mset_eq_setD by blast
  have m: "mset (sort_floats xs) = mset (sort_floats ys)" using assms(1) by simp
  have s: "sorted (map val (sort_floats xs))" "sorted (map val (sort_floats ys))"
    using assms(2) ys by (simp_all add: sorted_sort_floats plain_def)
  have "inj_on val (set (sort_floats xs))"
    using assms(2) by (intro inj_onI plain_val_inj) auto
  from sort_key_inj_key_eq [OF m this s(2)] sort_key_id_if_sorted [OF s(1)] show ?thesis by simp
qed

end
