(* ===== verification/Prelude.thy ===== *)
theory Prelude
  imports
    Float_Facts
    "HOL-Library.Word"
    "HOL-Library.AList"
    "HOL-Library.Multiset"
    "HOL-Library.Char_ord"
    "HOL-Library.List_Lexorder"
begin

text \<open>
  What the components share: Go's strings, maps and \<open>range\<close> loops, errors as the left
  side of a sum, and the generic lemmas on them.

  A Go map is an association list with distinct keys; \<open>mget\<close> is the read that returns the
  zero value for a missing key. The order in which \<open>range\<close> visits a map is unspecified in
  Go and changes from loop to loop, so every function of the model that ranges over a map
  takes a \<open>range_order\<close>: \<open>it n ks\<close> is the order in which its \<open>n\<close>-th \<open>range\<close> statement visits
  the keys \<open>ks\<close>. What is claimed of the code is claimed for every fair order.
\<close>

named_theorems go_map and go_range

subsection \<open>Types\<close>

type_synonym u32 = "32 word"
type_synonym u64 = "64 word"
type_synonym 'v gomap = "(string \<times> 'v) list"
type_synonym range_order = "nat \<Rightarrow> string list \<Rightarrow> string list"

definition fair_order :: "range_order \<Rightarrow> bool" where
  "fair_order it \<longleftrightarrow> (\<forall>n ks. mset (it n ks) = mset ks)"

abbreviation insertion_order :: range_order where
  "insertion_order \<equiv> (\<lambda>n ks. ks)"

subsection \<open>Maps\<close>

definition mget :: "'v \<Rightarrow> 'v gomap \<Rightarrow> string \<Rightarrow> 'v" where
  "mget z m k = (case map_of m k of None \<Rightarrow> z | Some v \<Rightarrow> v)"

definition mkeys :: "'v gomap \<Rightarrow> string list" where
  "mkeys m = map fst m"

definition wf_map :: "'v gomap \<Rightarrow> bool" where
  "wf_map m \<longleftrightarrow> distinct (mkeys m)"

definition same_map :: "'v gomap \<Rightarrow> 'v gomap \<Rightarrow> bool" where
  "same_map m n \<longleftrightarrow> map_of m = map_of n"

lemma fair_set [go_range]: "fair_order it \<Longrightarrow> set (it n ks) = set ks"
  unfolding fair_order_def by (metis set_mset_mset)

lemma fair_distinct [go_range]: "fair_order it \<Longrightarrow> distinct (it n ks) = distinct ks"
  unfolding fair_order_def by (metis mset_eq_imp_distinct_iff)

lemma fair_length [go_range]: "fair_order it \<Longrightarrow> length (it n ks) = length ks"
  unfolding fair_order_def by (metis mset_eq_length)

lemma fair_mset: "fair_order it \<Longrightarrow> mset (it n ks) = mset ks"
  unfolding fair_order_def by blast

lemma fair_insertion_order [simp]: "fair_order insertion_order"
  by (simp add: fair_order_def)

lemma mkeys_simps [simp]: "mkeys [] = []" "mkeys (p # m) = fst p # mkeys m"
  by (simp_all add: mkeys_def)

lemma wf_map_Nil [simp]: "wf_map []"
  by (simp add: wf_map_def)

lemma set_mkeys [go_map]: "set (mkeys m) = dom (map_of m)"
  by (simp add: mkeys_def dom_map_of_conv_image_fst)

lemma mkeys_update [go_map]:
  "mkeys (AList.update k v m) = (if k \<in> set (mkeys m) then mkeys m else mkeys m @ [k])"
  by (induction m) auto

lemma wf_map_update [go_map]: "wf_map m \<Longrightarrow> wf_map (AList.update k v m)"
  by (simp add: wf_map_def mkeys_update)

lemma map_of_update [go_map]: "map_of (AList.update k v m) = (map_of m)(k \<mapsto> v)"
  by (simp add: update_conv')

lemma mget_update [go_map]: "mget z (AList.update k v m) k' = (if k' = k then v else mget z m k')"
  by (simp add: mget_def map_of_update)

text \<open>A loop that assigns one entry for every key it visits.\<close>

lemma map_of_fold_update:
  "map_of (fold (\<lambda>k m. AList.update k (f k) m) ks m) k =
     (if k \<in> set ks then Some (f k) else map_of m k)"
  by (induction ks arbitrary: m) (auto simp: map_of_update)

lemma wf_fold_update: "wf_map m \<Longrightarrow> wf_map (fold (\<lambda>k m. AList.update k (f k) m) ks m)"
  by (induction ks arbitrary: m) (auto simp: wf_map_update)

lemma mkeys_fold_update:
  "distinct ks \<Longrightarrow> mkeys (fold (\<lambda>k m. AList.update k (f k) m) ks m) =
     mkeys m @ filter (\<lambda>k. k \<notin> set (mkeys m)) ks"
  by (induction ks arbitrary: m) (auto simp: mkeys_update intro!: filter_cong)

text \<open>A loop that replaces the entry of every key it visits by a function of the old one.\<close>

lemma map_of_fold_adjust:
  "distinct ks \<Longrightarrow> map_of (fold (\<lambda>k m. AList.update k (f (mget z m k)) m) ks m) k =
     (if k \<in> set ks then Some (f (mget z m k)) else map_of m k)"
  by (induction ks arbitrary: m) (auto simp: map_of_update mget_update)

lemma mkeys_fold_adjust:
  "set ks \<subseteq> set (mkeys m) \<Longrightarrow> mkeys (fold (\<lambda>k m. AList.update k (f (mget z m k)) m) ks m) = mkeys m"
  by (induction ks arbitrary: m) (auto simp: mkeys_update)

text \<open>The maps such loops build, as lists: the order of the visits does not show in the second.\<close>

lemma update_fresh: "k \<notin> set (mkeys m) \<Longrightarrow> AList.update k v m = m @ [(k, v)]"
  by (induction m) auto

lemma fold_update_fresh:
  assumes "distinct (map k xs)" "set (map k xs) \<inter> set (mkeys m) = {}"
  shows "fold (\<lambda>x. AList.update (k x) (f x)) xs m = m @ map (\<lambda>x. (k x, f x)) xs"
  using assms
proof (induction xs arbitrary: m)
  case (Cons x xs)
  have "AList.update (k x) (f x) m = m @ [(k x, f x)]" using Cons.prems by (intro update_fresh) auto
  then show ?case using Cons.prems Cons.IH [of "m @ [(k x, f x)]"] by (auto simp: mkeys_def)
qed simp

lemma wf_map_list: "wf_map m \<Longrightarrow> map (\<lambda>k. (k, the (map_of m k))) (mkeys m) = m"
proof (induction m)
  case (Cons p m)
  have k: "fst p \<notin> set (mkeys m)" and m: "wf_map m" using Cons.prems by (simp_all add: wf_map_def)
  have "map (\<lambda>k. (k, the (map_of (p # m) k))) (mkeys m) = map (\<lambda>k. (k, the (map_of m k))) (mkeys m)"
    using k by (intro map_cong) auto
  then show ?case using Cons.IH [OF m] by (cases p) simp
qed simp

lemma wf_map_eqI:
  assumes "wf_map m" "mkeys n = mkeys m" "\<And>k. k \<in> set (mkeys m) \<Longrightarrow> map_of n k = map_of m k" shows "n = m"
proof -
  have "wf_map n" using assms(1,2) by (simp add: wf_map_def)
  then have "n = map (\<lambda>k. (k, the (map_of n k))) (mkeys m)" using wf_map_list [of n] assms(2) by simp
  also have "\<dots> = map (\<lambda>k. (k, the (map_of m k))) (mkeys m)" using assms(3) by (intro map_cong) simp_all
  also have "\<dots> = m" using assms(1) by (rule wf_map_list)
  finally show ?thesis .
qed

lemma fold_adjust_list:
  assumes "wf_map m" "mset ks = mset (mkeys m)"
  shows "fold (\<lambda>k m. AList.update k (f (mget z m k)) m) ks m = map (\<lambda>p. (fst p, f (snd p))) m"
    (is "?l = ?r")
proof (rule wf_map_eqI)
  have ks: "set ks = set (mkeys m)" "distinct ks"
    using assms mset_eq_setD [OF assms(2)] mset_eq_imp_distinct_iff [OF assms(2)] by (simp_all add: wf_map_def)
  have k: "mkeys ?r = mkeys m" by (simp add: mkeys_def)
  then show "wf_map ?r" using assms(1) by (simp add: wf_map_def)
  show "mkeys ?l = mkeys ?r" unfolding k using ks(1) by (intro mkeys_fold_adjust) simp
  fix k assume "k \<in> set (mkeys ?r)"
  then have "k \<in> set ks" using k ks(1) by simp
  then have l: "map_of ?l k = Some (f (mget z m k))" using ks(2) by (simp add: map_of_fold_adjust)
  have "k \<in> dom (map_of m)" using \<open>k \<in> set ks\<close> ks(1) by (simp add: set_mkeys)
  then obtain v where v: "map_of m k = Some v" by blast
  have "map_of ?r k = map_option f (map_of m k)" by (induction m) auto
  then show "map_of ?l k = map_of ?r k" using l v by (simp add: mget_def)
qed

lemma mget_Some [go_map]: "map_of m k = Some v \<Longrightarrow> mget z m k = v"
  by (simp add: mget_def)

lemma same_map_refl [simp]: "same_map m m" by (simp add: same_map_def)

lemma same_map_mget: "same_map m n \<Longrightarrow> mget z m k = mget z n k"
  by (simp add: same_map_def mget_def)

subsection \<open>Deduplication\<close>

text \<open>Appending what is not there yet, in order.\<close>

fun append_new :: "'a list \<Rightarrow> 'a list \<Rightarrow> 'a list" where
  "append_new xs [] = xs"
| "append_new xs (y # ys) = (if y \<in> set xs then append_new xs ys else append_new (xs @ [y]) ys)"

lemma set_append_new [simp]: "set (append_new xs ys) = set xs \<union> set ys"
  by (induction xs ys rule: append_new.induct) auto

lemma distinct_append_new: "distinct xs \<Longrightarrow> distinct (append_new xs ys)"
  by (induction xs ys rule: append_new.induct) auto

lemma append_new_prefix: "\<exists>zs. append_new xs ys = xs @ zs"
  by (induction xs ys rule: append_new.induct) auto

subsection \<open>Sorting with distinct keys\<close>

lemma sorted_unique:
  assumes "mset xs = mset ys" "sorted (map f xs)" "sorted (map f ys)" "inj_on f (set xs)"
  shows "xs = ys"
  using sort_key_inj_key_eq [OF assms(1,4,3)] sort_key_id_if_sorted [OF assms(2)] by simp

lemma sort_key_mset_eq:
  "mset xs = mset ys \<Longrightarrow> inj_on f (set xs) \<Longrightarrow> sort_key f xs = sort_key f ys"
  by (rule sort_key_inj_key_eq) simp_all

lemma inj_on_map_distinct: "distinct (map f xs) \<Longrightarrow> inj_on f (set xs)"
  by (simp add: distinct_map)

end
