(* ===== verification/GoStd.thy ===== *)
theory GoStd
  imports Prelude
begin

text \<open>
  The parts of Go's standard library that the services use beside floats and maps:
  decimal formatting (\<open>strconv\<close>, \<open>fmt\<close>), hexadecimal text, instants and durations of
  package \<open>time\<close> and the RFC 3339 layout. An instant is the count of nanoseconds since
  January 1, year 1, 00:00 UTC, so the zero value of \<open>time.Time\<close> is 0. A duration is a
  64-bit word read as two's complement.
\<close>

subsection \<open>Decimal and hexadecimal text\<close>

definition digit_char :: "nat \<Rightarrow> char" where
  "digit_char d = ''0123456789abcdef'' ! (d mod 16)"

function int_digits :: "int \<Rightarrow> string" where
  "int_digits n = (if n < 10 then [digit_char (nat n)] else int_digits (n div 10) @ [digit_char (nat (n mod 10))])"
  by pat_completeness auto
termination by (relation "measure nat") auto

declare int_digits.simps [simp del]

definition format_int :: "int \<Rightarrow> string" where
  "format_int k = (if k < 0 then ''-'' @ int_digits (- k) else int_digits k)"

text \<open>\<open>%0wd\<close> for a non-negative number.\<close>

definition pad_left :: "nat \<Rightarrow> string \<Rightarrow> string" where
  "pad_left w s = replicate (w - length s) CHR ''0'' @ s"

definition format_padded :: "nat \<Rightarrow> int \<Rightarrow> string" where
  "format_padded w k =
     (if k < 0 then ''-'' @ pad_left (w - 1) (int_digits (- k)) else pad_left w (int_digits k))"

definition hex_encode :: "8 word list \<Rightarrow> string" where
  "hex_encode bs = concat (map (\<lambda>b. [digit_char (unat b div 16), digit_char (unat b mod 16)]) bs)"

definition is_hex :: "char \<Rightarrow> bool" where
  "is_hex c \<longleftrightarrow> c \<in> set ''0123456789abcdef''"

definition is_digit :: "char \<Rightarrow> bool" where
  "is_digit c \<longleftrightarrow> c \<in> set ''0123456789''"

lemma length_hex_encode [simp]: "length (hex_encode bs) = 2 * length bs"
  by (induction bs) (simp_all add: hex_encode_def)

lemma digit_char_hex: "is_hex (digit_char d)"
proof -
  have "d mod 16 < length ''0123456789abcdef''" by simp
  then show ?thesis unfolding is_hex_def digit_char_def by (rule nth_mem)
qed

lemma digit_char_digit: "d < 10 \<Longrightarrow> is_digit (digit_char d)"
proof -
  assume "d < 10"
  then have "d = 0 \<or> d = 1 \<or> d = 2 \<or> d = 3 \<or> d = 4 \<or> d = 5 \<or> d = 6 \<or> d = 7 \<or> d = 8 \<or> d = 9"
    by arith
  then show ?thesis by (elim disjE) (simp_all add: digit_char_def is_digit_def)
qed

lemma hex_encode_hex: "\<forall>c \<in> set (hex_encode bs). is_hex c"
  by (induction bs) (auto simp: hex_encode_def digit_char_hex)

lemma int_digits_digits: "\<forall>c \<in> set (int_digits n). is_digit c"
proof (induction n rule: int_digits.induct)
  case (1 n)
  show ?case
  proof (cases "n < 10")
    case True
    then have "nat n < 10" by simp
    then show ?thesis using True by (simp add: int_digits.simps [of n] digit_char_digit)
  next
    case False
    have "nat (n mod 10) < 10" by simp
    then have "is_digit (digit_char (nat (n mod 10)))" by (rule digit_char_digit)
    then show ?thesis using 1 False by (simp add: int_digits.simps [of n])
  qed
qed

lemma int_digits_nonempty: "int_digits n \<noteq> []"
  by (subst int_digits.simps) simp

subsection \<open>Durations and instants\<close>

type_synonym duration = "64 word"
type_synonym instant = int

definition nanosecond :: duration where "nanosecond = 1"
definition second :: duration where "second = 1000000000"
definition minute :: duration where "minute = 60000000000"

definition max_duration :: int where "max_duration = 9223372036854775807"
definition min_duration :: int where "min_duration = - 9223372036854775808"

text \<open>\<open>Time.Add\<close>, \<open>Time.Sub\<close> (which saturates), \<open>Time.IsZero\<close>.\<close>

definition time_add :: "instant \<Rightarrow> duration \<Rightarrow> instant" where
  "time_add t d = t + sint d"

definition time_sub :: "instant \<Rightarrow> instant \<Rightarrow> duration" where
  "time_sub t u =
     (let d = t - u
      in if max_duration < d then of_int max_duration
         else if d < min_duration then of_int min_duration
         else of_int d)"

definition is_zero_time :: "instant \<Rightarrow> bool" where
  "is_zero_time t \<longleftrightarrow> t = 0"

lemma sint_of_int_range:
  "min_duration \<le> k \<Longrightarrow> k \<le> max_duration \<Longrightarrow> sint (of_int k :: duration) = k"
  unfolding min_duration_def max_duration_def
  by (simp add: sint_sbintrunc' signed_take_bit_int_eq_self_iff signed_take_bit_int_eq_self)

lemma sint_time_sub: "sint (time_sub t u) = max min_duration (min max_duration (t - u))"
proof -
  have "min_duration \<le> max_duration" by (simp add: min_duration_def max_duration_def)
  then show ?thesis
    by (auto simp: time_sub_def Let_def sint_of_int_range max_def min_def simp del: of_int_diff)
qed

lemma sint_duration_range: "min_duration \<le> sint (d :: duration)" "sint (d :: duration) \<le> max_duration"
  using sint_range_size [of d] by (simp_all add: min_duration_def max_duration_def word_size)

lemma time_sub_add [simp]: "time_sub (time_add t d) t = d"
  using sint_duration_range [of d]
  by (simp add: time_sub_def time_add_def Let_def not_less)

text \<open>Comparing a difference with a duration: saturation does not change the outcome.\<close>

lemma time_sub_less: "sint (time_sub t u) < sint d \<longleftrightarrow> t - u < sint d" if "min_duration < sint d" for d :: duration
  using sint_duration_range [of d] that by (auto simp: sint_time_sub)

lemma time_sub_greater: "sint d < sint (time_sub t u) \<longleftrightarrow> sint d < t - u" if "sint d < max_duration" for d :: duration
  using sint_duration_range [of d] that by (auto simp: sint_time_sub)

subsection \<open>The RFC 3339 layout in UTC\<close>

text \<open>Days since January 1, year 1, to a proleptic Gregorian date (year, month, day).\<close>

definition civil_from_days :: "int \<Rightarrow> int \<times> int \<times> int" where
  "civil_from_days days =
     (let z = days + 306;
          era = z div 146097;
          doe = z mod 146097;
          yoe = (doe - doe div 1460 + doe div 36524 - doe div 146096) div 365;
          doy = doe - (365 * yoe + yoe div 4 - yoe div 100);
          mp = (5 * doy + 2) div 153;
          d = doy - (153 * mp + 2) div 5 + 1;
          m = (if mp < 10 then mp + 3 else mp - 9);
          y = yoe + era * 400 + (if m \<le> 2 then 1 else 0)
      in (y, m, d))"

definition strip_zeros :: "string \<Rightarrow> string" where
  "strip_zeros s = rev (dropWhile (\<lambda>c. c = CHR ''0'') (rev s))"

text \<open>The fraction of \<open>RFC3339Nano\<close>: nine digits without trailing zeros, nothing when zero.\<close>

definition format_fraction :: "int \<Rightarrow> string" where
  "format_fraction ns = (if ns = 0 then [] else ''.'' @ strip_zeros (format_padded 9 ns))"

definition format_rfc3339nano :: "instant \<Rightarrow> string" where
  "format_rfc3339nano t =
     (let secs = t div 1000000000; ns = t mod 1000000000;
          days = secs div 86400; sod = secs mod 86400;
          (y, m, d) = civil_from_days days
      in format_padded 4 y @ ''-'' @ format_padded 2 m @ ''-'' @ format_padded 2 d @ ''T'' @
         format_padded 2 (sod div 3600) @ '':'' @ format_padded 2 (sod div 60 mod 60) @ '':'' @
         format_padded 2 (sod mod 60) @ format_fraction ns @ ''Z'')"

end
