(* ===== verification/Domain.thy ===== *)
theory Domain
  imports GoStd
begin

text \<open>
  The data of \<open>internal/domain/types.go\<close>: one record per struct, one field per struct field,
  with a prefix that names the struct. \<open>float64\<close> fields are \<open>f64\<close>, \<open>uint64\<close> and \<open>uint32\<close>
  fields are words, instants are nanosecond counts, Go maps are \<open>gomap\<close>s.
\<close>

record scope =
  sc_Location :: string
  sc_NetworkID :: string

definition scope_Key :: "scope \<Rightarrow> string" where
  "scope_Key s = sc_Location s @ ''|'' @ sc_NetworkID s"

record node_metric =
  nm_WindowStart :: instant
  nm_WindowEnd :: instant
  nm_Scope :: scope
  nm_NodeID :: string
  nm_Requests :: u64
  nm_ErrorRate :: f64
  nm_CacheHitRate :: f64
  nm_OriginMS :: f64
  nm_P50TTFBMS :: f64
  nm_P95TTFBMS :: f64
  nm_P99TTFBMS :: f64
  nm_Saturation :: f64
  nm_Healthy :: bool

record signal =
  sg_NodeID :: string
  sg_Anomalous :: bool
  sg_Severity :: f64
  sg_ReasonCodes :: "string list"
  sg_BaselineMS :: f64
  sg_RobustZ :: f64

text \<open>The zero value of a \<open>Signal\<close>, which a read of a missing map entry returns.\<close>

definition zero_signal :: signal where
  "zero_signal = \<lparr>sg_NodeID = [], sg_Anomalous = False, sg_Severity = 0, sg_ReasonCodes = [],
     sg_BaselineMS = 0, sg_RobustZ = 0\<rparr>"

record expected_delta =
  ed_P95TTFBDeltaMS :: f64
  ed_ErrorRateDelta :: f64
  ed_CostUnitsDelta :: f64

record recommendation =
  rc_SchemaVersion :: int
  rc_RecommendationID :: string
  rc_CreatedAt :: instant
  rc_ValidUntil :: instant
  rc_Mode :: string
  rc_Scope :: scope
  rc_Action :: string
  rc_Current :: "f64 gomap"
  rc_Proposed :: "f64 gomap"
  rc_EvidenceWindow :: string
  rc_ReasonCodes :: "string list"
  rc_Expected :: expected_delta
  rc_Confidence :: f64
  rc_ModelVersion :: string
  rc_Revision :: u32
  rc_InputWindowStart :: instant
  rc_InputWindowEnd :: instant
  rc_QueryVersion :: string
  rc_ConfigHash :: string
  rc_Evidence :: "node_metric gomap"

record evaluation_request =
  er_Scope :: scope
  er_CurrentWeights :: "f64 gomap"

record evaluation_result =
  rs_Generated :: bool
  rs_ReasonCodes :: "string list"
  rs_Recommendation :: "recommendation option"

record acknowledgement =
  ak_RecommendationID :: string
  ak_Actor :: string
  ak_Status :: string
  ak_ObservedAt :: instant

record outcome =
  oc_RecommendationID :: string
  oc_ObservedAt :: instant
  oc_ObservedDelta :: expected_delta
  oc_Notes :: string

text \<open>
  \<open>latestByNode\<close> occurs in \<open>scoring\<close> and, with a final sort, in \<open>app\<close>: the first loop, which
  keeps for every node the metric with the latest window end and, among equals, the first one.
\<close>

definition keep_latest :: "node_metric \<Rightarrow> node_metric gomap \<Rightarrow> node_metric gomap" where
  "keep_latest metric latest =
     (case map_of latest (nm_NodeID metric) of
        None \<Rightarrow> AList.update (nm_NodeID metric) metric latest
      | Some current \<Rightarrow>
          if nm_WindowEnd current < nm_WindowEnd metric
          then AList.update (nm_NodeID metric) metric latest else latest)"

definition latest_map :: "node_metric list \<Rightarrow> node_metric gomap" where
  "latest_map metrics = fold keep_latest metrics []"

text \<open>
  What JSON decoding guarantees of a metric: its numbers are finite binary64 numbers (JSON
  has no NaN and no infinity).
\<close>

definition number :: "f64 \<Rightarrow> bool" where
  "number x \<longleftrightarrow> finite_f64 x \<and> canonical x"

definition finite_metric :: "node_metric \<Rightarrow> bool" where
  "finite_metric m \<longleftrightarrow> number (nm_ErrorRate m) \<and> number (nm_CacheHitRate m) \<and> number (nm_OriginMS m) \<and>
     number (nm_P95TTFBMS m) \<and> number (nm_Saturation m)"

lemma finite_metricD:
  assumes "finite_metric m"
  shows "finite_f64 (nm_ErrorRate m)" "finite_f64 (nm_CacheHitRate m)" "finite_f64 (nm_OriginMS m)"
    "finite_f64 (nm_P95TTFBMS m)" "finite_f64 (nm_Saturation m)"
    "canonical (nm_ErrorRate m)" "canonical (nm_CacheHitRate m)" "canonical (nm_OriginMS m)"
    "canonical (nm_P95TTFBMS m)" "canonical (nm_Saturation m)"
  using assms by (simp_all add: finite_metric_def number_def)

subsection \<open>The latest metric of every node\<close>

text \<open>\<open>is_latest ms m\<close>: \<open>m\<close> is in \<open>ms\<close> and no metric of its node ends later.\<close>

definition is_latest :: "node_metric list \<Rightarrow> node_metric \<Rightarrow> bool" where
  "is_latest ms m \<longleftrightarrow> m \<in> set ms \<and>
     (\<forall>m' \<in> set ms. nm_NodeID m' = nm_NodeID m \<longrightarrow> nm_WindowEnd m' \<le> nm_WindowEnd m)"

definition latest_inv :: "node_metric list \<Rightarrow> node_metric gomap \<Rightarrow> bool" where
  "latest_inv ms lm \<longleftrightarrow> wf_map lm \<and> set (mkeys lm) = nm_NodeID ` set ms \<and>
     (\<forall>k m. map_of lm k = Some m \<longrightarrow> nm_NodeID m = k \<and> is_latest ms m)"

lemma latest_inv_step:
  assumes "latest_inv ms lm" shows "latest_inv (ms @ [m]) (keep_latest m lm)"
proof (cases "map_of lm (nm_NodeID m)")
  case None
  then have "nm_NodeID m \<notin> nm_NodeID ` set ms"
    using assms unfolding latest_inv_def by (metis domIff set_mkeys)
  then have "\<forall>m' \<in> set ms. nm_NodeID m' \<noteq> nm_NodeID m" by (metis image_eqI)
  then show ?thesis using assms None
    by (auto simp: latest_inv_def keep_latest_def wf_map_update mkeys_update map_of_update is_latest_def)
next
  case (Some c)
  then have c: "nm_NodeID c = nm_NodeID m" "is_latest ms c" "nm_NodeID m \<in> set (mkeys lm)"
    using assms by (auto simp: latest_inv_def set_mkeys)
  have keep: "is_latest (ms @ [m]) m'" if "is_latest ms m'" "nm_NodeID m' = nm_NodeID m \<Longrightarrow> nm_WindowEnd m \<le> nm_WindowEnd m'" for m'
    using that by (auto simp: is_latest_def)
  show ?thesis
  proof (cases "nm_WindowEnd c < nm_WindowEnd m")
    case True
    have "is_latest (ms @ [m]) m" using True c by (fastforce simp: is_latest_def)
    then show ?thesis using assms c True Some keep
      by (auto simp: latest_inv_def keep_latest_def wf_map_update mkeys_update map_of_update)
  next
    case False
    have "is_latest (ms @ [m]) m'" if "map_of lm k = Some m'" for k m'
    proof (rule keep)
      show "is_latest ms m'" using assms that by (auto simp: latest_inv_def)
      show "nm_WindowEnd m \<le> nm_WindowEnd m'" if "nm_NodeID m' = nm_NodeID m"
        using that \<open>map_of lm k = Some m'\<close> assms Some False by (auto simp: latest_inv_def)
    qed
    then show ?thesis using assms c Some False
      by (auto simp: latest_inv_def keep_latest_def)
  qed
qed

lemma latest_inv_map: "latest_inv ms (latest_map ms)"
proof (induction ms rule: rev_induct)
  case Nil
  show ?case by (simp add: latest_inv_def latest_map_def)
next
  case (snoc m ms)
  then show ?case using latest_inv_step by (simp add: latest_map_def)
qed

lemma latest_map_wf: "wf_map (latest_map ms)"
  and latest_map_keys: "set (mkeys (latest_map ms)) = nm_NodeID ` set ms"
  and latest_map_Some: "map_of (latest_map ms) k = Some m \<Longrightarrow> nm_NodeID m = k \<and> is_latest ms m"
  using latest_inv_map [of ms] by (auto simp: latest_inv_def)

end
