(* ===== verification/Samples.thy ===== *)
theory Samples
  imports Domain
begin

text \<open>
  Concrete data for the witnesses, taken from the repository's own Go tests: the scope, the
  metrics of \<open>detector_test.go\<close> and \<open>scorer_test.go\<close>. Nothing here models code.
\<close>

definition sample_scope :: scope where
  "sample_scope = \<lparr>sc_Location = ''au-sydney'', sc_NetworkID = ''as-synthetic-1221''\<rparr>"

definition sample_metric :: "instant \<Rightarrow> string \<Rightarrow> f64 \<Rightarrow> f64 \<Rightarrow> f64 \<Rightarrow> f64 \<Rightarrow> node_metric" where
  "sample_metric end_time node p95 err hit sat =
     \<lparr>nm_WindowStart = end_time - 60000000000, nm_WindowEnd = end_time, nm_Scope = sample_scope,
      nm_NodeID = node, nm_Requests = 500, nm_ErrorRate = err, nm_CacheHitRate = hit,
      nm_OriginMS = lit 40000 0, nm_P50TTFBMS = lit 20 0, nm_P95TTFBMS = p95,
      nm_P99TTFBMS = lit 400 0, nm_Saturation = sat, nm_Healthy = True\<rparr>"

text \<open>August 29, 2026, 09:00 UTC.\<close>

definition sample_now :: instant where "sample_now = 63923590800000000000"

definition sample_history :: "node_metric list" where
  "sample_history =
     [sample_metric (sample_now - 30000000000) ''edge-a'' (lit 220 0) (lit 12 2) (lit 30 2) (lit 70 2),
      sample_metric (sample_now - 30000000000) ''edge-b'' (lit 45 0) (lit 2 3) (lit 82 2) (lit 40 2),
      sample_metric (sample_now - 30000000000) ''edge-c'' (lit 50 0) (lit 3 3) (lit 78 2) (lit 45 2)]"

end
