(* ===== verification/Scoring.thy ===== *)
theory Scoring
  imports Samples
begin

text \<open>
  \<open>internal/scoring/scorer.go\<close>: the guardrails and the multi-objective score that turns the
  latest metrics into bounded weights. This theory holds the definitions, \<open>Scoring_Facts\<close>
  and \<open>Scoring_Weights\<close> what is proved of them. The \<open>range\<close> statements over maps are numbered
  in the order they run: 0 in \<open>latestByNode\<close>, 1 in \<open>normalizedCurrent\<close>, 2 to 4 in \<open>Propose\<close>.
\<close>

record scorer_config =
  pc_MinimumSamples :: u64
  pc_StaleAfter :: duration
  pc_FutureTolerance :: duration
  pc_SaturationLimit :: f64
  pc_MaximumWeightStep :: f64
  pc_BenefitMargin :: f64

datatype scoring_error =
    ErrInsufficientCandidates
  | ErrStaleMetrics
  | ErrFutureMetrics
  | ErrNoMaterialBenefit

record proposal =
  pr_Current :: "f64 gomap"
  pr_Proposed :: "f64 gomap"
  pr_Expected :: expected_delta
  pr_ReasonCodes :: "string list"
  pr_Evidence :: "node_metric gomap"
  pr_WindowStart :: instant
  pr_WindowEnd :: instant

subsection \<open>Helpers\<close>

definition f64_of_u64 :: "u64 \<Rightarrow> f64" where
  "f64_of_u64 w = f64_of_int (uint w)"

definition scoring_latestByNode :: "range_order \<Rightarrow> node_metric list \<Rightarrow> node_metric list" where
  "scoring_latestByNode it metrics =
     (let latest = latest_map metrics in map (\<lambda>n. the (map_of latest n)) (it 0 (mkeys latest)))"

definition current_step :: "f64 gomap \<Rightarrow> node_metric \<Rightarrow> f64 gomap \<times> f64 \<Rightarrow> f64 gomap \<times> f64" where
  "current_step current metric st =
     (let w = mget 0 current (nm_NodeID metric)
      in if w > 0 then (AList.update (nm_NodeID metric) w (fst st), snd st + w) else st)"

definition equal_step :: "f64 \<Rightarrow> node_metric \<Rightarrow> f64 gomap \<Rightarrow> f64 gomap" where
  "equal_step weight metric result = AList.update (nm_NodeID metric) weight result"

text \<open>\<open>m[nodeID] /= sum\<close>, in \<open>normalizedCurrent\<close> and for the target weights of \<open>Propose\<close>.\<close>

definition share_step :: "f64 \<Rightarrow> string \<Rightarrow> f64 gomap \<Rightarrow> f64 gomap" where
  "share_step denom nodeID result = AList.update nodeID (mget 0 result nodeID / denom) result"

definition normalizedCurrent :: "range_order \<Rightarrow> f64 gomap \<Rightarrow> node_metric list \<Rightarrow> f64 gomap" where
  "normalizedCurrent it current metrics =
     (let (result, sum) = fold (current_step current) metrics ([], 0)
      in if feq sum 0
         then let weight = 1 / f64_of_int (int (length metrics))
              in fold (equal_step weight) metrics result
         else fold (share_step sum) (it 1 (mkeys result)) result)"

definition scale_value :: "f64 \<Rightarrow> f64 \<Rightarrow> f64 \<Rightarrow> f64" where
  "scale_value minimum maximum r = (r - minimum) / (maximum - minimum)"

definition min_step :: "f64 \<Rightarrow> f64 \<Rightarrow> f64" where
  "min_step r minimum = math_min minimum r"

definition max_step :: "f64 \<Rightarrow> f64 \<Rightarrow> f64" where
  "max_step r maximum = math_max maximum r"

definition normalized :: "node_metric list \<Rightarrow> (node_metric \<Rightarrow> f64) \<Rightarrow> f64 list" where
  "normalized metrics value =
     (let result = map value metrics;
          minimum = fold min_step result PInf;
          maximum = fold max_step result NInf
      in if \<bar>maximum - minimum\<bar> < lit 1 12 then map (\<lambda>_. 0) result
         else map (scale_value minimum maximum) result)"

definition originPerRequest :: "node_metric \<Rightarrow> f64" where
  "originPerRequest metric = nm_OriginMS metric / math_max (f64_of_u64 (nm_Requests metric)) 1"

definition penalty_step :: "f64 gomap \<Rightarrow> node_metric \<Rightarrow> f64 \<Rightarrow> f64" where
  "penalty_step weights metric value =
     value + mget 0 weights (nm_NodeID metric) *
       (lit 35 2 * nm_P95TTFBMS metric / lit 1000 0 + lit 25 2 * nm_ErrorRate metric +
        lit 15 2 * (1 - nm_CacheHitRate metric) + lit 15 2 * originPerRequest metric / lit 1000 0 +
        lit 10 2 * nm_Saturation metric)"

definition weightedPenalty :: "node_metric list \<Rightarrow> f64 gomap \<Rightarrow> f64" where
  "weightedPenalty metrics weights = fold (penalty_step weights) metrics 0"

text \<open>One of the weighted sums that the loop of \<open>expectedDelta\<close> accumulates side by side.\<close>

definition weighted_step :: "f64 gomap \<Rightarrow> (node_metric \<Rightarrow> f64) \<Rightarrow> node_metric \<Rightarrow> f64 \<Rightarrow> f64" where
  "weighted_step weights value metric acc = acc + mget 0 weights (nm_NodeID metric) * value metric"

definition weighted_sum :: "node_metric list \<Rightarrow> f64 gomap \<Rightarrow> (node_metric \<Rightarrow> f64) \<Rightarrow> f64" where
  "weighted_sum metrics weights value = fold (weighted_step weights value) metrics 0"

definition expectedDelta :: "node_metric list \<Rightarrow> f64 gomap \<Rightarrow> f64 gomap \<Rightarrow> expected_delta" where
  "expectedDelta metrics current proposed =
     \<lparr>ed_P95TTFBDeltaMS = weighted_sum metrics proposed nm_P95TTFBMS - weighted_sum metrics current nm_P95TTFBMS,
      ed_ErrorRateDelta = weighted_sum metrics proposed nm_ErrorRate - weighted_sum metrics current nm_ErrorRate,
      ed_CostUnitsDelta = weighted_sum metrics proposed originPerRequest - weighted_sum metrics current originPerRequest\<rparr>"

definition scoring_appendUnique :: "string list \<Rightarrow> string list \<Rightarrow> string list" where
  "scoring_appendUnique values additions = append_new values additions"

subsection \<open>Propose\<close>

text \<open>The guardrails: eligible metrics and the counts of stale and future ones.\<close>

definition scan_metric ::
    "scorer_config \<Rightarrow> instant \<Rightarrow> node_metric \<Rightarrow> node_metric list \<times> nat \<times> nat \<Rightarrow> node_metric list \<times> nat \<times> nat" where
  "scan_metric c now metric st =
     (case st of (eligible, staleCount, futureCount) \<Rightarrow>
        if nm_WindowEnd metric > time_add now (pc_FutureTolerance c)
        then (eligible, staleCount, futureCount + 1)
        else if sint (time_sub now (nm_WindowEnd metric)) > sint (pc_StaleAfter c)
        then (eligible, staleCount + 1, futureCount)
        else if \<not> nm_Healthy metric \<or> nm_Requests metric < pc_MinimumSamples c \<or>
                pc_SaturationLimit c \<le> nm_Saturation metric
        then (eligible, staleCount, futureCount)
        else (eligible @ [metric], staleCount, futureCount))"

definition anomalous_signal :: "signal gomap \<Rightarrow> string \<Rightarrow> signal option" where
  "anomalous_signal signals nodeID =
     (case map_of signals nodeID of
        Some s \<Rightarrow> if sg_Anomalous s then Some s else None
      | None \<Rightarrow> None)"

definition node_penalty ::
    "node_metric list \<Rightarrow> signal gomap \<Rightarrow> f64 list \<Rightarrow> f64 list \<Rightarrow> f64 list \<Rightarrow> f64 list \<Rightarrow> f64 list \<Rightarrow> nat \<Rightarrow> f64" where
  "node_penalty eligible signals latency errorsFactor qoe cost saturation i =
     (let penalty = lit 35 2 * latency ! i + lit 25 2 * errorsFactor ! i + lit 15 2 * qoe ! i +
            lit 15 2 * cost ! i + lit 10 2 * saturation ! i
      in case anomalous_signal signals (nm_NodeID (eligible ! i)) of
           Some signal \<Rightarrow> penalty + lit 25 2 * sg_Severity signal
         | None \<Rightarrow> penalty)"

definition cost_value :: "node_metric \<Rightarrow> f64" where
  "cost_value metric = (if nm_Requests metric = 0 then 0 else nm_OriginMS metric / f64_of_u64 (nm_Requests metric))"

text \<open>The inverse-penalty weights and their sum, then each divided by the sum.\<close>

definition target_step ::
    "node_metric list \<Rightarrow> signal gomap \<Rightarrow> f64 list \<Rightarrow> f64 list \<Rightarrow> f64 list \<Rightarrow> f64 list \<Rightarrow> f64 list \<Rightarrow> nat \<Rightarrow>
       f64 gomap \<times> f64 \<Rightarrow> f64 gomap \<times> f64" where
  "target_step eligible signals latency errorsFactor qoe cost saturation i st =
     (let t = 1 / (lit 5 2 + node_penalty eligible signals latency errorsFactor qoe cost saturation i)
      in (AList.update (nm_NodeID (eligible ! i)) t (fst st), snd st + t))"

definition cache_miss_rate :: "node_metric \<Rightarrow> f64" where
  "cache_miss_rate metric = 1 - nm_CacheHitRate metric"

definition raw_targets :: "node_metric list \<Rightarrow> signal gomap \<Rightarrow> f64 gomap \<times> f64" where
  "raw_targets eligible signals =
     (let latency = normalized eligible nm_P95TTFBMS;
          errorsFactor = normalized eligible nm_ErrorRate;
          qoe = normalized eligible cache_miss_rate;
          cost = normalized eligible cost_value;
          saturation = normalized eligible nm_Saturation
      in fold (target_step eligible signals latency errorsFactor qoe cost saturation) [0..<length eligible] ([], 0))"

definition target_weights :: "range_order \<Rightarrow> node_metric list \<Rightarrow> signal gomap \<Rightarrow> f64 gomap" where
  "target_weights it eligible signals =
     (let (target, targetSum) = raw_targets eligible signals
      in fold (share_step targetSum) (it 2 (mkeys target)) target)"

definition lambda_step :: "scorer_config \<Rightarrow> f64 gomap \<Rightarrow> f64 gomap \<Rightarrow> string \<Rightarrow> f64 \<Rightarrow> f64" where
  "lambda_step c target current nodeID lambda =
     (let delta = \<bar>mget 0 target nodeID - mget 0 current nodeID\<bar>
      in if delta > pc_MaximumWeightStep c
         then math_min lambda (pc_MaximumWeightStep c / delta) else lambda)"

definition step_lambda :: "range_order \<Rightarrow> scorer_config \<Rightarrow> f64 gomap \<Rightarrow> f64 gomap \<Rightarrow> f64" where
  "step_lambda it c target current = fold (lambda_step c target current) (it 3 (mkeys target)) 1"

definition move_step :: "f64 \<Rightarrow> f64 gomap \<Rightarrow> f64 gomap \<Rightarrow> string \<Rightarrow> f64 gomap \<Rightarrow> f64 gomap" where
  "move_step lambda target current nodeID proposed =
     AList.update nodeID (mget 0 current nodeID + lambda * (mget 0 target nodeID - mget 0 current nodeID)) proposed"

definition proposed_weights :: "range_order \<Rightarrow> f64 \<Rightarrow> f64 gomap \<Rightarrow> f64 gomap \<Rightarrow> f64 gomap" where
  "proposed_weights it lambda target current =
     fold (move_step lambda target current) (it 4 (mkeys target)) []"

text \<open>The last loop: evidence, evidence window and the reasons of anomalous nodes.\<close>

definition evidence_step :: "signal gomap \<Rightarrow> node_metric \<Rightarrow> proposal \<Rightarrow> proposal" where
  "evidence_step signals metric result =
     (let r1 = result\<lparr>pr_Evidence := AList.update (nm_NodeID metric) metric (pr_Evidence result)\<rparr>;
          r2 = (if is_zero_time (pr_WindowStart r1) \<or> nm_WindowStart metric < pr_WindowStart r1
                then r1\<lparr>pr_WindowStart := nm_WindowStart metric\<rparr> else r1);
          r3 = (if nm_WindowEnd metric > pr_WindowEnd r2
                then r2\<lparr>pr_WindowEnd := nm_WindowEnd metric\<rparr> else r2)
      in case anomalous_signal signals (nm_NodeID metric) of
           Some signal \<Rightarrow> r3\<lparr>pr_ReasonCodes := scoring_appendUnique (pr_ReasonCodes r3) (sg_ReasonCodes signal)\<rparr>
         | None \<Rightarrow> r3)"

definition empty_proposal :: "f64 gomap \<Rightarrow> f64 gomap \<Rightarrow> proposal" where
  "empty_proposal current proposed =
     \<lparr>pr_Current = current, pr_Proposed = proposed,
      pr_Expected = \<lparr>ed_P95TTFBDeltaMS = 0, ed_ErrorRateDelta = 0, ed_CostUnitsDelta = 0\<rparr>,
      pr_ReasonCodes = [''BOUNDED_MULTI_OBJECTIVE_SCORE'', ''MAX_WEIGHT_STEP_OK'', ''CAPACITY_HEADROOM_OK''],
      pr_Evidence = [], pr_WindowStart = 0, pr_WindowEnd = 0\<rparr>"

definition scorer_Propose ::
    "range_order \<Rightarrow> scorer_config \<Rightarrow> instant \<Rightarrow> node_metric list \<Rightarrow> f64 gomap \<Rightarrow> signal gomap \<Rightarrow> scoring_error + proposal" where
  "scorer_Propose it c now metrics current0 signals =
     (let latest = scoring_latestByNode it metrics;
          (scanned, staleCount, futureCount) = fold (scan_metric c now) latest ([], 0, 0)
      in if length scanned < 2
         then (if futureCount > 0 \<and> futureCount = length latest then Inl ErrFutureMetrics
               else if staleCount > 0 \<and> staleCount = length latest then Inl ErrStaleMetrics
               else Inl ErrInsufficientCandidates)
         else let eligible = sort_key nm_NodeID scanned;
                  current = normalizedCurrent it current0 eligible;
                  target = target_weights it eligible signals;
                  lambda = step_lambda it c target current;
                  proposed = proposed_weights it lambda target current;
                  currentPenalty = weightedPenalty eligible current;
                  proposedPenalty = weightedPenalty eligible proposed
              in if currentPenalty - proposedPenalty < pc_BenefitMargin c
                 then Inl ErrNoMaterialBenefit
                 else Inr ((fold (evidence_step signals) eligible (empty_proposal current proposed))
                             \<lparr>pr_Expected := expectedDelta eligible current proposed\<rparr>))"

end
