(* ===== verification/Scoring_Facts.thy ===== *)
theory Scoring_Facts
  imports Scoring
begin

text \<open>
  The guardrails of \<open>Propose\<close>: which metrics are eligible, which error is returned, what the
  evidence is, and that Go's map order does not show.
\<close>

subsection \<open>The latest metrics\<close>

definition latest_list :: "node_metric list \<Rightarrow> node_metric list" where
  "latest_list metrics = map (\<lambda>n. the (map_of (latest_map metrics) n)) (mkeys (latest_map metrics))"

lemma latest_nodes:
  assumes "set ns \<subseteq> set (mkeys (latest_map ms))"
  shows "map nm_NodeID (map (\<lambda>n. the (map_of (latest_map ms) n)) ns) = ns"
proof -
  have "nm_NodeID (the (map_of (latest_map ms) n)) = n" if "n \<in> set ns" for n
  proof -
    have "n \<in> dom (map_of (latest_map ms))" using assms that unfolding set_mkeys by (rule subsetD)
    then obtain m where "map_of (latest_map ms) n = Some m" unfolding dom_def by blast
    then show ?thesis using latest_map_Some by simp
  qed
  then show ?thesis by (simp add: map_idI)
qed

lemma latest_list_nodes: "map nm_NodeID (latest_list ms) = mkeys (latest_map ms)"
  unfolding latest_list_def by (rule latest_nodes) simp

lemma latest_list_distinct: "distinct (map nm_NodeID (latest_list ms))"
  using latest_map_wf [of ms] by (simp add: latest_list_nodes wf_map_def)

lemma latest_list_is_latest: "m \<in> set (latest_list ms) \<Longrightarrow> is_latest ms m"
  using latest_map_Some by (fastforce simp: latest_list_def set_mkeys)

lemma latest_list_ids: "nm_NodeID ` set (latest_list ms) = nm_NodeID ` set ms"
  by (metis latest_list_nodes latest_map_keys list.set_map)

lemma latestByNode_mset:
  "fair_order it \<Longrightarrow> mset (scoring_latestByNode it ms) = mset (latest_list ms)"
  by (simp add: scoring_latestByNode_def latest_list_def fair_mset Let_def)

subsection \<open>Eligibility\<close>

definition is_future :: "scorer_config \<Rightarrow> instant \<Rightarrow> node_metric \<Rightarrow> bool" where
  "is_future c now m \<longleftrightarrow> nm_WindowEnd m > time_add now (pc_FutureTolerance c)"

definition is_stale :: "scorer_config \<Rightarrow> instant \<Rightarrow> node_metric \<Rightarrow> bool" where
  "is_stale c now m \<longleftrightarrow> \<not> is_future c now m \<and> sint (time_sub now (nm_WindowEnd m)) > sint (pc_StaleAfter c)"

definition is_eligible :: "scorer_config \<Rightarrow> instant \<Rightarrow> node_metric \<Rightarrow> bool" where
  "is_eligible c now m \<longleftrightarrow> \<not> is_future c now m \<and> \<not> is_stale c now m \<and> nm_Healthy m \<and>
     pc_MinimumSamples c \<le> nm_Requests m \<and> \<not> pc_SaturationLimit c \<le> nm_Saturation m"

definition eligible_metrics :: "scorer_config \<Rightarrow> instant \<Rightarrow> node_metric list \<Rightarrow> node_metric list" where
  "eligible_metrics c now ms = sort_key nm_NodeID (filter (is_eligible c now) (latest_list ms))"

lemma scan_fold:
  "fold (scan_metric c now) ms (e, s, f) =
     (e @ filter (is_eligible c now) ms, s + length (filter (is_stale c now) ms),
      f + length (filter (is_future c now) ms))"
proof (induction ms arbitrary: e s f)
  case (Cons m ms)
  have "scan_metric c now m (e, s, f) =
     (e @ filter (is_eligible c now) [m], s + length (filter (is_stale c now) [m]),
      f + length (filter (is_future c now) [m]))"
    by (auto simp: scan_metric_def is_eligible_def is_stale_def is_future_def not_less not_le)
  then show ?case by (simp add: Cons)
qed simp

lemma eligible_scan:
  assumes "fair_order it"
  shows "sort_key nm_NodeID (filter (is_eligible c now) (scoring_latestByNode it ms)) = eligible_metrics c now ms"
  unfolding eligible_metrics_def
proof (rule sort_key_mset_eq)
  show "mset (filter (is_eligible c now) (scoring_latestByNode it ms)) = mset (filter (is_eligible c now) (latest_list ms))"
    using latestByNode_mset [OF assms] by simp
  have "set (scoring_latestByNode it ms) = set (latest_list ms)"
    using latestByNode_mset [OF assms] by (rule mset_eq_setD)
  then show "inj_on nm_NodeID (set (filter (is_eligible c now) (scoring_latestByNode it ms)))"
    using inj_on_map_distinct [OF latest_list_distinct] by (auto intro: inj_on_subset)
qed

lemma eligible_distinct: "distinct (map nm_NodeID (eligible_metrics c now ms))"
proof -
  have "distinct (map nm_NodeID (filter (is_eligible c now) (latest_list ms)))"
    using latest_list_distinct by (rule distinct_map_filter)
  then show ?thesis unfolding eligible_metrics_def by (simp add: distinct_map)
qed

lemma eligible_props:
  assumes "m \<in> set (eligible_metrics c now ms)"
  shows "is_eligible c now m" "is_latest ms m" "m \<in> set ms"
  using assms latest_list_is_latest [of m ms] by (auto simp: eligible_metrics_def is_latest_def)

lemma eligible_sorted: "sorted (map nm_NodeID (eligible_metrics c now ms))"
  by (simp add: eligible_metrics_def)

subsection \<open>Propose as a guard and a weighing\<close>

text \<open>The part of \<open>Propose\<close> after the guardrails, for a given list of eligible metrics.\<close>

definition weigh ::
    "range_order \<Rightarrow> scorer_config \<Rightarrow> node_metric list \<Rightarrow> f64 gomap \<Rightarrow> signal gomap \<Rightarrow> scoring_error + proposal" where
  "weigh it c eligible current0 signals =
     (let current = normalizedCurrent it current0 eligible;
          target = target_weights it eligible signals;
          proposed = proposed_weights it (step_lambda it c target current) target current
      in if weightedPenalty eligible current - weightedPenalty eligible proposed < pc_BenefitMargin c
         then Inl ErrNoMaterialBenefit
         else Inr ((fold (evidence_step signals) eligible (empty_proposal current proposed))
               \<lparr>pr_Expected := expectedDelta eligible current proposed\<rparr>))"

definition guard_error :: "scorer_config \<Rightarrow> instant \<Rightarrow> node_metric list \<Rightarrow> scoring_error" where
  "guard_error c now latest =
     (if latest \<noteq> [] \<and> (\<forall>m \<in> set latest. is_future c now m) then ErrFutureMetrics
      else if latest \<noteq> [] \<and> (\<forall>m \<in> set latest. is_stale c now m) then ErrStaleMetrics
      else ErrInsufficientCandidates)"

lemma all_counted: "0 < length (filter P xs) \<and> length (filter P xs) = length xs \<longleftrightarrow> xs \<noteq> [] \<and> (\<forall>x \<in> set xs. P x)"
  using filter_id_conv [of P xs] length_filter_less [of _ xs P] by (metis filter_True less_irrefl length_greater_0_conv)

lemma Propose_eq:
  assumes "fair_order it"
  shows "scorer_Propose it c now ms current0 signals =
    (if length (eligible_metrics c now ms) < 2 then Inl (guard_error c now (latest_list ms))
     else weigh it c (eligible_metrics c now ms) current0 signals)"
proof -
  have set_eq: "set (scoring_latestByNode it ms) = set (latest_list ms)"
    using latestByNode_mset [OF assms] by (rule mset_eq_setD)
  have nil: "scoring_latestByNode it ms = [] \<longleftrightarrow> latest_list ms = []"
    using set_eq by (metis set_empty)
  have len: "length (filter (is_eligible c now) (scoring_latestByNode it ms)) = length (eligible_metrics c now ms)"
    using eligible_scan [OF assms, of c now ms] by (metis length_sort)
  show ?thesis
    unfolding scorer_Propose_def Let_def scan_fold prod.case append_Nil add_0 len all_counted set_eq nil
      eligible_scan [OF assms] guard_error_def weigh_def
    by auto
qed

end
