(* ===== verification/Float_Error.thy ===== *)
theory Float_Error
  imports Float_Facts
begin

text \<open>
  Error bounds for the two computations the scorer repeats: summing non-negative floats from
  left to right, and dividing each of them by that sum. For up to \<open>2^20\<close> summands the
  quotients lie in the unit interval and add up to 1 within \<open>n * 2^-50\<close>.
\<close>

subsection \<open>Relative error\<close>

lemma urnd_pos: "0 < urnd" "urnd \<le> 1 / 2 ^ 53" "urnd = p2 (-53)"
  using p2_diff [of 0 53] p2_nat [of 53] by (simp_all add: urnd_def)

lemma eta_pos: "0 < eta" "eta \<le> p2 (-1000)" "eta \<le> urnd * urnd"
proof -
  show "0 < eta" by (simp only: eta_def p2_pos)
  show "eta \<le> p2 (-1000)" unfolding eta_def p2_le_iff by simp
  have "eta \<le> p2 (-53 + -53)" unfolding eta_def p2_le_iff by simp
  then show "eta \<le> urnd * urnd" unfolding urnd_def p2_add .
qed

lemma rnd_error_normal:
  assumes "cexp x \<noteq> -1074" shows "\<bar>rnd x - x\<bar> \<le> urnd * \<bar>x\<bar>"
proof -
  have lo: "p2 (cexp x + 52) \<le> \<bar>x\<bar>" using cexp_lower [of x] assms by blast
  have "\<bar>rnd x - x\<bar> \<le> p2 (cexp x) / 2" by (rule rnd_error_ulp)
  also have "\<dots> = urnd * p2 (cexp x + 52)"
    using p2_add [of "-53" "cexp x + 52"] p2_add [of "cexp x" "-1"] by (simp add: urnd_def)
  also have "\<dots> \<le> urnd * \<bar>x\<bar>" using lo by (intro mult_left_mono) (simp_all add: urnd_def)
  finally show ?thesis .
qed

lemma representable_multiple:
  assumes "representable x" obtains k where "x = of_int k * p2 (-1074)"
proof -
  obtain m e where x: "x = of_int m * p2 e" "-1074 \<le> e"
    using assms unfolding representable_def by blast
  have "p2 e = p2 (e + 1074) * p2 (-1074)" using p2_add [of "e + 1074" "-1074"] by simp
  also have "p2 (e + 1074) = of_int (2 ^ nat (e + 1074))" using x(2) by (simp add: p2_of_int)
  finally have "x = of_int (m * 2 ^ nat (e + 1074)) * p2 (-1074)" using x(1) by (simp only: of_int_mult mult.assoc)
  then show ?thesis by (rule that)
qed

text \<open>The sum of two floats has relative error only: where it is subnormal it is exact.\<close>

lemma rnd_add_error:
  assumes "representable a" "representable b"
  shows "\<bar>rnd (a + b) - (a + b)\<bar> \<le> urnd * \<bar>a + b\<bar>"
proof (cases "cexp (a + b) = -1074")
  case True
  obtain k l where "a = of_int k * p2 (-1074)" "b = of_int l * p2 (-1074)"
    using assms representable_multiple by metis
  then have "a + b = of_int (k + l) * p2 (-1074)" by (simp only: of_int_add distrib_right)
  then have "rnd (a + b) = a + b" using True by (intro rnd_dyadic [where e = "-1074" and m = "k + l"]) simp_all
  then show ?thesis using urnd_pos(1) by simp
qed (rule rnd_error_normal)

lemma one_plus_u_power:
  assumes "2 * real n * urnd \<le> 1" shows "(1 + urnd) ^ n \<le> 1 + 2 * real n * urnd"
  using assms
proof (induction n)
  case (Suc n)
  have n: "2 * real n * urnd \<le> 1" using Suc.prems urnd_pos(1) by (simp add: algebra_simps)
  have "(1 + urnd) ^ Suc n \<le> (1 + urnd) * (1 + 2 * real n * urnd)"
    using Suc.IH [OF n] urnd_pos(1) by (simp add: mult_left_mono)
  also have "\<dots> = 1 + 2 * real n * urnd + urnd + urnd * (2 * real n * urnd)" by (simp add: algebra_simps)
  also have "\<dots> \<le> 1 + 2 * real n * urnd + urnd + urnd"
    using mult_left_mono [OF n, of urnd] urnd_pos(1) by simp
  finally show ?case by (simp add: algebra_simps)
qed simp

subsection \<open>Sums\<close>

definition fsum :: "f64 list \<Rightarrow> f64" where
  "fsum vs = fold (\<lambda>v s. s + v) vs 0"

lemma fsum_snoc: "fsum (vs @ [v]) = fsum vs + v"
  by (simp add: fsum_def)

definition summands :: "f64 list \<Rightarrow> bool" where
  "summands vs \<longleftrightarrow> length vs \<le> 2 ^ 20 \<and> (\<forall>v \<in> set vs. finite_f64 v \<and> canonical v \<and> 0 \<le> val v \<and> val v \<le> p2 900)"

lemma summands_snoc: "summands (vs @ [v]) \<Longrightarrow> summands vs"
  by (simp add: summands_def)

lemma sum_list_bound:
  assumes "\<forall>x \<in> set xs. x \<le> (b :: real)" "0 \<le> b" shows "sum_list xs \<le> real (length xs) * b"
  using assms by (induction xs) (auto simp: algebra_simps)

lemma real_le_2_20: "n \<le> 2 ^ 20 \<Longrightarrow> real n \<le> 2 ^ 20"
  by (metis of_nat_le_iff of_nat_numeral of_nat_power)

lemma sum_summands:
  assumes "summands vs"
  shows "0 \<le> sum_list (map val vs)" "sum_list (map val vs) \<le> p2 920"
proof -
  show "0 \<le> sum_list (map val vs)"
    using assms by (intro sum_list_nonneg) (auto simp: summands_def)
  have "sum_list (map val vs) \<le> real (length (map val vs)) * p2 900"
    using assms by (intro sum_list_bound) (auto simp: summands_def)
  also have "\<dots> \<le> 2 ^ 20 * p2 900"
    using assms real_le_2_20 [of "length vs"] by (intro mult_right_mono) (simp_all add: summands_def)
  also have "\<dots> = p2 920" using p2_add [of 20 900] by simp
  finally show "sum_list (map val vs) \<le> p2 920" .
qed

lemma length_urnd: "n \<le> 2 ^ 20 \<Longrightarrow> real n * urnd \<le> 1 / 2 ^ 33"
proof -
  assume "n \<le> 2 ^ 20"
  then have "real n \<le> 2 ^ 20" by (rule real_le_2_20)
  then have "real n * urnd \<le> 2 ^ 20 * (1 / 2 ^ 53)" using urnd_pos by (intro mult_mono) simp_all
  then show ?thesis by simp
qed

lemma relative_sum_error:
  assumes "n \<le> 2 ^ 20" shows "0 \<le> (1 + urnd) ^ n - 1" "(1 + urnd) ^ n - 1 \<le> 2 * real n * urnd" "(1 + urnd) ^ n - 1 \<le> 1 / 4294967296"
proof -
  have nu: "real n * urnd \<le> 1 / 2 ^ 33" by (rule length_urnd [OF assms])
  show "0 \<le> (1 + urnd) ^ n - 1" using urnd_pos(1) by simp
  show "(1 + urnd) ^ n - 1 \<le> 2 * real n * urnd" using one_plus_u_power [of n] nu by simp
  then show "(1 + urnd) ^ n - 1 \<le> 1 / 4294967296" using nu by simp
qed

lemma sum_step:
  assumes "canonical a" "finite_f64 a" "\<bar>val a - T\<bar> \<le> e * T" "0 \<le> T" "T \<le> p2 920" "0 \<le> e" "e \<le> 1"
    and v: "finite_f64 v" "canonical v" "0 \<le> val v" "val v \<le> p2 900"
  shows "finite_f64 (a + v) \<and> val (a + v) = rnd (val a + val v) \<and> 0 \<le> val a \<and>
    \<bar>val (a + v) - (T + val v)\<bar> \<le> ((1 + urnd) * (1 + e) - 1) * (T + val v)"
proof -
  define S where "S = val a"
  have eT: "0 \<le> e * T" "e * T \<le> T" using assms mult_left_le_one_le [of T e] by simp_all
  have S: "0 \<le> S" "S \<le> T + e * T" using assms(3) eT by (simp_all add: S_def abs_le_iff)
  have "p2 900 \<le> p2 920" "p2 922 \<le> p2 1023" unfolding p2_le_iff by simp_all
  moreover have "p2 922 = 4 * p2 920" using p2_add [of 920 2] by simp
  ultimately have "2 * p2 920 + p2 900 \<le> p2 1023" using p2_pos [of 920] by linarith
  then have "\<bar>S + val v\<bar> \<le> p2 1023" using S eT assms(5) v(3,4) by linarith
  then have ov: "\<bar>rnd (S + val v)\<bar> < ovf" by (rule rnd_less_ovf)
  then have new: "finite_f64 (a + v)" "val (a + v) = rnd (S + val v)"
    using plus_f64_val [OF assms(2) v(1)] by (simp_all add: S_def)
  have err: "\<bar>rnd (S + val v) - (S + val v)\<bar> \<le> urnd * (S + val v)"
    using rnd_add_error [of S "val v"] assms(1) v S by (simp add: S_def canonical_representable)
  have "urnd * (S + val v) \<le> urnd * (T + e * T + val v)"
    using S urnd_pos(1) by (intro mult_left_mono) auto
  moreover have "e * T \<le> e * (T + val v)" using assms(6) v(3) by (intro mult_left_mono) auto
  ultimately have "\<bar>rnd (S + val v) - (T + val v)\<bar> \<le> urnd * (T + e * T + val v) + e * (T + val v)"
    using err assms(3) unfolding S_def [symmetric] by linarith
  also have "\<dots> = ((1 + urnd) * (1 + e) - 1) * (T + val v) - urnd * e * val v"
    by (simp add: algebra_simps)
  also have "\<dots> \<le> ((1 + urnd) * (1 + e) - 1) * (T + val v)"
    using assms(6) v(3) urnd_pos(1) by simp
  finally show ?thesis using new S by (simp add: S_def)
qed

lemma fsum_error:
  assumes "summands vs"
  shows "finite_f64 (fsum vs) \<and> canonical (fsum vs) \<and>
    \<bar>val (fsum vs) - sum_list (map val vs)\<bar> \<le> ((1 + urnd) ^ length vs - 1) * sum_list (map val vs)"
  using assms
proof (induction vs rule: rev_induct)
  case Nil
  show ?case by (simp add: fsum_def)
next
  case (snoc v vs)
  have s: "summands vs" by (rule summands_snoc [OF snoc.prems])
  have len: "length vs \<le> 2 ^ 20" using s by (simp add: summands_def)
  have "(1 + urnd) ^ length vs - 1 \<le> 1" using relative_sum_error(3) [OF len] by linarith
  then have "finite_f64 (fsum vs + v) \<and> val (fsum vs + v) = rnd (val (fsum vs) + val v) \<and> 0 \<le> val (fsum vs) \<and>
      \<bar>val (fsum vs + v) - (sum_list (map val vs) + val v)\<bar>
        \<le> ((1 + urnd) * (1 + ((1 + urnd) ^ length vs - 1)) - 1) * (sum_list (map val vs) + val v)"
    using snoc.IH [OF s] sum_summands [OF s] relative_sum_error(1) [OF len] snoc.prems
    by (intro sum_step) (simp_all add: summands_def)
  then show ?case unfolding fsum_snoc by (elim conjE, intro conjI) simp_all
qed

lemma fsum_step:
  assumes "summands (vs @ [v])"
  shows "val (fsum (vs @ [v])) = rnd (val (fsum vs) + val v)" "0 \<le> val (fsum vs)"
proof -
  have s: "summands vs" by (rule summands_snoc [OF assms])
  have len: "length vs \<le> 2 ^ 20" using s by (simp add: summands_def)
  have "(1 + urnd) ^ length vs - 1 \<le> 1" using relative_sum_error(3) [OF len] by linarith
  then show "val (fsum (vs @ [v])) = rnd (val (fsum vs) + val v)" "0 \<le> val (fsum vs)"
    using sum_step [of "fsum vs" "sum_list (map val vs)" "(1 + urnd) ^ length vs - 1" v]
      fsum_error [OF s] sum_summands [OF s] relative_sum_error(1) [OF len] assms
    by (simp_all add: fsum_snoc summands_def)
qed

text \<open>The sum is at least every summand: rounding is monotone.\<close>

lemma fsum_ge:
  assumes "summands vs" "v \<in> set vs" shows "val v \<le> val (fsum vs)"
  using assms
proof (induction vs rule: rev_induct)
  case (snoc w vs)
  have s: "summands vs" and w: "canonical w" "0 \<le> val w" using snoc.prems by (simp_all add: summands_def)
  have "rnd (val (fsum vs)) \<le> rnd (val (fsum vs) + val w)" "rnd (val w) \<le> rnd (val (fsum vs) + val w)"
    using w fsum_step(2) [OF snoc.prems(1)] by (intro rnd_mono; simp)+
  then have "val (fsum vs) \<le> val (fsum (vs @ [w]))" "val w \<le> val (fsum (vs @ [w]))"
    unfolding fsum_step(1) [OF snoc.prems(1)] using fsum_error [OF s] w by simp_all
  then show ?case using snoc.IH [OF s] snoc.prems(2) by fastforce
qed simp

subsection \<open>Shares of a sum\<close>

text \<open>Dividing each of the positive summands by their float sum.\<close>

lemma share_error:
  assumes "summands vs" "v \<in> set vs" "0 < val v"
  shows "between 0 1 (v / fsum vs) \<and> \<bar>val (v / fsum vs) - val v / val (fsum vs)\<bar> \<le> urnd * (val v / val (fsum vs)) + eta"
proof -
  have v: "finite_f64 v" using assms by (simp add: summands_def)
  have S: "finite_f64 (fsum vs)" "val v \<le> val (fsum vs)"
    using fsum_error [OF assms(1)] fsum_ge [OF assms(1,2)] by simp_all
  then have q: "0 \<le> val v / val (fsum vs)" "val v / val (fsum vs) \<le> 1" using assms(3) by simp_all
  have d: "between 0 1 (v / fsum vs)" "val (v / fsum vs) = rnd (val v / val (fsum vs))"
    using divide_between [OF bound_01 v S(1) _ q] S(2) assms(3) by auto
  have "\<bar>val v / val (fsum vs)\<bar> = val v / val (fsum vs)" using q(1) by (rule abs_of_nonneg)
  then show ?thesis using d rnd_error [of "val v / val (fsum vs)"] by simp
qed

lemma sum_list_abs_diff:
  fixes f g e :: "'a \<Rightarrow> real"
  assumes "\<forall>x \<in> set xs. \<bar>f x - g x\<bar> \<le> e x"
  shows "\<bar>sum_list (map f xs) - sum_list (map g xs)\<bar> \<le> sum_list (map e xs)"
  using assms by (induction xs) force+

lemma shares_sum:
  assumes "summands vs" "vs \<noteq> []" "\<forall>v \<in> set vs. 0 < val v"
  shows "\<bar>sum_list (map (\<lambda>v. val (v / fsum vs)) vs) - 1\<bar> \<le> real (length vs) * p2 (-50)"
proof -
  define S where "S = val (fsum vs)"
  define T where "T = sum_list (map val vs)"
  define n where "n = real (length vs)"
  define e where "e = (1 + urnd) ^ length vs - 1"
  have len: "length vs \<le> 2 ^ 20" using assms(1) by (simp add: summands_def)
  have n1: "1 \<le> n" using assms(2) by (simp add: n_def Suc_le_eq)
  note e = relative_sum_error [OF len, folded e_def]
  obtain v where v: "v \<in> set vs" using assms(2) by (cases vs) auto
  have S0: "0 < S" using fsum_ge [OF assms(1) v] assms(3) v by (force simp: S_def)
  have ST: "\<bar>S - T\<bar> \<le> e * T" using fsum_error [OF assms(1)] by (simp add: S_def T_def e_def)
  have T0: "0 \<le> T" using sum_summands [OF assms(1)] by (simp add: T_def)
  have TS: "\<bar>T / S - 1\<bar> \<le> 2 * e"
  proof -
    have "e * T \<le> 1 / 4294967296 * T" using e(3) T0 by (intro mult_right_mono)
    then have "T \<le> 2 * S" using ST by linarith
    then have "e * T \<le> e * (2 * S)" using e(1) by (intro mult_left_mono)
    then have "\<bar>T - S\<bar> \<le> 2 * e * S" using ST by (simp add: abs_minus_commute)
    moreover have "T / S - 1 = (T - S) / S" using S0 by (simp add: field_simps)
    ultimately show ?thesis using S0 by (simp add: abs_divide pos_divide_le_eq)
  qed
  have "\<bar>sum_list (map (\<lambda>v. val (v / fsum vs)) vs) - sum_list (map (\<lambda>v. val v / S) vs)\<bar>
      \<le> sum_list (map (\<lambda>v. urnd * (val v / S) + eta) vs)"
    using share_error [OF assms(1)] assms(3) unfolding S_def by (intro sum_list_abs_diff) blast
  also have "sum_list (map (\<lambda>v. urnd * (val v / S) + eta) vs) = urnd * (T / S) + n * eta"
    unfolding T_def n_def by (induction vs) (simp_all add: algebra_simps add_divide_distrib)
  also have "sum_list (map (\<lambda>v. val v / S) vs) = T / S"
    unfolding T_def by (induction vs) (simp_all add: add_divide_distrib)
  finally have "\<bar>sum_list (map (\<lambda>v. val (v / fsum vs)) vs) - 1\<bar> \<le> urnd * (T / S) + n * eta + 2 * e"
    using TS by linarith
  also have "\<dots> \<le> urnd * 2 + n * urnd + 2 * (2 * n * urnd)"
  proof -
    have "T / S \<le> 2" using TS e(3) by (simp add: abs_le_iff)
    then have "urnd * (T / S) \<le> urnd * 2" using urnd_pos(1) by (intro mult_left_mono) simp_all
    moreover have "eta \<le> urnd * 1"
      using eta_pos(3) mult_left_mono [of urnd 1 urnd] urnd_pos by (simp add: order_trans)
    then have "n * eta \<le> n * urnd" using n1 by (intro mult_left_mono) simp_all
    moreover have "2 * e \<le> 2 * (2 * n * urnd)" using e(2) unfolding n_def by linarith
    ultimately show ?thesis by linarith
  qed
  also have "\<dots> \<le> n * (8 * urnd)"
    using n1 mult_right_mono [of 1 n urnd] urnd_pos(1) by (simp add: algebra_simps)
  also have "8 * urnd = p2 (-50)" using p2_add [of "-53" 3] p2_nat [of 3] by (simp add: urnd_def)
  finally show ?thesis by (simp add: n_def)
qed

subsection \<open>Moving from one weight towards another\<close>

lemma rnd_1_urnd: "rnd (1 + urnd) = 1"
proof -
  have c: "cexp (1 + urnd) = -52"
  proof (rule cexp_eqI)
    show "\<bar>1 + urnd\<bar> < p2 (-52 + 53)" using urnd_pos by (simp add: abs_less_iff)
    show "-52 = (-1074::int) \<or> p2 (-52 + 52) \<le> \<bar>1 + urnd\<bar>" using urnd_pos(1) by simp
  qed simp
  have p: "p2 (-52) = 1 / 2 ^ 52" using p2_diff [of 0 52] by simp
  have x: "(1 + urnd) / p2 (-52) = of_int (2 ^ 52) + 1 / 2" using urnd_pos(3) by (simp add: p)
  have "\<lfloor>of_int (2 ^ 52) + 1 / 2 :: real\<rfloor> = 2 ^ 52" by (simp add: floor_eq_iff)
  then have "rne (of_int (2 ^ 52) + 1 / 2) = 2 ^ 52" by (simp add: rne_def Let_def)
  then show ?thesis unfolding rnd_def c x by (simp add: p)
qed

lemma bound_p2: "\<bar>k\<bar> \<le> 1000 \<Longrightarrow> bound 0 (p2 k)" "\<bar>k\<bar> \<le> 1000 \<Longrightarrow> bound (- p2 k) (p2 k)"
  using p2_less_ovf [of k] by (simp_all add: bound_def representable_p2 representable_uminus)

text \<open>
  \<open>c + l * (t - c)\<close> for a weight \<open>c\<close>, a target \<open>t\<close> and a factor \<open>l\<close> in the unit interval; \<open>gap\<close> and
  \<open>shift\<close> are the rounded difference and the rounded product.
\<close>

definition moving :: "f64 \<Rightarrow> f64 \<Rightarrow> f64 \<Rightarrow> bool" where
  "moving c t l \<longleftrightarrow> between 0 1 c \<and> canonical c \<and> between 0 1 t \<and> canonical t \<and> between 0 1 l"

definition gap :: "f64 \<Rightarrow> f64 \<Rightarrow> real" where
  "gap c t = rnd (val t - val c)"

definition shift :: "f64 \<Rightarrow> f64 \<Rightarrow> f64 \<Rightarrow> real" where
  "shift c t l = rnd (val l * gap c t)"

lemma movingD:
  assumes "moving c t l"
  shows "between 0 1 c" "canonical c" "between 0 1 t" "canonical t" "between 0 1 l"
    "0 \<le> val c" "val c \<le> 1" "0 \<le> val t" "val t \<le> 1" "0 \<le> val l" "val l \<le> 1"
  using assms by (auto simp: moving_def between_def)

lemma gap_val:
  assumes m: "moving c t l"
  shows "finite_f64 (t - c)" "val (t - c) = gap c t" "\<bar>gap c t\<bar> \<le> 1" "\<bar>gap c t - (val t - val c)\<bar> \<le> urnd"
proof -
  have r: "\<bar>val t - val c\<bar> \<le> 1" using movingD [OF m] by (auto simp: abs_le_iff)
  then have b: "bound (-1) 1" "-1 \<le> val t - val c" "val t - val c \<le> 1" using bound_int [of "-1" 1] by auto
  show "finite_f64 (t - c)" "val (t - c) = gap c t" "\<bar>gap c t\<bar> \<le> 1"
    using minus_between [OF b(1) _ _ b(2,3)] movingD [OF m] by (auto simp: between_def gap_def abs_le_iff)
  have "\<bar>gap c t - (val t - val c)\<bar> \<le> urnd * \<bar>val t - val c\<bar>"
    using rnd_add_error [of "val t" "- val c"] movingD [OF m]
    by (simp add: gap_def canonical_representable representable_uminus)
  also have "\<dots> \<le> urnd" using r urnd_pos(1) mult_left_mono [of "\<bar>val t - val c\<bar>" 1 urnd] by simp
  finally show "\<bar>gap c t - (val t - val c)\<bar> \<le> urnd" .
qed

lemma representable_gap: "representable (gap c t)"
  unfolding gap_def by (rule representable_rnd)

lemma shift_val:
  assumes m: "moving c t l"
  shows "finite_f64 (l * (t - c))" "val (l * (t - c)) = shift c t l" "\<bar>shift c t l\<bar> \<le> \<bar>gap c t\<bar>"
    "\<bar>shift c t l - val l * gap c t\<bar> \<le> urnd + eta"
proof -
  have L: "0 \<le> val l" "val l \<le> 1" using movingD [OF m] by auto
  then have le: "\<bar>val l * gap c t\<bar> \<le> \<bar>gap c t\<bar>" by (simp add: abs_mult mult_left_le_one_le)
  then have b: "bound (-1) 1" "-1 \<le> val l * gap c t" "val l * gap c t \<le> 1"
    using bound_int [of "-1" 1] gap_val(3) [OF m] by auto
  show "finite_f64 (l * (t - c))" "val (l * (t - c)) = shift c t l"
    using times_between [OF b(1), of l "t - c"] b(2,3) movingD(5) [OF m] gap_val [OF m]
    by (auto simp: between_def shift_def)
  show "\<bar>shift c t l\<bar> \<le> \<bar>gap c t\<bar>" unfolding shift_def
    using le by (rule rnd_abs_le) (simp add: representable_gap representable_uminus abs_if)
  have "\<bar>shift c t l - val l * gap c t\<bar> \<le> urnd * \<bar>val l * gap c t\<bar> + eta" unfolding shift_def by (rule rnd_error)
  also have "\<dots> \<le> urnd + eta"
    using le gap_val(3) [OF m] urnd_pos(1) mult_left_mono [of "\<bar>val l * gap c t\<bar>" 1 urnd] by simp
  finally show "\<bar>shift c t l - val l * gap c t\<bar> \<le> urnd + eta" .
qed

lemma shift_range:
  assumes m: "moving c t l"
  shows "0 \<le> val c + shift c t l" "val c + shift c t l \<le> 1 + urnd"
proof -
  note v = movingD [OF m]
  have rc: "representable (val c)" using v(2) v(1) by (simp add: canonical_representable)
  have "0 \<le> val c + shift c t l \<and> val c + shift c t l \<le> 1 + urnd"
  proof (cases "val c \<le> val t")
    case True
    then have "0 \<le> gap c t" unfolding gap_def by (intro rnd_nonneg) simp
    then have "0 \<le> shift c t l" unfolding shift_def using v(10) by (intro rnd_nonneg) simp
    then show ?thesis using shift_val(3) [OF m] gap_val(4) [OF m] v \<open>0 \<le> gap c t\<close> by (simp add: abs_le_iff)
  next
    case False
    have "gap c t \<le> 0" unfolding gap_def using rnd_mono [of "val t - val c" 0] False by simp
    moreover have "- val c \<le> gap c t" unfolding gap_def
      using v(8) rc by (intro rnd_ge representable_uminus) simp_all
    moreover have "shift c t l \<le> 0" unfolding shift_def
      using rnd_mono [of "val l * gap c t" 0] v(10) \<open>gap c t \<le> 0\<close> by (simp add: mult_nonneg_nonpos)
    ultimately show ?thesis using shift_val(3) [OF m] v(7) urnd_pos(1) by linarith
  qed
  then show "0 \<le> val c + shift c t l" "val c + shift c t l \<le> 1 + urnd" by simp_all
qed

lemma moved_val:
  assumes m: "moving c t l"
  shows "finite_f64 (c + l * (t - c))" "val (c + l * (t - c)) = rnd (val c + shift c t l)"
    "\<bar>rnd (val c + shift c t l) - (val c + shift c t l)\<bar> \<le> 2 * urnd"
proof -
  have b: "bound 0 2" "0 \<le> val c + shift c t l" "val c + shift c t l \<le> 2"
    using bound_int [of 0 2] shift_range [OF m] urnd_pos by simp_all
  show "finite_f64 (c + l * (t - c))" "val (c + l * (t - c)) = rnd (val c + shift c t l)"
    using plus_between [OF b(1), of c "l * (t - c)"] b(2,3) movingD(1) [OF m] shift_val [OF m] by (auto simp: between_def)
  have "\<bar>rnd (val c + shift c t l) - (val c + shift c t l)\<bar> \<le> urnd * \<bar>val c + shift c t l\<bar>"
    using movingD(2) [OF m] by (intro rnd_add_error canonical_representable) (simp_all add: shift_def representable_rnd)
  also have "\<dots> \<le> urnd * 2" using b urnd_pos(1) by (intro mult_left_mono) simp_all
  finally show "\<bar>rnd (val c + shift c t l) - (val c + shift c t l)\<bar> \<le> 2 * urnd" by simp
qed

lemma moved_between:
  assumes m: "moving c t l" shows "between 0 1 (c + l * (t - c))"
proof -
  have "rnd (val c + shift c t l) \<le> rnd (1 + urnd)" using shift_range(2) [OF m] by (rule rnd_mono)
  then show ?thesis
    using rnd_nonneg [OF shift_range(1) [OF m]] moved_val [OF m] by (simp add: between_def rnd_1_urnd)
qed

lemma eta_le_urnd: "eta \<le> urnd"
proof -
  have "urnd * urnd \<le> urnd * 1" using urnd_pos by (intro mult_left_mono) simp_all
  then show ?thesis using eta_pos(3) by simp
qed

lemma moved_error:
  assumes m: "moving c t l"
  shows "\<bar>val (c + l * (t - c)) - (val c + val l * (val t - val c))\<bar> \<le> 5 * urnd"
proof -
  have L: "0 \<le> val l" "val l \<le> 1" using movingD [OF m] by auto
  have "val l * gap c t - val l * (val t - val c) = val l * (gap c t - (val t - val c))" by (simp add: algebra_simps)
  then have "\<bar>val l * gap c t - val l * (val t - val c)\<bar> = val l * \<bar>gap c t - (val t - val c)\<bar>"
    using L by (simp add: abs_mult)
  also have "\<dots> \<le> 1 * urnd" using L gap_val(4) [OF m] by (intro mult_mono) simp_all
  finally show ?thesis
    using moved_val(3) [OF m] shift_val(4) [OF m] eta_le_urnd unfolding moved_val(2) [OF m] by linarith
qed

text \<open>
  The step guard: where the distance exceeds the maximal step, the factor is at most the
  float quotient of step and distance.
\<close>

lemma quotient_error:
  assumes "0 \<le> (s::real)" "s < d" "d \<le> 1"
  shows "rnd (s / d) * d \<le> s + (urnd + eta)"
proof -
  have q: "0 \<le> s / d" "s / d \<le> 1" using assms by auto
  have "rnd (s / d) \<le> s / d + (urnd + eta)"
  proof -
    have "urnd * (s / d) \<le> urnd * 1" using q(2) urnd_pos(1) by (intro mult_left_mono) simp_all
    then show ?thesis using rnd_error [of "s / d"] unfolding abs_of_nonneg [OF q(1)] by linarith
  qed
  then have "rnd (s / d) * d \<le> (s / d + (urnd + eta)) * d" using assms by (intro mult_right_mono) simp_all
  also have "\<dots> = s + (urnd + eta) * d" using assms by (simp add: field_simps)
  also have "\<dots> \<le> s + (urnd + eta)"
    using assms(3) urnd_pos(1) eta_pos(1) mult_left_mono [of d 1 "urnd + eta"] by simp
  finally show ?thesis .
qed

lemma moved_step:
  assumes m: "moving c t l" and s: "between 0 1 s" and guard: "s < \<bar>t - c\<bar> \<Longrightarrow> l \<le> s / \<bar>t - c\<bar>"
  shows "\<bar>val (c + l * (t - c)) - val c\<bar> \<le> val s + p2 (-50)"
proof -
  have S: "0 \<le> val s" "val s \<le> 1" "finite_f64 s" using s by (auto simp: between_def)
  note D = gap_val [OF m] and E = shift_val [OF m]
  have "\<bar>shift c t l\<bar> \<le> val s + 4 * urnd"
  proof (cases "s < \<bar>t - c\<bar>")
    case False
    then have "\<bar>gap c t\<bar> \<le> val s" using S(3) D by (simp add: fval)
    then show ?thesis using E(3) urnd_pos(1) by linarith
  next
    case True
    then have d: "val s < \<bar>gap c t\<bar>" using S(3) D by (simp add: fval)
    then have q: "0 \<le> val s / \<bar>gap c t\<bar>" "val s / \<bar>gap c t\<bar> \<le> 1" using S by auto
    have quo: "finite_f64 (s / \<bar>t - c\<bar>)" "val (s / \<bar>t - c\<bar>) = rnd (val s / \<bar>gap c t\<bar>)"
      using divide_between [OF bound_01 S(3), of "\<bar>t - c\<bar>"] q d S D(1,2) by (auto simp: between_def)
    have "val l \<le> rnd (val s / \<bar>gap c t\<bar>)"
      using guard [OF True] quo movingD(5) [OF m] by (simp add: between_def fval)
    then have "val l * \<bar>gap c t\<bar> \<le> rnd (val s / \<bar>gap c t\<bar>) * \<bar>gap c t\<bar>" by (rule mult_right_mono) simp
    also have "\<dots> \<le> val s + (urnd + eta)" using S(1) d D(3) by (rule quotient_error)
    finally have "val l * \<bar>gap c t\<bar> \<le> val s + (urnd + eta)" .
    moreover have "\<bar>val l * gap c t\<bar> = val l * \<bar>gap c t\<bar>" using movingD(10) [OF m] by (simp add: abs_mult)
    ultimately have "\<bar>shift c t l\<bar> \<le> val s + (urnd + eta) + (urnd + eta)" using E(4) by linarith
    then show ?thesis using eta_le_urnd by linarith
  qed
  then have "\<bar>val (c + l * (t - c)) - val c\<bar> \<le> val s + 6 * urnd"
    using moved_val(3) [OF m] unfolding moved_val(2) [OF m] by linarith
  moreover have "8 * urnd = p2 (-50)" using p2_add [of "-53" 3] p2_nat [of 3] by (simp add: urnd_def)
  ultimately show ?thesis using urnd_pos(1) by linarith
qed

end
