(* ===== verification/Scoring_Weights.thy ===== *)
theory Scoring_Weights
  imports Scoring_Facts Float_Error
begin

text \<open>
  The weights of a proposal. Under bounds on the inputs (metrics and current weights of at
  most \<open>2^900\<close> in absolute value, at most \<open>2^20\<close> metrics, severities in the unit interval) the
  normalised factors, the current, target and proposed weights are computed exactly as lists,
  and the rounding errors of their sums are bounded. The bounds are far beyond what metrics
  hold; without them the sums could overflow.
\<close>

subsection \<open>Bounded inputs\<close>

definition moderate :: "f64 \<Rightarrow> bool" where
  "moderate x \<longleftrightarrow> number x \<and> \<bar>x\<bar> \<le> Fin 4503599627370496 848"

definition moderate_metric :: "node_metric \<Rightarrow> bool" where
  "moderate_metric m \<longleftrightarrow> moderate (nm_ErrorRate m) \<and> moderate (nm_CacheHitRate m) \<and> moderate (nm_OriginMS m) \<and>
     moderate (nm_P95TTFBMS m) \<and> moderate (nm_Saturation m)"

definition unit_severity :: "signal \<Rightarrow> bool" where
  "unit_severity s \<longleftrightarrow> number (sg_Severity s) \<and> 0 \<le> sg_Severity s \<and> sg_Severity s \<le> 1"

definition moderate_inputs :: "node_metric list \<Rightarrow> f64 gomap \<Rightarrow> signal gomap \<Rightarrow> bool" where
  "moderate_inputs metrics weights signals \<longleftrightarrow> int (length metrics) \<le> 1048576 \<and>
     (\<forall>m \<in> set metrics. moderate_metric m) \<and> (\<forall>p \<in> set weights. moderate (snd p)) \<and>
     (\<forall>p \<in> set signals. unit_severity (snd p))"

definition unit_step :: "scorer_config \<Rightarrow> bool" where
  "unit_step c \<longleftrightarrow> number (pc_MaximumWeightStep c) \<and> 0 \<le> pc_MaximumWeightStep c \<and> pc_MaximumWeightStep c \<le> 1"

lemma moderateD:
  assumes "moderate x"
  shows "finite_f64 x" "canonical x" "\<bar>val x\<bar> \<le> p2 900"
proof -
  show f: "finite_f64 x" "canonical x" using assms by (simp_all add: moderate_def number_def)
  have "val (Fin 4503599627370496 848) = p2 900"
    using p2_add [of 52 848] p2_nat [of 52] by (simp add: val_Fin)
  then show "\<bar>val x\<bar> \<le> p2 900" using assms f(1) by (simp add: moderate_def fval)
qed

lemma unit_between:
  assumes "number x" "0 \<le> x" "x \<le> 1" shows "between 0 1 x" "canonical x"
  using assms by (simp_all add: number_def between_def fval)

subsection \<open>The normalised factors\<close>

lemmas scorer_steps = min_step_def [abs_def] max_step_def [abs_def] scale_value_def [abs_def] share_step_def [abs_def]
  equal_step_def [abs_def] target_step_def [abs_def] lambda_step_def [abs_def] move_step_def [abs_def]

lemma math_min_PInf: "finite_f64 v \<Longrightarrow> math_min PInf v = v"
  and math_max_NInf: "finite_f64 v \<Longrightarrow> math_max NInf v = v"
  using not_nan_inf [of v] by (auto simp: math_min_def math_max_def feq_def less_eq_f64_def less_f64_def)

lemma fold_math_min:
  assumes "vs \<noteq> []" "\<forall>v \<in> set vs. finite_f64 v"
  shows "finite_f64 (fold (\<lambda>r m. math_min m r) vs PInf) \<and>
    val (fold (\<lambda>r m. math_min m r) vs PInf) = Min (val ` set vs)"
  using assms
proof (induction vs rule: rev_induct)
  case (snoc v vs)
  show ?case
  proof (cases "vs = []")
    case True
    then show ?thesis using snoc.prems by (simp add: math_min_PInf)
  next
    case False
    have "Min (val ` set (vs @ [v])) = min (Min (val ` set vs)) (val v)"
      using False Min_insert [of "val ` set vs" "val v"] by (simp add: min.commute)
    then show ?thesis using snoc False by (simp add: math_min_val)
  qed
qed simp

lemma fold_math_max:
  assumes "vs \<noteq> []" "\<forall>v \<in> set vs. finite_f64 v"
  shows "finite_f64 (fold (\<lambda>r m. math_max m r) vs NInf) \<and>
    val (fold (\<lambda>r m. math_max m r) vs NInf) = Max (val ` set vs)"
  using assms
proof (induction vs rule: rev_induct)
  case (snoc v vs)
  show ?case
  proof (cases "vs = []")
    case True
    then show ?thesis using snoc.prems by (simp add: math_max_NInf)
  next
    case False
    have "Max (val ` set (vs @ [v])) = max (Max (val ` set vs)) (val v)"
      using False Max_insert [of "val ` set vs" "val v"] by (simp add: max.commute)
    then show ?thesis using snoc False by (simp add: math_max_val)
  qed
qed simp

lemma fold_canonical:
  assumes "\<forall>v \<in> set vs. canonical v"
  shows "canonical x \<Longrightarrow> canonical (fold (\<lambda>r m. math_min m r) vs x)"
    and "canonical x \<Longrightarrow> canonical (fold (\<lambda>r m. math_max m r) vs x)"
  using assms by (induction vs arbitrary: x) simp_all

lemma lit_margin: "lit 1 12 = Fin 4951760157141521 (-92)"
  by code_simp

lemma scaled_between:
  assumes "finite_f64 r" "canonical r" "finite_f64 lo" "canonical lo" "finite_f64 hi" "canonical hi"
    and "val lo \<le> val r" "val r \<le> val hi" "val hi - val lo \<le> p2 910" "\<not> \<bar>hi - lo\<bar> < lit 1 12"
  shows "between 0 1 ((r - lo) / (hi - lo))"
proof -
  have b: "bound 0 (p2 910)" by (rule bound_p2) simp
  have n: "finite_f64 (r - lo)" "val (r - lo) = rnd (val r - val lo)"
    using minus_between [OF b assms(1,3)] assms(7-9) by (simp_all add: between_def)
  have d: "finite_f64 (hi - lo)" "val (hi - lo) = rnd (val hi - val lo)"
    using minus_between [OF b assms(5,3)] assms(7-9) by (simp_all add: between_def)
  have le: "0 \<le> val (r - lo)" "val (r - lo) \<le> val (hi - lo)"
    unfolding n d using assms(7,8) by (simp_all add: rnd_nonneg rnd_mono)
  have "val (lit 1 12) \<le> \<bar>val (hi - lo)\<bar>"
    using assms(10) d(1) by (simp add: fval lit_margin)
  moreover have "0 < val (lit 1 12)" by (simp add: lit_margin val_Fin)
  ultimately have pos: "0 < val (hi - lo)" using le by linarith
  have q: "0 \<le> val (r - lo) / val (hi - lo)" "val (r - lo) / val (hi - lo) \<le> 1" using le pos by auto
  show ?thesis using divide_between [OF bound_01 n(1) d(1) _ q] pos by simp
qed

lemma normalized_between:
  assumes "\<forall>m \<in> set ms. finite_f64 (f m) \<and> canonical (f m) \<and> \<bar>val (f m)\<bar> \<le> p2 901" "i < length ms"
  shows "between 0 1 (normalized ms f ! i) \<and> canonical (normalized ms f ! i)"
proof -
  define vs where "vs = map f ms"
  define lo where "lo = fold (\<lambda>r m. math_min m r) vs PInf"
  define hi where "hi = fold (\<lambda>r m. math_max m r) vs NInf"
  have ne: "vs \<noteq> []" using assms(2) by (auto simp: vs_def)
  have fin: "\<forall>v \<in> set vs. finite_f64 v" and can: "\<forall>v \<in> set vs. canonical v" and big: "\<forall>v \<in> set vs. \<bar>val v\<bar> \<le> p2 901"
    using assms(1) by (auto simp: vs_def)
  have L: "finite_f64 lo" "val lo = Min (val ` set vs)" "canonical lo"
    using fold_math_min [OF ne fin] fold_canonical [OF can] by (simp_all add: lo_def)
  have H: "finite_f64 hi" "val hi = Max (val ` set vs)" "canonical hi"
    using fold_math_max [OF ne fin] fold_canonical [OF can] by (simp_all add: hi_def)
  have i: "f (ms ! i) \<in> set vs" using assms(2) by (simp add: vs_def)
  have range: "val lo \<le> val (f (ms ! i))" "val (f (ms ! i)) \<le> val hi" unfolding L H using i by simp_all
  have "val hi \<in> val ` set vs" "val lo \<in> val ` set vs" unfolding L H using ne by (auto intro!: Max_in Min_in)
  then have "\<bar>val hi\<bar> \<le> p2 901" "\<bar>val lo\<bar> \<le> p2 901" using big by auto
  then have "val hi - val lo \<le> 2 * p2 901" by linarith
  also have "\<dots> = p2 902" using p2_add [of 1 901] by simp
  also have "\<dots> \<le> p2 910" by simp
  finally have width: "val hi - val lo \<le> p2 910" .
  have nth: "normalized ms f ! i = (if \<bar>hi - lo\<bar> < lit 1 12 then 0 else (f (ms ! i) - lo) / (hi - lo))"
    using assms(2) by (simp add: normalized_def Let_def vs_def lo_def hi_def scorer_steps)
  show ?thesis
  proof (cases "\<bar>hi - lo\<bar> < lit 1 12")
    case True
    then show ?thesis by (simp add: nth between_def)
  next
    case False
    have "between 0 1 ((f (ms ! i) - lo) / (hi - lo))"
      using i fin can L H range width False by (intro scaled_between) simp_all
    then show ?thesis using False i can L(3) H(3) by (simp add: nth)
  qed
qed

subsection \<open>The raw targets\<close>

lemma weight_term:
  assumes "between 0 1 k" "between 0 1 x" shows "between 0 1 (k * x)"
proof -
  have "0 \<le> val k * val x" "val k * val x \<le> 1"
    using assms by (auto simp: between_def mult_le_one)
  then show ?thesis using times_between [OF bound_01, of k x] assms by (simp add: between_def)
qed

lemma add_term:
  assumes "between 0 (of_int a) x" "between 0 1 y" "0 \<le> a" "a \<le> 100"
  shows "between 0 (of_int (a + 1)) (x + y)"
proof -
  have "bound (of_int 0) (of_int (a + 1))" using assms(3,4) by (intro bound_int) simp_all
  moreover have "0 \<le> val x + val y" "val x + val y \<le> of_int (a + 1)" using assms(1,2) by (simp_all add: between_def)
  ultimately show ?thesis using plus_between [of 0 "of_int (a + 1)" x y] assms(1,2) by (simp add: between_def)
qed

lemma lit_unit: "between 0 1 (lit 35 2)" "between 0 1 (lit 25 2)" "between 0 1 (lit 15 2)" "between 0 1 (lit 10 2)"
  by (rule unit_between(1); code_simp)+

lemma anomalous_unit:
  assumes "\<forall>p \<in> set signals. unit_severity (snd p)" "anomalous_signal signals n = Some s"
  shows "between 0 1 (sg_Severity s)" "canonical (sg_Severity s)"
proof -
  have "map_of signals n = Some s"
    using assms(2) by (auto simp: anomalous_signal_def split: option.splits if_splits)
  then have "unit_severity s" using assms(1) map_of_SomeD [of signals n s] by force
  then show "between 0 1 (sg_Severity s)" "canonical (sg_Severity s)"
    unfolding unit_severity_def using unit_between by blast+
qed

lemma node_penalty_between:
  assumes "\<forall>f \<in> {a, b, c, d, e}. between 0 1 (f ! i) \<and> canonical (f ! i)"
    and sev: "\<forall>p \<in> set signals. unit_severity (snd p)"
  shows "between 0 6 (node_penalty ms signals a b c d e i)"
proof -
  define s5 where "s5 = lit 35 2 * a ! i + lit 25 2 * b ! i + lit 15 2 * c ! i + lit 15 2 * d ! i + lit 10 2 * e ! i"
  note t = lit_unit [THEN weight_term]
  have "between 0 (of_int 1) (lit 35 2 * a ! i)" using t(1) [of "a ! i"] assms(1) by simp
  then have "between 0 (of_int 5) s5" unfolding s5_def
    using add_term [of 1] add_term [of 2] add_term [of 3] add_term [of 4] t assms(1) by simp
  then have 5: "between 0 (of_int 5) s5" .
  show ?thesis
  proof (cases "anomalous_signal signals (nm_NodeID (ms ! i))")
    case None
    then have "node_penalty ms signals a b c d e i = s5" by (simp add: node_penalty_def s5_def)
    then show ?thesis using 5 by (simp add: between_def)
  next
    case (Some s)
    then have "node_penalty ms signals a b c d e i = s5 + lit 25 2 * sg_Severity s"
      by (simp add: node_penalty_def s5_def)
    then show ?thesis using add_term [OF 5 t(2) [OF anomalous_unit(1) [OF sev Some]]] by simp
  qed
qed

definition inverse_penalty :: "f64 \<Rightarrow> f64" where
  "inverse_penalty penalty = 1 / (lit 5 2 + penalty)"

lemma inverse_penalty_between:
  assumes "between 0 6 p" shows "between (1 / 8) 32 (inverse_penalty p)"
proof -
  have l: "finite_f64 (lit 5 2)" "Fin 4503599627370496 (-57) \<le> lit 5 2" "lit 5 2 \<le> 1"
    by code_simp+
  have "val (Fin 4503599627370496 (-57)) = 1 / 32"
    using p2_add [of 52 "-57"] p2_diff [of 0 5] p2_nat [of 52] p2_nat [of 5] by (simp add: val_Fin)
  then have v: "1 / 32 \<le> val (lit 5 2)" "val (lit 5 2) \<le> 1" using l by (simp_all add: fval)
  have p: "1 / 32 = p2 (-5)" "1 / 8 = p2 (-3)"
    using p2_diff [of 0 5] p2_diff [of 0 3] p2_nat [of 5] p2_nat [of 3] by (simp_all add: field_simps)
  have r: "representable (1 / 32)" "representable (1 / 8)" "representable 8" "representable 32"
    unfolding p using representable_p2 [of "-5"] representable_p2 [of "-3"]
      representable_of_int [of 8] representable_of_int [of 32] by simp_all
  have b: "bound (1 / 32) 8" "bound (1 / 8) 32"
    using r ovf_big [of "1 / 32"] ovf_big [of "1 / 8"] ovf_big [of 8] ovf_big [of 32] by (simp_all add: bound_def)
  have s: "between (1 / 32) 8 (lit 5 2 + p)"
    using plus_between [OF b(1) l(1), of p] assms v by (simp add: between_def)
  then have q: "1 / 8 \<le> val 1 / val (lit 5 2 + p)" "val 1 / val (lit 5 2 + p) \<le> 32"
    by (auto simp: between_def field_simps)
  show ?thesis unfolding inverse_penalty_def
    using divide_between [OF b(2) finite_one _ _ q] s by (simp add: between_def)
qed

lemma inverse_penalty_canonical [simp]: "canonical (inverse_penalty p)"
  by (simp add: inverse_penalty_def)

lemma fold_update_sum:
  "fold (\<lambda>x st. let t = f x in (AList.update (k x) t (fst st), snd st + t)) xs (m, s) =
     (fold (\<lambda>x. AList.update (k x) (f x)) xs m, fold (\<lambda>v s. s + v) (map f xs) s)"
  by (induction xs arbitrary: m s) (simp_all add: Let_def)

definition raw_target :: "node_metric list \<Rightarrow> signal gomap \<Rightarrow> nat \<Rightarrow> f64" where
  "raw_target eligible signals i =
     inverse_penalty (node_penalty eligible signals (normalized eligible nm_P95TTFBMS) (normalized eligible nm_ErrorRate)
       (normalized eligible cache_miss_rate) (normalized eligible cost_value)
       (normalized eligible nm_Saturation) i)"

definition raws :: "node_metric list \<Rightarrow> signal gomap \<Rightarrow> f64 list" where
  "raws eligible signals = map (raw_target eligible signals) [0..<length eligible]"

definition targets :: "node_metric list \<Rightarrow> signal gomap \<Rightarrow> f64 gomap" where
  "targets eligible signals =
     map (\<lambda>i. (nm_NodeID (eligible ! i), raw_target eligible signals i / fsum (raws eligible signals))) [0..<length eligible]"

lemma nodes_upt: "map (\<lambda>i. nm_NodeID (ms ! i)) [0..<length ms] = map nm_NodeID ms"
  by (rule nth_equalityI) simp_all

lemma raw_targets_eq:
  assumes "distinct (map nm_NodeID ms)"
  shows "raw_targets ms signals = (map (\<lambda>i. (nm_NodeID (ms ! i), raw_target ms signals i)) [0..<length ms], fsum (raws ms signals))"
proof -
  have "raw_targets ms signals =
      fold (\<lambda>i st. let t = raw_target ms signals i in (AList.update (nm_NodeID (ms ! i)) t (fst st), snd st + t)) [0..<length ms] ([], 0)"
    by (simp only: raw_targets_def raw_target_def inverse_penalty_def Let_def scorer_steps)
  also have "\<dots> = (fold (\<lambda>i. AList.update (nm_NodeID (ms ! i)) (raw_target ms signals i)) [0..<length ms] [], fsum (raws ms signals))"
    unfolding fold_update_sum fsum_def raws_def by simp
  also have "fold (\<lambda>i. AList.update (nm_NodeID (ms ! i)) (raw_target ms signals i)) [0..<length ms] [] =
      [] @ map (\<lambda>i. (nm_NodeID (ms ! i), raw_target ms signals i)) [0..<length ms]"
    using assms by (intro fold_update_fresh) (simp_all add: nodes_upt)
  finally show ?thesis by simp
qed

lemma mkeys_targets: "mkeys (targets ms signals) = map nm_NodeID ms"
  using nodes_upt [of ms] by (simp add: targets_def mkeys_def comp_def)

lemma target_weights_eq:
  assumes "distinct (map nm_NodeID ms)" "fair_order it"
  shows "target_weights it ms signals = targets ms signals"
proof -
  let ?m = "map (\<lambda>i. (nm_NodeID (ms ! i), raw_target ms signals i)) [0..<length ms]"
  have "wf_map ?m" using assms(1) nodes_upt [of ms] by (simp add: wf_map_def mkeys_def comp_def)
  then have "fold (\<lambda>k m. AList.update k (mget 0 m k / fsum (raws ms signals)) m) (it 2 (mkeys ?m)) ?m =
      map (\<lambda>p. (fst p, snd p / fsum (raws ms signals))) ?m"
    using fair_mset [OF assms(2)] by (intro fold_adjust_list)
  then show ?thesis
    by (simp add: target_weights_def raw_targets_eq [OF assms(1)] targets_def comp_def scorer_steps)
qed

lemma count_val:
  assumes "1 \<le> k" "k \<le> 2 ^ 64"
  shows "finite_f64 (f64_of_int k) \<and> 1 \<le> val (f64_of_int k)"
proof -
  have "real_of_int k \<le> of_int (2 ^ 64)" using assms(2) by (simp only: of_int_le_iff)
  then have le: "1 \<le> real_of_int k" "real_of_int k \<le> p2 64" using p2_nat [of 64] assms(1) by simp_all
  have b: "bound 1 (p2 64)" using bound_01 bound_p2 [of 64] by (simp add: bound_def)
  show ?thesis using f64_of_int_val [of k] bound_rnd [OF b le] by simp
qed

lemma cost_value_moderate:
  assumes "moderate_metric m"
  shows "finite_f64 (cost_value m) \<and> canonical (cost_value m) \<and> \<bar>val (cost_value m)\<bar> \<le> p2 901"
proof (cases "nm_Requests m = 0")
  case True
  then show ?thesis by (simp add: cost_value_def)
next
  case False
  have "1 \<le> uint (nm_Requests m)"
    using False uint_ge_0 [of "nm_Requests m"] by (metis int_one_le_iff_zero_less le_less uint_0_iff)
  moreover have "uint (nm_Requests m) \<le> 2 ^ 64" using uint_bounded [of "nm_Requests m"] by simp
  ultimately have d: "finite_f64 (f64_of_u64 (nm_Requests m))" "1 \<le> val (f64_of_u64 (nm_Requests m))"
    unfolding f64_of_u64_def using count_val by blast+
  have o: "finite_f64 (nm_OriginMS m)" "\<bar>val (nm_OriginMS m)\<bar> \<le> p2 900"
    using assms moderateD by (simp_all add: moderate_metric_def)
  have "\<bar>val (nm_OriginMS m) / val (f64_of_u64 (nm_Requests m))\<bar> \<le> \<bar>val (nm_OriginMS m)\<bar> / 1"
    using d(2) unfolding abs_divide by (intro divide_left_mono) simp_all
  then have q: "\<bar>val (nm_OriginMS m) / val (f64_of_u64 (nm_Requests m))\<bar> \<le> p2 900" using o(2) by simp
  have bb: "bound (- p2 900) (p2 900)" by (rule bound_p2) simp
  have "between (- p2 900) (p2 900) (nm_OriginMS m / f64_of_u64 (nm_Requests m))"
    using divide_between [OF bb o(1) d(1)] d(2) q [THEN abs_le_D1] q [THEN abs_le_D2] by simp
  moreover have "p2 900 \<le> p2 901" by simp
  ultimately have "\<bar>val (nm_OriginMS m / f64_of_u64 (nm_Requests m))\<bar> \<le> p2 901"
    "finite_f64 (nm_OriginMS m / f64_of_u64 (nm_Requests m))"
    unfolding between_def abs_le_iff by linarith+
  then show ?thesis using False assms moderateD(2) by (simp add: cost_value_def moderate_metric_def)
qed

lemma cache_miss_moderate:
  assumes "moderate x" shows "finite_f64 (1 - x) \<and> canonical (1 - x) \<and> \<bar>val (1 - x)\<bar> \<le> p2 901"
proof -
  note x = moderateD [OF assms]
  have "1 \<le> p2 900" using p2_nat [of 900] by simp
  moreover have "2 * p2 900 = p2 901" using p2_add [of 1 900] by simp
  ultimately have "- p2 901 \<le> val 1 - val x" "val 1 - val x \<le> p2 901" using x(3) by (simp_all add: abs_le_iff)
  then show ?thesis
    using minus_between [OF bound_p2(2) [of 901] finite_one x(1)] x(2)
    by (simp add: between_def abs_le_iff)
qed

lemma moderate_le: "moderate x \<Longrightarrow> finite_f64 x \<and> canonical x \<and> \<bar>val x\<bar> \<le> p2 901"
proof -
  assume "moderate x"
  moreover have "p2 900 \<le> p2 901" by simp
  ultimately show ?thesis using moderateD [of x] by linarith
qed

lemma raw_target_between:
  assumes "\<forall>m \<in> set ms. moderate_metric m" "\<forall>p \<in> set signals. unit_severity (snd p)" "i < length ms"
  shows "between (1 / 8) 32 (raw_target ms signals i) \<and> canonical (raw_target ms signals i)"
proof -
  have "between 0 1 (normalized ms f ! i) \<and> canonical (normalized ms f ! i)"
    if "f \<in> {nm_P95TTFBMS, nm_ErrorRate, cache_miss_rate, cost_value, nm_Saturation}" for f
  proof (rule normalized_between)
    show "\<forall>m \<in> set ms. finite_f64 (f m) \<and> canonical (f m) \<and> \<bar>val (f m)\<bar> \<le> p2 901"
      using assms(1) that cost_value_moderate cache_miss_moderate moderate_le by (auto simp: moderate_metric_def cache_miss_rate_def)
  qed (rule assms(3))
  then have "between 0 6 (node_penalty ms signals (normalized ms nm_P95TTFBMS) (normalized ms nm_ErrorRate)
      (normalized ms cache_miss_rate) (normalized ms cost_value) (normalized ms nm_Saturation) i)"
    using assms(2) by (intro node_penalty_between) simp_all
  then show ?thesis unfolding raw_target_def by (simp add: inverse_penalty_between)
qed

subsection \<open>Maps of weights\<close>

text \<open>Weights that lie in the unit interval and add up to 1 but for a rounding error.\<close>

definition weight_total :: "f64 gomap \<Rightarrow> real" where
  "weight_total m = sum_list (map (\<lambda>p. val (snd p)) m)"

definition weights_ok :: "real \<Rightarrow> f64 gomap \<Rightarrow> bool" where
  "weights_ok e m \<longleftrightarrow> wf_map m \<and> (\<forall>p \<in> set m. between 0 1 (snd p) \<and> canonical (snd p)) \<and> \<bar>weight_total m - 1\<bar> \<le> e"

lemma weights_okD:
  assumes "weights_ok e m"
  shows "wf_map m" "p \<in> set m \<Longrightarrow> between 0 1 (snd p) \<and> canonical (snd p)" "\<bar>weight_total m - 1\<bar> \<le> e"
  using assms by (simp_all add: weights_ok_def)

lemma mget_between:
  assumes "weights_ok e m" shows "between 0 1 (mget 0 m k) \<and> canonical (mget 0 m k)"
proof (cases "map_of m k")
  case None
  then show ?thesis by (simp add: mget_def between_def)
next
  case (Some v)
  then show ?thesis using weights_okD(2) [OF assms map_of_SomeD [OF Some]] by (simp add: mget_def)
qed

lemma shares_ok:
  assumes "summands (map w xs)" "xs \<noteq> []" "\<forall>x \<in> set xs. 0 < val (w x)" "distinct (map k xs)"
  shows "weights_ok (real (length xs) * p2 (-50)) (map (\<lambda>x. (k x, w x / fsum (map w xs))) xs)"
  unfolding weights_ok_def
proof (intro conjI ballI)
  show "wf_map (map (\<lambda>x. (k x, w x / fsum (map w xs))) xs)"
    using assms(4) by (simp add: wf_map_def mkeys_def comp_def)
  have "weight_total (map (\<lambda>x. (k x, w x / fsum (map w xs))) xs) = sum_list (map (\<lambda>v. val (v / fsum (map w xs))) (map w xs))"
    by (simp add: weight_total_def comp_def)
  then show "\<bar>weight_total (map (\<lambda>x. (k x, w x / fsum (map w xs))) xs) - 1\<bar> \<le> real (length xs) * p2 (-50)"
    using shares_sum [OF assms(1)] assms(2,3) by simp
next
  fix p assume "p \<in> set (map (\<lambda>x. (k x, w x / fsum (map w xs))) xs)"
  then obtain x where x: "x \<in> set xs" "snd p = w x / fsum (map w xs)" by auto
  show "between 0 1 (snd p)" using share_error [OF assms(1), of "w x"] x assms(3) by simp
  have "canonical (w x)" using assms(1) x(1) by (simp add: summands_def)
  then show "canonical (snd p)" using x(2) fsum_error [OF assms(1)] by simp
qed

lemma targets_ok:
  assumes "\<forall>m \<in> set ms. moderate_metric m" "\<forall>p \<in> set signals. unit_severity (snd p)"
    "length ms \<le> 2 ^ 20" "ms \<noteq> []" "distinct (map nm_NodeID ms)"
  shows "weights_ok (real (length ms) * p2 (-50)) (targets ms signals)"
proof -
  have r: "between (1 / 8) 32 (raw_target ms signals i) \<and> canonical (raw_target ms signals i)" if "i \<in> set [0..<length ms]" for i
    using raw_target_between [OF assms(1,2)] that by simp
  have "32 = p2 5" using p2_nat [of 5] by simp
  also have "p2 5 \<le> p2 900" by simp
  finally have big: "32 \<le> p2 900" .
  have "summands (raws ms signals)"
    using r big assms(3) by (fastforce simp: summands_def raws_def between_def)
  moreover have "\<forall>i \<in> set [0..<length ms]. 0 < val (raw_target ms signals i)"
    using r by (fastforce simp: between_def)
  ultimately have "weights_ok (real (length [0..<length ms]) * p2 (-50)) (targets ms signals)"
    unfolding targets_def raws_def using assms(4,5) by (intro shares_ok) (simp_all add: nodes_upt)
  then show ?thesis by simp
qed

subsection \<open>The current weights\<close>

definition weighted_nodes :: "f64 gomap \<Rightarrow> node_metric list \<Rightarrow> node_metric list" where
  "weighted_nodes current ms = filter (\<lambda>m. 0 < mget 0 current (nm_NodeID m)) ms"

definition current_shares :: "f64 gomap \<Rightarrow> node_metric list \<Rightarrow> f64 gomap" where
  "current_shares current ms =
     (let ws = weighted_nodes current ms
      in if ws = [] then map (\<lambda>m. (nm_NodeID m, 1 / f64_of_int (int (length ms)))) ms
         else map (\<lambda>m. (nm_NodeID m, mget 0 current (nm_NodeID m) /
                fsum (map (\<lambda>m. mget 0 current (nm_NodeID m)) ws))) ws)"

lemma current_fold:
  "fold (current_step current) ms (m, s) =
     (fold (\<lambda>x. AList.update (nm_NodeID x) (mget 0 current (nm_NodeID x))) (weighted_nodes current ms) m,
      fold (\<lambda>v s. s + v) (map (\<lambda>x. mget 0 current (nm_NodeID x)) (weighted_nodes current ms)) s)"
  by (induction ms arbitrary: m s) (simp_all add: weighted_nodes_def current_step_def Let_def)

lemma weighted_summands:
  assumes "\<forall>p \<in> set current. moderate (snd p)" "length ms \<le> 2 ^ 20"
  shows "summands (map (\<lambda>m. mget 0 current (nm_NodeID m)) (weighted_nodes current ms)) \<and>
    (\<forall>m \<in> set (weighted_nodes current ms). 0 < val (mget 0 current (nm_NodeID m)))"
proof -
  have get: "moderate (mget 0 current k)" if "0 < mget 0 current k" for k
  proof (cases "map_of current k")
    case (Some v)
    then show ?thesis using assms(1) map_of_SomeD [OF Some] by (auto simp: mget_def)
  qed (use that in \<open>simp add: mget_def fval\<close>)
  have w: "finite_f64 (mget 0 current (nm_NodeID m)) \<and> canonical (mget 0 current (nm_NodeID m)) \<and>
      0 < val (mget 0 current (nm_NodeID m)) \<and> val (mget 0 current (nm_NodeID m)) \<le> p2 900"
    if "m \<in> set (weighted_nodes current ms)" for m
  proof -
    have p: "0 < mget 0 current (nm_NodeID m)" using that by (simp add: weighted_nodes_def)
    note g = moderateD [OF get [OF p]]
    show ?thesis using p g by (simp add: fval abs_le_iff)
  qed
  moreover have "length (weighted_nodes current ms) \<le> 2 ^ 20"
    using assms(2) length_filter_le [of "\<lambda>m. 0 < mget 0 current (nm_NodeID m)" ms]
    unfolding weighted_nodes_def by (rule order_trans [rotated])
  ultimately show ?thesis by (force simp: summands_def)
qed

lemma normalizedCurrent_eq:
  assumes "\<forall>p \<in> set current. moderate (snd p)" "length ms \<le> 2 ^ 20" "distinct (map nm_NodeID ms)" "fair_order it"
  shows "normalizedCurrent it current ms = current_shares current ms"
proof -
  let ?g = "\<lambda>m. mget 0 current (nm_NodeID m)"
  define ws where "ws = weighted_nodes current ms"
  define M where "M = map (\<lambda>x. (nm_NodeID x, ?g x)) ws"
  have d: "distinct (map nm_NodeID ws)" using assms(3) unfolding ws_def weighted_nodes_def by (rule distinct_map_filter)
  have "fold (\<lambda>x. AList.update (nm_NodeID x) (?g x)) ws [] = [] @ M"
    unfolding M_def using d by (intro fold_update_fresh) simp_all
  then have st: "fold (current_step current) ms ([], 0) = (M, fsum (map ?g ws))"
    unfolding current_fold ws_def [symmetric] fsum_def by simp
  note sm = weighted_summands [OF assms(1,2), folded ws_def]
  show ?thesis
  proof (cases "ws = []")
    case True
    have "fold (\<lambda>m. AList.update (nm_NodeID m) (1 / f64_of_int (int (length ms)))) ms [] =
        [] @ map (\<lambda>m. (nm_NodeID m, 1 / f64_of_int (int (length ms)))) ms"
      using assms(3) by (intro fold_update_fresh) simp_all
    then show ?thesis using st True
      by (simp add: normalizedCurrent_def current_shares_def Let_def ws_def [symmetric] M_def fsum_def fval scorer_steps)
  next
    case False
    then obtain x where x: "x \<in> set ws" by (cases ws) auto
    then have "val (?g x) \<le> val (fsum (map ?g ws))" using sm by (intro fsum_ge) simp_all
    then have "\<not> feq (fsum (map ?g ws)) 0" using sm x fsum_error [of "map ?g ws"] by (fastforce simp: fval)
    moreover have "wf_map M" using d by (simp add: M_def wf_map_def mkeys_def comp_def)
    then have "fold (\<lambda>k m. AList.update k (mget 0 m k / fsum (map ?g ws)) m) (it 1 (mkeys M)) M =
        map (\<lambda>p. (fst p, snd p / fsum (map ?g ws))) M"
      using fair_mset [OF assms(4)] by (intro fold_adjust_list)
    ultimately show ?thesis using False
      by (simp add: normalizedCurrent_def st current_shares_def Let_def ws_def [symmetric] scorer_steps) (simp add: M_def)
  qed
qed

lemma equal_share:
  assumes "1 \<le> n" "n \<le> 2 ^ 20"
  shows "between 0 1 (1 / f64_of_int (int n)) \<and> \<bar>real n * val (1 / f64_of_int (int n)) - 1\<bar> \<le> real n * p2 (-50)"
proof -
  have n: "1 \<le> real n" "real n \<le> 2 ^ 20" using assms real_le_2_20 by simp_all
  have r: "rnd (real n) = real n"
    using representable_of_int [of "int n"] assms(2) by (simp add: rnd_representable)
  have lt: "real n < ovf" using n ovf_big [of "real n"] by simp
  have d: "finite_f64 (f64_of_int (int n))" "val (f64_of_int (int n)) = real n"
    using f64_of_int_val [of "int n"] r lt by simp_all
  have q: "0 \<le> val 1 / val (f64_of_int (int n))" "val 1 / val (f64_of_int (int n)) \<le> 1" using d n by simp_all
  have v: "between 0 1 (1 / f64_of_int (int n))" "val (1 / f64_of_int (int n)) = rnd (1 / real n)"
    using divide_between [OF bound_01 finite_one d(1) _ q] d n by simp_all
  have "\<bar>rnd (1 / real n) - 1 / real n\<bar> \<le> urnd * (1 / real n) + eta" using rnd_error [of "1 / real n"] by simp
  also have "\<dots> \<le> urnd * 1 + urnd" using n urnd_pos(1) eta_le_urnd by (intro add_mono mult_left_mono) simp_all
  also have "\<dots> \<le> 8 * urnd" using urnd_pos(1) by simp
  also have "\<dots> = p2 (-50)" using p2_add [of "-53" 3] p2_nat [of 3] by (simp add: urnd_def)
  finally have "real n * \<bar>rnd (1 / real n) - 1 / real n\<bar> \<le> real n * p2 (-50)" by (intro mult_left_mono) simp_all
  moreover have "real n * \<bar>rnd (1 / real n) - 1 / real n\<bar> = \<bar>real n * (rnd (1 / real n) - 1 / real n)\<bar>"
    by (simp add: abs_mult)
  moreover have "real n * (rnd (1 / real n) - 1 / real n) = real n * rnd (1 / real n) - 1"
    using n by (simp add: algebra_simps)
  ultimately show ?thesis using v by simp
qed

lemma current_shares_ok:
  assumes "\<forall>p \<in> set current. moderate (snd p)" "length ms \<le> 2 ^ 20" "ms \<noteq> []" "distinct (map nm_NodeID ms)"
  shows "weights_ok (real (length ms) * p2 (-50)) (current_shares current ms)"
proof (cases "weighted_nodes current ms = []")
  case True
  then have m: "current_shares current ms = map (\<lambda>m. (nm_NodeID m, 1 / f64_of_int (int (length ms)))) ms"
    by (simp add: current_shares_def Let_def)
  have n: "1 \<le> length ms" using assms(3) by (simp add: Suc_le_eq)
  have "weight_total (current_shares current ms) = real (length ms) * val (1 / f64_of_int (int (length ms)))"
    unfolding m weight_total_def by (simp add: comp_def sum_list_triv)
  moreover have "wf_map (current_shares current ms)"
    unfolding m wf_map_def mkeys_def using assms(4) by (simp add: comp_def)
  ultimately show ?thesis using equal_share [OF n assms(2)] by (auto simp: weights_ok_def m)
next
  case False
  let ?g = "\<lambda>m. mget 0 current (nm_NodeID m)"
  define ws where "ws = weighted_nodes current ms"
  have d: "distinct (map nm_NodeID ws)"
    using assms(4) unfolding ws_def weighted_nodes_def by (rule distinct_map_filter)
  have m: "current_shares current ms = map (\<lambda>m. (nm_NodeID m, ?g m / fsum (map ?g ws))) ws"
    using False by (simp add: current_shares_def Let_def ws_def)
  have ok: "weights_ok (real (length ws) * p2 (-50)) (current_shares current ms)"
    unfolding m using weighted_summands [OF assms(1,2)] False d by (intro shares_ok) (simp_all add: ws_def)
  have "length ws \<le> length ms" by (simp add: ws_def weighted_nodes_def)
  then have "real (length ws) * p2 (-50) \<le> real (length ms) * p2 (-50)" by (intro mult_right_mono) simp_all
  then show ?thesis using ok unfolding weights_ok_def by linarith
qed

lemma current_shares_keys: "set (mkeys (current_shares current ms)) \<subseteq> nm_NodeID ` set ms"
  by (auto simp: current_shares_def Let_def mkeys_def weighted_nodes_def)

subsection \<open>The step towards the target\<close>

definition step_quotient :: "f64 \<Rightarrow> f64 gomap \<Rightarrow> f64 gomap \<Rightarrow> string \<Rightarrow> f64" where
  "step_quotient s target current k = s / \<bar>mget 0 target k - mget 0 current k\<bar>"

definition limit_step :: "f64 \<Rightarrow> f64 gomap \<Rightarrow> f64 gomap \<Rightarrow> string \<Rightarrow> f64 \<Rightarrow> f64" where
  "limit_step s target current k l =
     (if s < \<bar>mget 0 target k - mget 0 current k\<bar> then math_min l (step_quotient s target current k) else l)"

lemma step_lambda_eq:
  "step_lambda it c target current = fold (limit_step (pc_MaximumWeightStep c) target current) (it 3 (mkeys target)) 1"
  unfolding step_lambda_def scorer_steps limit_step_def [abs_def] step_quotient_def Let_def by (rule refl)

lemma step_quotient_between:
  assumes "weights_ok e target" "weights_ok e' current" "between 0 1 s" "s < \<bar>mget 0 target k - mget 0 current k\<bar>"
  shows "between 0 1 (step_quotient s target current k)"
proof -
  have m: "moving (mget 0 current k) (mget 0 target k) 1"
    using mget_between [OF assms(1)] mget_between [OF assms(2)] by (simp add: moving_def between_def)
  have s: "finite_f64 s" "0 \<le> val s" using assms(3) by (simp_all add: between_def)
  have f: "finite_f64 \<bar>mget 0 target k - mget 0 current k\<bar>" using gap_val(1) [OF m] by simp
  have lt: "val s < val \<bar>mget 0 target k - mget 0 current k\<bar>" using assms(4) s(1) f by (simp add: fval del: abs_simps)
  then have "0 \<le> val s / val \<bar>mget 0 target k - mget 0 current k\<bar>" "val s / val \<bar>mget 0 target k - mget 0 current k\<bar> \<le> 1"
    using s by simp_all
  then show ?thesis unfolding step_quotient_def
    using divide_between [OF bound_01 s(1) f] lt s(2) by (simp del: abs_simps)
qed

lemma limit_steps:
  assumes "weights_ok e target" "weights_ok e' current" "between 0 1 s" "between 0 1 l"
  shows "between 0 1 (fold (limit_step s target current) ks l) \<and> fold (limit_step s target current) ks l \<le> l \<and>
    (\<forall>k \<in> set ks. s < \<bar>mget 0 target k - mget 0 current k\<bar> \<longrightarrow>
       fold (limit_step s target current) ks l \<le> step_quotient s target current k)"
  using assms(4)
proof (induction ks arbitrary: l)
  case Nil
  then show ?case by (simp add: between_def fval)
next
  case (Cons k ks)
  let ?l = "limit_step s target current k l"
  let ?r = "fold (limit_step s target current) ks ?l"
  have l: "between 0 1 ?l \<and> ?l \<le> l \<and> (s < \<bar>mget 0 target k - mget 0 current k\<bar> \<longrightarrow> ?l \<le> step_quotient s target current k)"
  proof (cases "s < \<bar>mget 0 target k - mget 0 current k\<bar>")
    case True
    note q = step_quotient_between [OF assms(1-3) True]
    have "finite_f64 l" "finite_f64 (step_quotient s target current k)"
      using q Cons.prems by (simp_all add: between_def)
    then show ?thesis
      using True Cons.prems q math_min_val [of l "step_quotient s target current k"]
      by (simp add: limit_step_def between_def fval min_le_iff_disj)
  next
    case False
    then show ?thesis using Cons.prems by (simp add: limit_step_def between_def fval)
  qed
  note IH = Cons.IH [OF l [THEN conjunct1]]
  have fin: "finite_f64 ?r" "finite_f64 ?l" "finite_f64 l" using IH l Cons.prems by (simp_all add: between_def)
  have "?r \<le> step_quotient s target current k" if "s < \<bar>mget 0 target k - mget 0 current k\<bar>"
  proof -
    have "finite_f64 (step_quotient s target current k)"
      using step_quotient_between [OF assms(1-3) that] by (simp add: between_def)
    moreover have "?r \<le> ?l" "?l \<le> step_quotient s target current k" using IH l that by blast+
    ultimately show ?thesis using fin by (simp add: fval)
  qed
  moreover have "?r \<le> l" using IH l fin by (simp add: fval)
  ultimately show ?case using IH by simp
qed

lemma step_lambda_props:
  assumes "weights_ok e target" "weights_ok e' current" "unit_step c" "fair_order it"
  shows "between 0 1 (step_lambda it c target current)"
    and "k \<in> set (mkeys target) \<Longrightarrow> pc_MaximumWeightStep c < \<bar>mget 0 target k - mget 0 current k\<bar> \<Longrightarrow>
      step_lambda it c target current \<le> pc_MaximumWeightStep c / \<bar>mget 0 target k - mget 0 current k\<bar>"
proof -
  have s: "between 0 1 (pc_MaximumWeightStep c)"
    using assms(3) unfolding unit_step_def using unit_between by blast
  have 1: "between 0 1 1" by (simp add: between_def)
  note l = limit_steps [OF assms(1,2) s 1, of "it 3 (mkeys target)", folded step_lambda_eq]
  show "between 0 1 (step_lambda it c target current)" using l by blast
  show "step_lambda it c target current \<le> pc_MaximumWeightStep c / \<bar>mget 0 target k - mget 0 current k\<bar>"
    if "k \<in> set (mkeys target)" "pc_MaximumWeightStep c < \<bar>mget 0 target k - mget 0 current k\<bar>"
    using l that fair_set [OF assms(4)] unfolding step_quotient_def by blast
qed

subsection \<open>The proposed weights\<close>

lemma total_set: "wf_map m \<Longrightarrow> weight_total m = (\<Sum>k \<in> set (mkeys m). val (mget 0 m k))"
proof -
  assume wf: "wf_map m"
  have "weight_total m = sum_list (map (\<lambda>p. val (snd p)) (map (\<lambda>k. (k, the (map_of m k))) (mkeys m)))"
    unfolding wf_map_list [OF wf] weight_total_def ..
  also have "\<dots> = sum_list (map (\<lambda>k. val (the (map_of m k))) (mkeys m))" by (simp add: comp_def)
  also have "\<dots> = (\<Sum>k \<in> set (mkeys m). val (the (map_of m k)))"
    using wf by (intro sum_list_distinct_conv_sum_set) (simp add: wf_map_def)
  also have "\<dots> = (\<Sum>k \<in> set (mkeys m). val (mget 0 m k))"
  proof (rule sum.cong [OF refl])
    fix k assume "k \<in> set (mkeys m)"
    then have "k \<in> dom (map_of m)" unfolding set_mkeys .
    then obtain v where "map_of m k = Some v" by blast
    then show "val (the (map_of m k)) = val (mget 0 m k)" by (simp add: mget_def)
  qed
  finally show ?thesis .
qed

lemma total_super:
  assumes "wf_map m" "set (mkeys m) \<subseteq> A" "finite A" shows "weight_total m = (\<Sum>k \<in> A. val (mget 0 m k))"
proof -
  have "(\<Sum>k \<in> set (mkeys m). val (mget 0 m k)) = (\<Sum>k \<in> A. val (mget 0 m k))"
    using assms(2,3)
  proof (intro sum.mono_neutral_left ballI)
    fix k assume "k \<in> A - set (mkeys m)"
    then have "map_of m k = None" by (simp add: set_mkeys domIff)
    then show "val (mget 0 m k) = 0" by (simp add: mget_def)
  qed
  then show ?thesis using total_set [OF assms(1)] by simp
qed

definition moved :: "f64 \<Rightarrow> f64 gomap \<Rightarrow> f64 gomap \<Rightarrow> string \<Rightarrow> f64" where
  "moved l target current k = mget 0 current k + l * (mget 0 target k - mget 0 current k)"

lemma proposed_weights_eq:
  "proposed_weights it l target current = fold (\<lambda>k m. AList.update k (moved l target current k) m) (it 4 (mkeys target)) []"
  by (simp add: proposed_weights_def moved_def scorer_steps)

lemma proposed_map:
  assumes "fair_order it"
  shows "map_of (proposed_weights it l target current) k =
    (if k \<in> set (mkeys target) then Some (moved l target current k) else None)"
  using fair_set [OF assms] by (simp add: proposed_weights_eq map_of_fold_update)

lemma proposed_wf: "wf_map (proposed_weights it l target current)"
  by (simp add: proposed_weights_eq wf_fold_update)

lemma proposed_keys:
  "fair_order it \<Longrightarrow> set (mkeys (proposed_weights it l target current)) = set (mkeys target)"
  unfolding set_mkeys dom_def by (auto simp: proposed_map set_mkeys)

lemma moving_weights:
  assumes "weights_ok e target" "weights_ok e' current" "between 0 1 l"
  shows "moving (mget 0 current k) (mget 0 target k) l"
  using mget_between [OF assms(1)] mget_between [OF assms(2)] assms(3) by (simp add: moving_def)

lemma proposed_ok:
  assumes "weights_ok e target" "weights_ok e current" "between 0 1 l" "fair_order it"
    and "set (mkeys current) \<subseteq> set (mkeys target)"
  shows "weights_ok (e + real (length target) * (5 * urnd)) (proposed_weights it l target current)"
  unfolding weights_ok_def
proof (intro conjI ballI)
  let ?p = "proposed_weights it l target current"
  let ?A = "set (mkeys target)"
  note m = moving_weights [OF assms(1-3)]
  show "wf_map ?p" by (rule proposed_wf)
  show "between 0 1 (snd p)" "canonical (snd p)" if p: "p \<in> set ?p" for p
  proof -
    have "map_of ?p (fst p) = Some (snd p)" using proposed_wf p by (simp add: wf_map_def mkeys_def)
    then have v: "snd p = moved l target current (fst p)"
      unfolding proposed_map [OF assms(4)] by (simp split: if_splits)
    show "between 0 1 (snd p)" unfolding v moved_def by (rule moved_between [OF m])
    show "canonical (snd p)" unfolding v moved_def using movingD(2) [OF m] by simp
  qed
  have tt: "weight_total target = (\<Sum>k \<in> ?A. val (mget 0 target k))"
    using weights_okD(1) [OF assms(1)] by (intro total_super) simp_all
  have tc: "weight_total current = (\<Sum>k \<in> ?A. val (mget 0 current k))"
    using weights_okD(1) [OF assms(2)] assms(5) by (intro total_super) simp_all
  have tp: "weight_total ?p = (\<Sum>k \<in> ?A. val (moved l target current k))"
    unfolding total_set [OF proposed_wf] proposed_keys [OF assms(4)]
    by (intro sum.cong) (simp_all add: mget_def proposed_map [OF assms(4)])
  let ?exact = "\<lambda>k. val (mget 0 current k) + val l * (val (mget 0 target k) - val (mget 0 current k))"
  have "weight_total ?p - (\<Sum>k \<in> ?A. ?exact k) = (\<Sum>k \<in> ?A. val (moved l target current k) - ?exact k)"
    unfolding tp by (simp only: sum_subtractf)
  then have "\<bar>weight_total ?p - (\<Sum>k \<in> ?A. ?exact k)\<bar> \<le> (\<Sum>k \<in> ?A. \<bar>val (moved l target current k) - ?exact k\<bar>)"
    by (simp only: sum_abs)
  also have "\<dots> \<le> (\<Sum>k \<in> ?A. 5 * urnd)"
    unfolding moved_def by (intro sum_mono moved_error m)
  also have "\<dots> = real (length target) * (5 * urnd)"
    using weights_okD(1) [OF assms(1)] distinct_card [of "mkeys target"] by (simp add: wf_map_def mkeys_def)
  finally have err: "\<bar>weight_total ?p - (\<Sum>k \<in> ?A. ?exact k)\<bar> \<le> real (length target) * (5 * urnd)" .
  have "(\<Sum>k \<in> ?A. ?exact k) = weight_total current + val l * (weight_total target - weight_total current)"
    unfolding tt tc by (simp only: sum.distrib sum_distrib_left sum_subtractf [symmetric])
  then have "(\<Sum>k \<in> ?A. ?exact k) - 1 = (1 - val l) * (weight_total current - 1) + val l * (weight_total target - 1)"
    by (simp add: algebra_simps)
  moreover have "\<bar>(1 - val l) * (weight_total current - 1)\<bar> \<le> (1 - val l) * e" "\<bar>val l * (weight_total target - 1)\<bar> \<le> val l * e"
    using assms(3) weights_okD(3) [OF assms(1)] weights_okD(3) [OF assms(2)]
    by (auto simp: abs_mult between_def intro!: mult_left_mono)
  moreover have "(1 - val l) * e + val l * e = e" by (simp add: algebra_simps)
  ultimately have "\<bar>(\<Sum>k \<in> ?A. ?exact k) - 1\<bar> \<le> e" by linarith
  then show "\<bar>weight_total ?p - 1\<bar> \<le> e + real (length target) * (5 * urnd)" using err by linarith
qed

lemma margin_p2: "real n * p2 (-50) + real n * (5 * urnd) \<le> real n * p2 (-49)"
proof -
  have p: "p2 (-50) = 8 * urnd" "p2 (-49) = 16 * urnd"
    using p2_add [of "-53" 3] p2_nat [of 3] p2_add [of "-53" 4] p2_nat [of 4] by (simp_all add: urnd_def)
  show ?thesis unfolding p using urnd_pos(1) by simp
qed

lemma proposed_step:
  assumes "weights_ok e target" "weights_ok e' current" "unit_step c" "fair_order it" "k \<in> set (mkeys target)"
  shows "\<bar>val (moved (step_lambda it c target current) target current k) - val (mget 0 current k)\<bar>
    \<le> val (pc_MaximumWeightStep c) + p2 (-50)"
proof -
  have s: "between 0 1 (pc_MaximumWeightStep c)"
    using assms(3) unfolding unit_step_def using unit_between by blast
  note l = step_lambda_props [OF assms(1-4)]
  show ?thesis unfolding moved_def
    by (rule moved_step [OF moving_weights [OF assms(1,2) l(1)] s l(2) [OF assms(5)]])
qed

end
