(* ===== verification/Scoring_Props.thy ===== *)
theory Scoring_Props
  imports Scoring_Weights
begin

text \<open>
  The properties of \<open>Propose\<close>: its errors, its weights, its step, its evidence, and that the
  order in which Go visits maps does not show in its result.
\<close>

subsection \<open>The evidence loop\<close>

lemma evidence_step_fields [simp]:
  "pr_Current (evidence_step signals m r) = pr_Current r"
  "pr_Proposed (evidence_step signals m r) = pr_Proposed r"
  "pr_Evidence (evidence_step signals m r) = AList.update (nm_NodeID m) m (pr_Evidence r)"
  "pr_WindowStart (evidence_step signals m r) =
     (if is_zero_time (pr_WindowStart r) \<or> nm_WindowStart m < pr_WindowStart r then nm_WindowStart m else pr_WindowStart r)"
  "pr_WindowEnd (evidence_step signals m r) = max (pr_WindowEnd r) (nm_WindowEnd m)"
  "pr_ReasonCodes (evidence_step signals m r) =
     append_new (pr_ReasonCodes r) (case anomalous_signal signals (nm_NodeID m) of None \<Rightarrow> [] | Some s \<Rightarrow> sg_ReasonCodes s)"
  by (simp_all add: evidence_step_def Let_def scoring_appendUnique_def max_def split: option.split)

lemma evidence_fold:
  "pr_Current (fold (evidence_step signals) ms r) = pr_Current r"
  "pr_Proposed (fold (evidence_step signals) ms r) = pr_Proposed r"
  "pr_Evidence (fold (evidence_step signals) ms r) = fold (\<lambda>m. AList.update (nm_NodeID m) m) ms (pr_Evidence r)"
  "pr_WindowEnd (fold (evidence_step signals) ms r) = fold (\<lambda>m e. max e (nm_WindowEnd m)) ms (pr_WindowEnd r)"
  by (induction ms arbitrary: r) simp_all

lemma evidence_reasons:
  "set (pr_ReasonCodes (fold (evidence_step signals) ms r)) =
     set (pr_ReasonCodes r) \<union> (\<Union>m \<in> set ms. case anomalous_signal signals (nm_NodeID m) of None \<Rightarrow> {} | Some s \<Rightarrow> set (sg_ReasonCodes s))"
  "distinct (pr_ReasonCodes r) \<Longrightarrow> distinct (pr_ReasonCodes (fold (evidence_step signals) ms r))"
  by (induction ms arbitrary: r) (auto simp: distinct_append_new split: option.splits)

lemma window_end_fold: "fold (\<lambda>m e. max e (nm_WindowEnd m)) ms e = Max (insert e (nm_WindowEnd ` set ms))"
proof (induction ms arbitrary: e)
  case (Cons m ms)
  have "Max (insert (max a b) A) = Max (insert a (insert b A))" if "finite A" for a b :: int and A
    using that by (cases "A = {}") (simp_all add: max.assoc)
  then show ?case by (simp add: Cons)
qed simp

lemma window_start_fold:
  assumes "\<forall>m \<in> set ms. 0 < nm_WindowStart m" "0 < pr_WindowStart r"
  shows "pr_WindowStart (fold (evidence_step signals) ms r) = Min (insert (pr_WindowStart r) (nm_WindowStart ` set ms))"
  using assms
proof (induction ms arbitrary: r)
  case (Cons m ms)
  let ?r = "evidence_step signals m r"
  have s: "pr_WindowStart ?r = min (pr_WindowStart r) (nm_WindowStart m)"
    using Cons.prems(2) by (simp add: is_zero_time_def min_def)
  then have "0 < pr_WindowStart ?r" using Cons.prems by simp
  then have "pr_WindowStart (fold (evidence_step signals) ms ?r) = Min (insert (pr_WindowStart ?r) (nm_WindowStart ` set ms))"
    using Cons.prems by (intro Cons.IH) simp_all
  moreover have "Min (insert (min a b) A) = Min (insert a (insert b A))" if "finite A" for a b :: int and A
    using that by (cases "A = {}") (simp_all add: min.assoc)
  ultimately show ?case unfolding s by simp
qed simp

subsection \<open>What a proposal consists of\<close>

lemma Propose_Inr:
  assumes "fair_order it" "scorer_Propose it c now ms current signals = Inr p"
  defines "es \<equiv> eligible_metrics c now ms"
  shows "2 \<le> length es"
    and "pr_Current p = normalizedCurrent it current es"
    and "pr_Proposed p = proposed_weights it (step_lambda it c (targets es signals) (pr_Current p)) (targets es signals) (pr_Current p)"
    and "pr_Evidence p = map (\<lambda>m. (nm_NodeID m, m)) es"
    and "pr_Expected p = expectedDelta es (pr_Current p) (pr_Proposed p)"
    and "\<not> weightedPenalty es (pr_Current p) - weightedPenalty es (pr_Proposed p) < pc_BenefitMargin c"
    and "set (pr_ReasonCodes p) = {''BOUNDED_MULTI_OBJECTIVE_SCORE'', ''MAX_WEIGHT_STEP_OK'', ''CAPACITY_HEADROOM_OK''} \<union>
      (\<Union>m \<in> set es. case anomalous_signal signals (nm_NodeID m) of None \<Rightarrow> {} | Some s \<Rightarrow> set (sg_ReasonCodes s))"
    and "distinct (pr_ReasonCodes p)"
    and "pr_WindowEnd p = Max (insert 0 (nm_WindowEnd ` set es))"
    and "\<forall>m \<in> set es. 0 < nm_WindowStart m \<Longrightarrow> pr_WindowStart p = Min (nm_WindowStart ` set es)"
proof -
  have P: "\<not> length es < 2" "weigh it c es current signals = Inr p"
    using assms(2) unfolding Propose_eq [OF assms(1)] es_def by (simp_all split: if_splits)
  show "2 \<le> length es" using P(1) by simp
  have d: "distinct (map nm_NodeID es)" unfolding es_def by (rule eligible_distinct)
  note w = P(2) [unfolded weigh_def Let_def target_weights_eq [OF d assms(1)]]
  have nb: "\<not> weightedPenalty es (normalizedCurrent it current es) -
      weightedPenalty es (proposed_weights it (step_lambda it c (targets es signals) (normalizedCurrent it current es))
         (targets es signals) (normalizedCurrent it current es)) < pc_BenefitMargin c"
    using w by (auto split: if_splits)
  then have p: "p = (fold (evidence_step signals) es
                (empty_proposal (normalizedCurrent it current es)
                   (proposed_weights it (step_lambda it c (targets es signals) (normalizedCurrent it current es))
                    (targets es signals) (normalizedCurrent it current es))))
               \<lparr>pr_Expected := expectedDelta es (normalizedCurrent it current es)
                  (proposed_weights it (step_lambda it c (targets es signals) (normalizedCurrent it current es))
                    (targets es signals) (normalizedCurrent it current es))\<rparr>"
    using w by (auto split: if_splits)
  show cur: "pr_Current p = normalizedCurrent it current es" unfolding p by (simp add: empty_proposal_def evidence_fold)
  show pro: "pr_Proposed p = proposed_weights it (step_lambda it c (targets es signals) (pr_Current p)) (targets es signals) (pr_Current p)"
    unfolding cur unfolding p by (simp add: empty_proposal_def evidence_fold)
  show "pr_Expected p = expectedDelta es (pr_Current p) (pr_Proposed p)"
    unfolding pro unfolding cur unfolding p by simp
  show "\<not> weightedPenalty es (pr_Current p) - weightedPenalty es (pr_Proposed p) < pc_BenefitMargin c"
    unfolding pro unfolding cur by (rule nb)
  have "fold (\<lambda>m. AList.update (nm_NodeID m) m) es [] = [] @ map (\<lambda>m. (nm_NodeID m, m)) es"
    using d by (intro fold_update_fresh) simp_all
  then show "pr_Evidence p = map (\<lambda>m. (nm_NodeID m, m)) es" unfolding p by (simp add: empty_proposal_def evidence_fold)
  show "set (pr_ReasonCodes p) = {''BOUNDED_MULTI_OBJECTIVE_SCORE'', ''MAX_WEIGHT_STEP_OK'', ''CAPACITY_HEADROOM_OK''} \<union>
      (\<Union>m \<in> set es. case anomalous_signal signals (nm_NodeID m) of None \<Rightarrow> {} | Some s \<Rightarrow> set (sg_ReasonCodes s))"
    unfolding p by (simp add: empty_proposal_def evidence_reasons)
  show "distinct (pr_ReasonCodes p)" unfolding p by (simp add: empty_proposal_def evidence_reasons(2))
  show "pr_WindowEnd p = Max (insert 0 (nm_WindowEnd ` set es))" unfolding p by (simp add: empty_proposal_def evidence_fold window_end_fold)
  show "pr_WindowStart p = Min (nm_WindowStart ` set es)" if "\<forall>m \<in> set es. 0 < nm_WindowStart m"
  proof -
    obtain m ms' where es: "es = m # ms'" using P(1) by (cases es) auto
    then have "0 < nm_WindowStart m" "\<forall>m \<in> set ms'. 0 < nm_WindowStart m" using that by simp_all
    then show ?thesis unfolding p es by (simp add: empty_proposal_def window_start_fold is_zero_time_def)
  qed
qed

subsection \<open>Independence of the map order\<close>

lemma canonical_eqI:
  assumes "finite_f64 a" "finite_f64 b" "canonical a" "canonical b" "val a = val b" "signbit a = signbit b"
  shows "a = b"
proof (cases "a = NZero \<or> b = NZero")
  case True
  then have "val a = 0" "val b = 0" using assms(5) by auto
  then show ?thesis using assms by (cases a; cases b) (auto simp: val_Fin)
next
  case False
  then show ?thesis using assms by (intro plain_val_inj) (simp_all add: plain_def)
qed

text \<open>\<open>math.Min\<close> is the minimum of a linear order that puts the negative zero first.\<close>

definition num_le :: "f64 \<Rightarrow> f64 \<Rightarrow> bool" where
  "num_le a b \<longleftrightarrow> val a < val b \<or> val a = val b \<and> (signbit b \<longrightarrow> signbit a)"

lemma math_min_num_le:
  assumes "number a" "number b" shows "math_min a b = (if num_le a b then a else b)"
proof -
  have f: "finite_f64 a" "finite_f64 b" "canonical a" "canonical b" using assms by (simp_all add: number_def)
  note n = not_nan_inf [OF f(1)] not_nan_inf [OF f(2)]
  consider "val a < val b" | "val b < val a" | "val a = 0" "val b = 0" | "val a = val b" "val a \<noteq> 0" by linarith
  then show ?thesis
  proof cases
    case 3
    have "a = b" if "signbit a = signbit b" using canonical_eqI [OF f] 3 that by simp
    then show ?thesis using f n 3 by (auto simp: math_min_def num_le_def fval)
  next
    case 4
    have "a = b" using canonical_eqI [OF f 4(1)] signbit_val [OF f(1)] signbit_val [OF f(2)] 4 by simp
    then show ?thesis by (simp add: math_min_def num_le_def)
  qed (use f n in \<open>simp_all add: math_min_def num_le_def fval\<close>)
qed

lemma num_le_linear:
  "num_le a b \<or> num_le b a" "num_le a b \<Longrightarrow> num_le b c \<Longrightarrow> num_le a c"
  "number a \<Longrightarrow> number b \<Longrightarrow> num_le a b \<Longrightarrow> num_le b a \<Longrightarrow> a = b"
  using canonical_eqI [of a b] by (auto simp: num_le_def number_def)

lemma math_min_left_commute:
  assumes n: "number a" "number b" "number l"
  shows "math_min (math_min l a) b = math_min (math_min l b) a"
proof (cases "num_le l a"; cases "num_le l b")
  assume "num_le l a" "num_le l b"
  then show ?thesis using n by (simp add: math_min_num_le)
next
  assume c: "num_le l a" "\<not> num_le l b"
  then have "num_le b a" using num_le_linear(1) [of l b] num_le_linear(2) by blast
  then show ?thesis using c n by (simp add: math_min_num_le)
next
  assume c: "\<not> num_le l a" "num_le l b"
  then have "num_le a b" using num_le_linear(1) [of l a] num_le_linear(2) by blast
  then show ?thesis using c n by (simp add: math_min_num_le)
next
  assume c: "\<not> num_le l a" "\<not> num_le l b"
  have "(if num_le a b then a else b) = (if num_le b a then b else a)"
    using num_le_linear(1) [of a b] num_le_linear(3) [OF n(1,2)] by auto
  then show ?thesis using c n by (simp add: math_min_num_le)
qed

lemma limit_step_number:
  assumes "weights_ok e target" "weights_ok e' current" "between 0 1 s" "canonical s" "number l"
  shows "number (limit_step s target current k l)"
proof (cases "s < \<bar>mget 0 target k - mget 0 current k\<bar>")
  case True
  have "finite_f64 (step_quotient s target current k)"
    using step_quotient_between [OF assms(1-3) True] by (simp add: between_def)
  moreover have "canonical (step_quotient s target current k)"
    using assms(4) mget_between [OF assms(1)] mget_between [OF assms(2)] by (simp add: step_quotient_def)
  ultimately show ?thesis using assms(5) by (simp add: limit_step_def number_def math_min_val)
qed (use assms(5) in \<open>simp add: limit_step_def\<close>)

lemma limit_step_commute:
  assumes "weights_ok e target" "weights_ok e' current" "between 0 1 s" "canonical s" "number l"
  shows "limit_step s target current j (limit_step s target current k l) = limit_step s target current k (limit_step s target current j l)"
proof -
  have q: "number (step_quotient s target current k)" if "s < \<bar>mget 0 target k - mget 0 current k\<bar>" for k
    using step_quotient_between [OF assms(1-3) that] assms(4) mget_between [OF assms(1)] mget_between [OF assms(2)]
    by (simp add: number_def between_def step_quotient_def)
  show ?thesis using math_min_left_commute [OF q q assms(5), of k j] by (auto simp: limit_step_def)
qed

text \<open>A loop whose steps commute on the states it reaches does not depend on the order.\<close>

lemma fold_invariant_mset:
  assumes inv: "\<And>k l. P l \<Longrightarrow> P (f k l)" and com: "\<And>j k l. P l \<Longrightarrow> f j (f k l) = f k (f j l)"
    and "mset xs = mset ys" "P l"
  shows "fold f xs l = fold f ys l"
proof -
  define g where "g k l = (if P l then f k l else l)" for k l
  have fg: "fold f zs l = fold g zs l" if "P l" for zs l
    using that by (induction zs arbitrary: l) (simp_all add: g_def inv)
  have "g j \<circ> g k = g k \<circ> g j" for j k by (rule ext) (simp add: g_def inv com)
  then have "fold g xs = fold g ys" using assms(3) by (intro fold_multiset_equiv) simp_all
  then show ?thesis using fg [OF assms(4)] by simp
qed

lemma step_lambda_order:
  assumes "weights_ok e target" "weights_ok e' current" "unit_step c" "fair_order it" "fair_order it'"
  shows "step_lambda it c target current = step_lambda it' c target current"
proof -
  have s: "between 0 1 (pc_MaximumWeightStep c)" "canonical (pc_MaximumWeightStep c)"
    using assms(3) unfolding unit_step_def using unit_between by blast+
  show ?thesis unfolding step_lambda_eq
  proof (rule fold_invariant_mset [where P = number])
    show "mset (it 3 (mkeys target)) = mset (it' 3 (mkeys target))" by (simp add: fair_mset assms(4,5))
  qed (use limit_step_number [OF assms(1,2) s] limit_step_commute [OF assms(1,2) s] in \<open>simp_all add: number_def\<close>)
qed

lemma weighted_same_map:
  assumes "same_map m n"
  shows "weightedPenalty ms m = weightedPenalty ms n" "weighted_sum ms m f = weighted_sum ms n f"
  using same_map_mget [OF assms] by (simp_all add: weightedPenalty_def weighted_sum_def penalty_step_def [abs_def] weighted_step_def [abs_def])

lemma expectedDelta_same_map: "same_map m n \<Longrightarrow> expectedDelta ms cur m = expectedDelta ms cur n"
  by (simp add: expectedDelta_def weighted_same_map)

lemma evidence_fold_proposed:
  "fold (evidence_step signals) ms (r\<lparr>pr_Proposed := w\<rparr>) = (fold (evidence_step signals) ms r)\<lparr>pr_Proposed := w\<rparr>"
proof (induction ms arbitrary: r)
  case (Cons m ms)
  have "evidence_step signals m (r\<lparr>pr_Proposed := w\<rparr>) = (evidence_step signals m r)\<lparr>pr_Proposed := w\<rparr>"
    by (cases r) (simp add: evidence_step_def Let_def split: option.split)
  then show ?case by (simp add: Cons)
qed simp

subsection \<open>Bounded inputs of the eligible metrics\<close>

lemma eligible_moderate:
  assumes "moderate_inputs ms current signals"
  shows "\<forall>m \<in> set (eligible_metrics c now ms). moderate_metric m" "length (eligible_metrics c now ms) \<le> 2 ^ 20"
proof -
  let ?es = "eligible_metrics c now ms"
  have sub: "set ?es \<subseteq> set ms" using eligible_props(3) by blast
  show "\<forall>m \<in> set ?es. moderate_metric m"
    using assms sub by (auto simp: moderate_inputs_def)
  have "length ?es = card (set ?es)"
    using eligible_distinct [of c now ms] distinct_card [of ?es] by (simp add: distinct_map)
  also have "\<dots> \<le> card (set ms)" using sub by (intro card_mono) simp_all
  also have "\<dots> \<le> length ms" by (rule card_length)
  also have "\<dots> \<le> 2 ^ 20" using assms by (simp add: moderate_inputs_def)
  finally show "length ?es \<le> 2 ^ 20" .
qed

lemma eligible_weights:
  assumes "moderate_inputs ms current signals" "eligible_metrics c now ms \<noteq> []" "fair_order it"
  defines "es \<equiv> eligible_metrics c now ms"
  shows "weights_ok (real (length es) * p2 (-50)) (targets es signals)"
    "weights_ok (real (length es) * p2 (-50)) (current_shares current es)"
    "normalizedCurrent it current es = current_shares current es"
    "set (mkeys (current_shares current es)) \<subseteq> set (mkeys (targets es signals))"
proof -
  note m = eligible_moderate [OF assms(1), of c now, folded es_def]
  have w: "\<forall>p \<in> set current. moderate (snd p)" "\<forall>p \<in> set signals. unit_severity (snd p)"
    using assms(1) by (simp_all add: moderate_inputs_def)
  have d: "distinct (map nm_NodeID es)" unfolding es_def by (rule eligible_distinct)
  have ne: "es \<noteq> []" using assms(2) by (simp add: es_def)
  show "weights_ok (real (length es) * p2 (-50)) (targets es signals)" using m(1) w(2) m(2) ne d by (rule targets_ok)
  show "weights_ok (real (length es) * p2 (-50)) (current_shares current es)" using w(1) m(2) ne d by (rule current_shares_ok)
  show "normalizedCurrent it current es = current_shares current es" using w(1) m(2) d assms(3) by (rule normalizedCurrent_eq)
  show "set (mkeys (current_shares current es)) \<subseteq> set (mkeys (targets es signals))"
    using current_shares_keys [of current es] by (simp add: mkeys_targets)
qed

subsection \<open>The interface of the scorer\<close>

text \<open>
  \<open>WeightScorer\<close> of \<open>internal/app/service.go\<close>: the one operation the service calls, with what
  it relies on of a successful result.
\<close>

locale weight_scorer =
  fixes propose :: "range_order \<Rightarrow> instant \<Rightarrow> node_metric list \<Rightarrow> f64 gomap \<Rightarrow> signal gomap \<Rightarrow> 'e + proposal"
  assumes evidence_known: "fair_order it \<Longrightarrow> propose it now ms current signals = Inr p \<Longrightarrow>
      (n, m) \<in> set (pr_Evidence p) \<Longrightarrow> m \<in> set ms \<and> nm_NodeID m = n"
    and evidence_wf: "fair_order it \<Longrightarrow> propose it now ms current signals = Inr p \<Longrightarrow> wf_map (pr_Evidence p)"
    and evidence_two: "fair_order it \<Longrightarrow> propose it now ms current signals = Inr p \<Longrightarrow> 2 \<le> length (pr_Evidence p)"
    and proposed_evidence: "fair_order it \<Longrightarrow> propose it now ms current signals = Inr p \<Longrightarrow>
      set (mkeys (pr_Proposed p)) = set (mkeys (pr_Evidence p))"
    and reasons_distinct: "fair_order it \<Longrightarrow> propose it now ms current signals = Inr p \<Longrightarrow> distinct (pr_ReasonCodes p)"
begin

lemma proposed_known:
  assumes "fair_order it" "propose it now ms current signals = Inr p" "n \<in> set (mkeys (pr_Proposed p))"
  shows "\<exists>m \<in> set ms. nm_NodeID m = n"
proof -
  obtain m where "(n, m) \<in> set (pr_Evidence p)"
    using proposed_evidence [OF assms(1,2)] assms(3) by (auto simp: mkeys_def)
  then show ?thesis using evidence_known [OF assms(1,2)] by blast
qed

lemma two_nodes:
  assumes "fair_order it" "propose it now ms current signals = Inr p"
  shows "2 \<le> card (set (mkeys (pr_Proposed p)))"
proof -
  have "card (set (mkeys (pr_Evidence p))) = length (pr_Evidence p)"
    using evidence_wf [OF assms] distinct_card [of "mkeys (pr_Evidence p)"] by (simp add: wf_map_def mkeys_def)
  then show ?thesis using evidence_two [OF assms] proposed_evidence [OF assms] by simp
qed

lemma no_proposal_below_two:
  assumes "fair_order it" "card (nm_NodeID ` set ms) < 2"
  shows "\<exists>e. propose it now ms current signals = Inl e"
proof (cases "propose it now ms current signals")
  case (Inr p)
  have "set (mkeys (pr_Proposed p)) \<subseteq> nm_NodeID ` set ms" using proposed_known [OF assms(1) Inr] by auto
  then have "card (set (mkeys (pr_Proposed p))) \<le> card (nm_NodeID ` set ms)" by (intro card_mono) simp_all
  then show ?thesis using two_nodes [OF assms(1) Inr] assms(2) by simp
qed simp

end

lemma Propose_keys:
  assumes "fair_order it" "scorer_Propose it c now ms current signals = Inr p"
  shows "set (mkeys (pr_Proposed p)) = nm_NodeID ` set (eligible_metrics c now ms)"
    "mkeys (pr_Evidence p) = map nm_NodeID (eligible_metrics c now ms)"
proof -
  show "set (mkeys (pr_Proposed p)) = nm_NodeID ` set (eligible_metrics c now ms)"
    unfolding Propose_Inr(3) [OF assms] proposed_keys [OF assms(1)] mkeys_targets by simp
  show "mkeys (pr_Evidence p) = map nm_NodeID (eligible_metrics c now ms)"
    unfolding Propose_Inr(4) [OF assms] by (simp add: mkeys_def comp_def)
qed

interpretation scorer: weight_scorer "\<lambda>it now ms current signals. scorer_Propose it c now ms current signals" for c
proof unfold_locales
  fix it now ms current signals p n m
  assume p: "fair_order it" "scorer_Propose it c now ms current signals = Inr p"
  show "wf_map (pr_Evidence p)" using Propose_keys(2) [OF p] eligible_distinct [of c now ms] by (simp add: wf_map_def)
  show "2 \<le> length (pr_Evidence p)" using Propose_Inr(1,4) [OF p] by simp
  show "set (mkeys (pr_Proposed p)) = set (mkeys (pr_Evidence p))" using Propose_keys [OF p] by simp
  show "distinct (pr_ReasonCodes p)" using Propose_Inr(8) [OF p] .
  show "m \<in> set ms \<and> nm_NodeID m = n" if "(n, m) \<in> set (pr_Evidence p)"
    using that eligible_props(3) [of m c now ms] Propose_Inr(4) [OF p] by auto
qed

subsection \<open>Properties\<close>

definition sample_scorer_config :: scorer_config where
  "sample_scorer_config = \<lparr>pc_MinimumSamples = 100, pc_StaleAfter = 120 * second, pc_FutureTolerance = 5 * second,
     pc_SaturationLimit = lit 85 2, pc_MaximumWeightStep = lit 20 2, pc_BenefitMargin = lit 1 4\<rparr>"

definition sample_weights :: "f64 gomap" where
  "sample_weights = [(''edge-a'', lit 1 0 / lit 3 0), (''edge-b'', lit 1 0 / lit 3 0), (''edge-c'', lit 1 0 / lit 3 0)]"

definition sample_signals :: "signal gomap" where
  "sample_signals = [(''edge-a'', zero_signal\<lparr>sg_NodeID := ''edge-a'', sg_Anomalous := True, sg_Severity := 1,
     sg_ReasonCodes := [''EWMA_MAD_LATENCY_ANOMALY'']\<rparr>)]"

definition sample_propose :: "range_order \<Rightarrow> scoring_error + proposal" where
  "sample_propose it = scorer_Propose it sample_scorer_config sample_now sample_history sample_weights sample_signals"

lemma sample_propose_Inr: "\<exists>p. sample_propose insertion_order = Inr p"
proof -
  have "\<not> isl (sample_propose insertion_order)" by code_simp
  then show ?thesis by (cases "sample_propose insertion_order") auto
qed

lemma sample_moderate: "moderate_inputs sample_history sample_weights sample_signals" "unit_step sample_scorer_config"
  by code_simp+

text \<open>C5: Which error \<open>Propose\<close> returns before it weighs anything: \<open>ErrFutureMetrics\<close> exactly when
  there are metrics and the latest of every node lies in the future, \<open>ErrStaleMetrics\<close> exactly when
  all of them are stale, \<open>ErrInsufficientCandidates\<close> exactly in the remaining cases with fewer than
  two eligible nodes. A proposal therefore needs two eligible nodes.\<close>

theorem propose_guard_errors:
  assumes "fair_order it"
  shows "(scorer_Propose it c now ms current signals = Inl ErrFutureMetrics \<longleftrightarrow>
      latest_list ms \<noteq> [] \<and> (\<forall>m \<in> set (latest_list ms). is_future c now m)) \<and>
    (scorer_Propose it c now ms current signals = Inl ErrStaleMetrics \<longleftrightarrow>
      latest_list ms \<noteq> [] \<and> (\<forall>m \<in> set (latest_list ms). is_stale c now m)) \<and>
    (scorer_Propose it c now ms current signals = Inl ErrInsufficientCandidates \<longleftrightarrow>
      length (eligible_metrics c now ms) < 2 \<and>
      (latest_list ms = [] \<or> (\<exists>m \<in> set (latest_list ms). \<not> is_future c now m) \<and> (\<exists>m \<in> set (latest_list ms). \<not> is_stale c now m)))"
proof -
  let ?l = "latest_list ms"
  have few: "length (eligible_metrics c now ms) < 2"
    if "(\<forall>m \<in> set ?l. is_future c now m) \<or> (\<forall>m \<in> set ?l. is_stale c now m)"
  proof -
    have "filter (is_eligible c now) ?l = []" using that by (auto simp: filter_empty_conv is_eligible_def)
    then show ?thesis by (simp add: eligible_metrics_def)
  qed
  have w: "weigh it c es current signals \<notin> {Inl ErrFutureMetrics, Inl ErrStaleMetrics, Inl ErrInsufficientCandidates}" for es
    by (simp add: weigh_def Let_def)
  have excl: "\<not> ((\<forall>m \<in> set ?l. is_future c now m) \<and> (\<forall>m \<in> set ?l. is_stale c now m))" if "?l \<noteq> []"
    using that by (cases ?l) (auto simp: is_stale_def)
  show ?thesis
  proof (cases "length (eligible_metrics c now ms) < 2")
    case True
    then show ?thesis using excl unfolding Propose_eq [OF assms] guard_error_def by auto
  next
    case False
    then show ?thesis using few w [of "eligible_metrics c now ms"] unfolding Propose_eq [OF assms] by auto
  qed
qed

theorem propose_guard_errors_witness:
  "scorer_Propose (\<lambda>n. rev) sample_scorer_config (time_add sample_now (300 * second)) sample_history [] [] = Inl ErrStaleMetrics"
proof -
  have "fair_order (\<lambda>n. rev)" by (simp add: fair_order_def)
  moreover have "latest_list sample_history \<noteq> [] \<and>
      (\<forall>m \<in> set (latest_list sample_history). is_stale sample_scorer_config (time_add sample_now (300 * second)) m)"
    by code_simp
  ultimately show ?thesis using propose_guard_errors by blast
qed

text \<open>C3: A proposal only ever weighs nodes with current evidence: its \<open>Proposed\<close> weights and its
  evidence name the same nodes, at least two; the evidence of each is a metric of the input, the
  latest of its node, and it is healthy, has enough requests, is below the saturation limit, and is
  neither stale nor from the future.\<close>

theorem proposal_evidence:
  assumes "fair_order it" "scorer_Propose it c now ms current signals = Inr p"
  shows "set (mkeys (pr_Proposed p)) = set (mkeys (pr_Evidence p)) \<and> 2 \<le> card (set (mkeys (pr_Proposed p))) \<and>
    (\<forall>(n, m) \<in> set (pr_Evidence p). nm_NodeID m = n \<and> is_latest ms m \<and> nm_Healthy m \<and>
       pc_MinimumSamples c \<le> nm_Requests m \<and> \<not> pc_SaturationLimit c \<le> nm_Saturation m \<and>
       nm_WindowEnd m \<le> time_add now (pc_FutureTolerance c) \<and>
       sint (time_sub now (nm_WindowEnd m)) \<le> sint (pc_StaleAfter c))"
proof -
  have e: "nm_NodeID m = n \<and> is_latest ms m \<and> is_eligible c now m" if "(n, m) \<in> set (pr_Evidence p)" for n m
    using that eligible_props(1,2) unfolding Propose_Inr(4) [OF assms] by auto
  show ?thesis
    using scorer.two_nodes [OF assms] scorer.proposed_evidence [OF assms] e
    by (fastforce simp: is_eligible_def is_future_def is_stale_def)
qed

theorem proposal_evidence_witness:
  "\<exists>p. sample_propose insertion_order = Inr p \<and> 2 \<le> card (set (mkeys (pr_Proposed p)))"
  using sample_propose_Inr proposal_evidence [OF fair_insertion_order] unfolding sample_propose_def by blast

text \<open>C1: The weights of a proposal. On bounded inputs both \<open>Current\<close> and \<open>Proposed\<close> consist of finite
  weights in the unit interval; the current weights add up to 1 within \<open>n * 2^-50\<close> and the proposed
  weights within \<open>n * 2^-49\<close>, where \<open>n\<close> is the number of eligible nodes.\<close>

theorem proposal_weights_sum_to_one:
  assumes "fair_order it" "moderate_inputs ms current signals" "unit_step c"
    and "scorer_Propose it c now ms current signals = Inr p"
  shows "weights_ok (real (length (pr_Evidence p)) * p2 (-50)) (pr_Current p) \<and>
    weights_ok (real (length (pr_Evidence p)) * p2 (-49)) (pr_Proposed p)"
proof -
  let ?es = "eligible_metrics c now ms"
  note P = Propose_Inr [OF assms(1,4)]
  have ne: "?es \<noteq> []" using P(1) by auto
  note W = eligible_weights [OF assms(2) ne assms(1)]
  have len: "length (pr_Evidence p) = length ?es" "length (targets ?es signals) = length ?es"
    using P(4) by (simp_all add: targets_def)
  have cur: "pr_Current p = current_shares current ?es" using P(2) W(3) by simp
  have l: "between 0 1 (step_lambda it c (targets ?es signals) (pr_Current p))"
    unfolding cur by (rule step_lambda_props(1) [OF W(1,2) assms(3,1)])
  have "weights_ok (real (length ?es) * p2 (-50) + real (length ?es) * (5 * urnd)) (pr_Proposed p)"
    using proposed_ok [OF W(1,2) l assms(1) W(4)] P(3) len(2) cur by simp
  then have "weights_ok (real (length ?es) * p2 (-49)) (pr_Proposed p)"
    using margin_p2 [of "length ?es"] unfolding weights_ok_def by linarith
  then show ?thesis using W(2) cur len by simp
qed

theorem proposal_weights_sum_to_one_witness:
  "\<exists>p. sample_propose insertion_order = Inr p \<and> weights_ok (real (length (pr_Evidence p)) * p2 (-49)) (pr_Proposed p)"
  using sample_propose_Inr proposal_weights_sum_to_one [OF fair_insertion_order sample_moderate]
  unfolding sample_propose_def by blast

text \<open>C2: No weight moves further than the maximal step: for every node of the proposal the
  difference between proposed and current weight is at most \<open>MaximumWeightStep\<close>, up to \<open>2^-50\<close>
  for rounding. This is what the reason code \<open>MAX_WEIGHT_STEP_OK\<close> asserts.\<close>

theorem proposal_respects_step:
  assumes "fair_order it" "moderate_inputs ms current signals" "unit_step c"
    and "scorer_Propose it c now ms current signals = Inr p" "n \<in> set (mkeys (pr_Proposed p))"
  shows "\<bar>val (mget 0 (pr_Proposed p) n) - val (mget 0 (pr_Current p) n)\<bar> \<le> val (pc_MaximumWeightStep c) + p2 (-50)"
proof -
  let ?es = "eligible_metrics c now ms"
  note P = Propose_Inr [OF assms(1,4)]
  have ne: "?es \<noteq> []" using P(1) by auto
  note W = eligible_weights [OF assms(2) ne assms(1)]
  have cur: "pr_Current p = current_shares current ?es" using P(2) W(3) by simp
  have n: "n \<in> set (mkeys (targets ?es signals))"
    using assms(5) unfolding P(3) proposed_keys [OF assms(1)] .
  then have "mget 0 (pr_Proposed p) n =
      moved (step_lambda it c (targets ?es signals) (pr_Current p)) (targets ?es signals) (pr_Current p) n"
    unfolding P(3) by (simp add: mget_def proposed_map [OF assms(1)])
  then show ?thesis using proposed_step [OF W(1,2) assms(3,1) n] cur by simp
qed

theorem proposal_respects_step_witness:
  "\<exists>p. sample_propose insertion_order = Inr p \<and>
     \<bar>val (mget 0 (pr_Proposed p) ''edge-a'') - val (mget 0 (pr_Current p) ''edge-a'')\<bar> \<le> val (lit 20 2) + p2 (-50)"
proof -
  obtain p where p: "sample_propose insertion_order = Inr p" using sample_propose_Inr by blast
  have "''edge-a'' \<in> nm_NodeID ` set (eligible_metrics sample_scorer_config sample_now sample_history)" by code_simp
  then have "''edge-a'' \<in> set (mkeys (pr_Proposed p))"
    using Propose_keys(1) [OF fair_insertion_order p [unfolded sample_propose_def]] by simp
  then show ?thesis
    using proposal_respects_step [OF fair_insertion_order sample_moderate p [unfolded sample_propose_def]] p
    by (auto simp: sample_scorer_config_def)
qed

text \<open>C8: The current weights are the request's positive weights of the eligible nodes, each divided
  by their sum, and equal shares when there are none. A node without a positive weight is in
  \<open>Proposed\<close> but not in \<open>Current\<close>.\<close>

theorem proposal_current_weights:
  assumes "fair_order it" "moderate_inputs ms current signals"
    and "scorer_Propose it c now ms current signals = Inr p"
  shows "pr_Current p = current_shares current (eligible_metrics c now ms) \<and>
    ((\<exists>m \<in> set (eligible_metrics c now ms). 0 < mget 0 current (nm_NodeID m)) \<longrightarrow>
       set (mkeys (pr_Current p)) = {n \<in> set (mkeys (pr_Proposed p)). 0 < mget 0 current n})"
proof -
  let ?es = "eligible_metrics c now ms"
  note P = Propose_Inr [OF assms(1,3)]
  have ne: "?es \<noteq> []" using P(1) by auto
  have cur: "pr_Current p = current_shares current ?es"
    using P(2) eligible_weights(3) [OF assms(2) ne assms(1)] by simp
  have "set (mkeys (current_shares current ?es)) = {n \<in> nm_NodeID ` set ?es. 0 < mget 0 current n}"
    if "\<exists>m \<in> set ?es. 0 < mget 0 current (nm_NodeID m)"
  proof -
    have "weighted_nodes current ?es \<noteq> []" using that by (auto simp: weighted_nodes_def filter_empty_conv)
    then show ?thesis by (auto simp: current_shares_def Let_def mkeys_def weighted_nodes_def)
  qed
  then show ?thesis using cur Propose_keys(1) [OF assms(1,3)] by simp
qed

theorem proposal_current_weights_witness:
  "\<exists>p. sample_propose insertion_order = Inr p \<and>
     pr_Current p = current_shares sample_weights (eligible_metrics sample_scorer_config sample_now sample_history)"
  using sample_propose_Inr proposal_current_weights [OF fair_insertion_order sample_moderate(1)]
  unfolding sample_propose_def by blast

text \<open>C6: A proposal is only made when it is worth it: the penalty of the proposed weights is below
  that of the current weights by the benefit margin, the expected deltas are those of these two
  maps, and with two eligible nodes the only error left is \<open>ErrNoMaterialBenefit\<close>.\<close>

theorem proposal_has_benefit:
  assumes "fair_order it" "2 \<le> length (eligible_metrics c now ms)"
  shows "case scorer_Propose it c now ms current signals of
      Inl e \<Rightarrow> e = ErrNoMaterialBenefit
    | Inr p \<Rightarrow> \<not> weightedPenalty (eligible_metrics c now ms) (pr_Current p) -
          weightedPenalty (eligible_metrics c now ms) (pr_Proposed p) < pc_BenefitMargin c \<and>
        pr_Expected p = expectedDelta (eligible_metrics c now ms) (pr_Current p) (pr_Proposed p)"
proof (cases "scorer_Propose it c now ms current signals")
  case (Inl e)
  then show ?thesis using assms(2) unfolding Propose_eq [OF assms(1)] weigh_def Let_def by (simp split: if_splits)
next
  case (Inr p)
  then show ?thesis using Propose_Inr(5,6) [OF assms(1) Inr] by simp
qed

theorem proposal_has_benefit_witness:
  "\<exists>p. sample_propose insertion_order = Inr p \<and>
     pr_Expected p = expectedDelta (eligible_metrics sample_scorer_config sample_now sample_history) (pr_Current p) (pr_Proposed p)"
proof -
  obtain p where p: "sample_propose insertion_order = Inr p" using sample_propose_Inr by blast
  note P = Propose_Inr(1) [OF fair_insertion_order p [unfolded sample_propose_def]]
  show ?thesis using proposal_has_benefit [OF fair_insertion_order P, of sample_weights sample_signals] p
    by (simp add: sample_propose_def)
qed

text \<open>C7: The explanation of a proposal: its evidence is exactly the eligible metrics, its window
  spans them, its reason codes are the three guardrail codes and the reasons of the anomalous
  nodes among them, without repetition.\<close>

theorem proposal_explanation:
  assumes "fair_order it" "scorer_Propose it c now ms current signals = Inr p"
    and "\<forall>m \<in> set ms. 0 < nm_WindowStart m"
  shows "pr_Evidence p = map (\<lambda>m. (nm_NodeID m, m)) (eligible_metrics c now ms) \<and>
    pr_WindowStart p = Min (nm_WindowStart ` set (eligible_metrics c now ms)) \<and>
    pr_WindowEnd p = Max (insert 0 (nm_WindowEnd ` set (eligible_metrics c now ms))) \<and>
    distinct (pr_ReasonCodes p) \<and>
    set (pr_ReasonCodes p) = {''BOUNDED_MULTI_OBJECTIVE_SCORE'', ''MAX_WEIGHT_STEP_OK'', ''CAPACITY_HEADROOM_OK''} \<union>
      (\<Union>m \<in> set (eligible_metrics c now ms).
         case anomalous_signal signals (nm_NodeID m) of None \<Rightarrow> {} | Some s \<Rightarrow> set (sg_ReasonCodes s))"
proof -
  have "\<forall>m \<in> set (eligible_metrics c now ms). 0 < nm_WindowStart m" using assms(3) eligible_props(3) by blast
  then show ?thesis using Propose_Inr(4,7-10) [OF assms(1,2)] by blast
qed

theorem proposal_explanation_witness:
  "\<exists>p. sample_propose insertion_order = Inr p \<and> distinct (pr_ReasonCodes p) \<and>
     pr_WindowStart p = Min (nm_WindowStart ` set (eligible_metrics sample_scorer_config sample_now sample_history))"
proof -
  have pos: "\<forall>m \<in> set sample_history. 0 < nm_WindowStart m" by code_simp
  show ?thesis using sample_propose_Inr proposal_explanation [OF fair_insertion_order _ pos]
    unfolding sample_propose_def by blast
qed

text \<open>C4: The order in which Go ranges over its maps does not show in a proposal: on bounded inputs
  two fair orders give the same error or proposals that agree in every field, the proposed weights
  as maps.\<close>

definition same_proposal :: "scoring_error + proposal \<Rightarrow> scoring_error + proposal \<Rightarrow> bool" where
  "same_proposal a b \<longleftrightarrow>
     (case (a, b) of
        (Inl e, Inl e') \<Rightarrow> e = e'
      | (Inr p, Inr q) \<Rightarrow> same_map (pr_Proposed p) (pr_Proposed q) \<and> q = p\<lparr>pr_Proposed := pr_Proposed q\<rparr>
      | _ \<Rightarrow> False)"

theorem proposal_order_independent:
  assumes "fair_order it" "fair_order it'" "moderate_inputs ms current signals" "unit_step c"
  shows "same_proposal (scorer_Propose it c now ms current signals) (scorer_Propose it' c now ms current signals)"
proof (cases "length (eligible_metrics c now ms) < 2")
  case True
  then show ?thesis using assms(1,2) by (simp add: Propose_eq same_proposal_def)
next
  case False
  let ?es = "eligible_metrics c now ms"
  have ne: "?es \<noteq> []" using False by auto
  have d: "distinct (map nm_NodeID ?es)" by (rule eligible_distinct)
  note W = eligible_weights [OF assms(3) ne assms(1)]
  let ?cur = "current_shares current ?es"
  let ?t = "targets ?es signals"
  let ?p = "proposed_weights it (step_lambda it c ?t ?cur) ?t ?cur"
  let ?q = "proposed_weights it' (step_lambda it' c ?t ?cur) ?t ?cur"
  have "step_lambda it c ?t ?cur = step_lambda it' c ?t ?cur" using step_lambda_order [OF W(1,2) assms(4,1,2)] .
  then have same: "same_map ?p ?q" by (simp add: same_map_def fun_eq_iff proposed_map assms(1,2))
  have w: "weigh it c ?es current signals =
      (if weightedPenalty ?es ?cur - weightedPenalty ?es ?p < pc_BenefitMargin c then Inl ErrNoMaterialBenefit
       else Inr ((fold (evidence_step signals) ?es (empty_proposal ?cur ?p))\<lparr>pr_Expected := expectedDelta ?es ?cur ?p\<rparr>))"
    by (simp only: weigh_def Let_def W(3) target_weights_eq [OF d assms(1)])
  have w': "weigh it' c ?es current signals =
      (if weightedPenalty ?es ?cur - weightedPenalty ?es ?q < pc_BenefitMargin c then Inl ErrNoMaterialBenefit
       else Inr ((fold (evidence_step signals) ?es (empty_proposal ?cur ?q))\<lparr>pr_Expected := expectedDelta ?es ?cur ?q\<rparr>))"
    by (simp only: weigh_def Let_def eligible_weights(3) [OF assms(3) ne assms(2)] target_weights_eq [OF d assms(2)])
  have e: "empty_proposal ?cur ?q = (empty_proposal ?cur ?p)\<lparr>pr_Proposed := ?q\<rparr>" by (simp add: empty_proposal_def)
  show ?thesis
    using False unfolding Propose_eq [OF assms(1)] Propose_eq [OF assms(2)] w w' e evidence_fold_proposed
    by (simp add: same_proposal_def weighted_same_map(1) [OF same] expectedDelta_same_map [OF same] evidence_fold
        empty_proposal_def same)
qed

theorem proposal_order_independent_witness:
  "same_proposal (sample_propose insertion_order) (sample_propose (\<lambda>n. rev))"
proof -
  have "fair_order (\<lambda>n. rev)" by (simp add: fair_order_def)
  then show ?thesis unfolding sample_propose_def
    using proposal_order_independent [OF fair_insertion_order _ sample_moderate] by blast
qed

end
