(* ===== verification/Detection.thy ===== *)
theory Detection
  imports Samples
begin

text \<open>
  \<open>internal/detection/detector.go\<close>: the fixed rule and the EWMA / rolling median / MAD
  detector. Definitions follow the file from the helpers up to \<open>Evaluate\<close>; lemmas follow the
  definitions.
\<close>

record detector_config =
  dc_MinimumSamples :: u64
  dc_MinimumHistory :: int
  dc_EWMAAlpha :: f64
  dc_ErrorThreshold :: f64
  dc_LatencyMultiple :: f64
  dc_RobustZThreshold :: f64

subsection \<open>Statistics\<close>

definition clamp01 :: "f64 \<Rightarrow> f64" where
  "clamp01 value = math_max 0 (math_min 1 value)"

fun appendUnique :: "string list \<Rightarrow> string \<Rightarrow> string list" where
  "appendUnique values value = (if value \<in> set values then values else values @ [value])"

definition median :: "f64 list \<Rightarrow> f64" where
  "median values =
     (if values = [] then 0
      else let s = sort_floats values; middle = length s div 2
           in if length s mod 2 = 0 then (s ! (middle - 1) + s ! middle) / lit 2 0 else s ! middle)"

definition metricValues :: "node_metric list \<Rightarrow> (node_metric \<Rightarrow> f64) \<Rightarrow> f64 list" where
  "metricValues metrics value = map value metrics"

definition robustZ :: "f64 \<Rightarrow> f64 list \<Rightarrow> f64" where
  "robustZ value history =
     (if history = [] then 0
      else let center = median history;
               deviations = map (\<lambda>sample. \<bar>sample - center\<bar>) history;
               mad = median deviations
           in if mad < lit 1 9
              then (if \<bar>value - center\<bar> < lit 1 9 then 0 else PInf)
              else \<bar>lit 6745 4 * (value - center) / mad\<bar>)"

fun ewma_loop :: "f64 \<Rightarrow> f64 \<Rightarrow> f64 list \<Rightarrow> f64 list \<Rightarrow> f64" where
  "ewma_loop alpha baseline accepted [] = baseline"
| "ewma_loop alpha baseline accepted (value # values) =
     (let z = \<bar>robustZ value accepted\<bar>
      in if z \<le> lit 4 0 \<or> length accepted < 5
         then ewma_loop alpha (alpha * value + (1 - alpha) * baseline) (accepted @ [value]) values
         else ewma_loop alpha baseline accepted values)"

fun frozenEWMA :: "f64 list \<Rightarrow> f64 \<Rightarrow> f64" where
  "frozenEWMA [] alpha = 0"
| "frozenEWMA (v # values) alpha = ewma_loop alpha v [v] values"

subsection \<open>Evaluate\<close>

definition group_metric :: "node_metric \<Rightarrow> node_metric list gomap \<Rightarrow> node_metric list gomap" where
  "group_metric metric byNode =
     AList.update (nm_NodeID metric) (mget [] byNode (nm_NodeID metric) @ [metric]) byNode"

definition group_by_node :: "node_metric list \<Rightarrow> node_metric list gomap" where
  "group_by_node history = fold group_metric history []"

text \<open>
  The first \<open>range\<close>: every node's samples are sorted by window end and the last one is
  collected. \<open>sort.Slice\<close> promises nothing about equal window ends; the model keeps their
  order, which is one of the results it may have.
\<close>

definition sort_node ::
    "string \<Rightarrow> node_metric list gomap \<times> node_metric list \<Rightarrow> node_metric list gomap \<times> node_metric list" where
  "sort_node nodeID st =
     (let samples = sort_key nm_WindowEnd (mget [] (fst st) nodeID)
      in (AList.update nodeID samples (fst st), snd st @ [last samples]))"

definition rule_anomaly :: "detector_config \<Rightarrow> f64 \<Rightarrow> node_metric \<Rightarrow> bool" where
  "rule_anomaly c locationBaseline latest \<longleftrightarrow>
     dc_MinimumSamples c \<le> nm_Requests latest \<and>
     nm_ErrorRate latest > dc_ErrorThreshold c \<and>
     locationBaseline > 0 \<and> nm_P95TTFBMS latest > dc_LatencyMultiple c * locationBaseline"

definition rule_signal :: "detector_config \<Rightarrow> f64 \<Rightarrow> string \<Rightarrow> node_metric \<Rightarrow> signal" where
  "rule_signal c locationBaseline nodeID latest =
     (let signal = zero_signal\<lparr>sg_NodeID := nodeID, sg_BaselineMS := locationBaseline\<rparr>
      in if rule_anomaly c locationBaseline latest
         then signal\<lparr>sg_Anomalous := True,
                sg_Severity := clamp01 (math_max
                  (nm_ErrorRate latest / dc_ErrorThreshold c - 1)
                  (nm_P95TTFBMS latest / (dc_LatencyMultiple c * locationBaseline) - 1)),
                sg_ReasonCodes := sg_ReasonCodes signal @ [''RULE_LATENCY_ERROR_ANOMALY'']\<rparr>
         else signal)"

text \<open>One of the three \<open>if\<close>s of the history part: raise the severity and add the reason.\<close>

definition raise_signal :: "bool \<Rightarrow> f64 \<Rightarrow> string \<Rightarrow> signal \<Rightarrow> signal" where
  "raise_signal anomaly severity reason signal =
     (if anomaly
      then signal\<lparr>sg_Anomalous := True,
             sg_Severity := math_max (sg_Severity signal) (clamp01 severity),
             sg_ReasonCodes := appendUnique (sg_ReasonCodes signal) reason\<rparr>
      else signal)"

definition evaluate_node :: "detector_config \<Rightarrow> f64 \<Rightarrow> string \<Rightarrow> node_metric list \<Rightarrow> signal" where
  "evaluate_node c locationBaseline nodeID samples =
     (let latest = last samples;
          signal = rule_signal c locationBaseline nodeID latest
      in if int (length samples) - 1 \<ge> dc_MinimumHistory c
         then let past = butlast samples;
                  pastP95 = metricValues past nm_P95TTFBMS;
                  pastErrors = metricValues past nm_ErrorRate;
                  baseline = frozenEWMA pastP95 (dc_EWMAAlpha c);
                  z = robustZ (nm_P95TTFBMS latest) pastP95;
                  errorBaseline = frozenEWMA pastErrors (dc_EWMAAlpha c);
                  errorDelta = nm_ErrorRate latest - errorBaseline;
                  latencyAnomaly = (baseline > 0 \<and>
                    nm_P95TTFBMS latest > lit 15 1 * baseline \<and> dc_RobustZThreshold c \<le> z);
                  errorAnomaly = (dc_MinimumSamples c \<le> nm_Requests latest \<and>
                    nm_ErrorRate latest > dc_ErrorThreshold c \<and> errorDelta > lit 1 2);
                  missAnomaly = (nm_CacheHitRate latest < lit 35 2 \<and>
                    nm_CacheHitRate latest < median (metricValues past nm_CacheHitRate) - lit 20 2)
              in raise_signal missAnomaly (1 - nm_CacheHitRate latest) ''MAD_CACHE_MISS_ANOMALY''
                  (raise_signal errorAnomaly (errorDelta / lit 20 2) ''EWMA_ERROR_RATE_ANOMALY''
                    (raise_signal latencyAnomaly ((nm_P95TTFBMS latest / baseline - 1) / lit 2 0)
                      ''EWMA_MAD_LATENCY_ANOMALY''
                      (signal\<lparr>sg_BaselineMS := baseline, sg_RobustZ := z\<rparr>)))
         else signal)"

definition detector_Evaluate :: "range_order \<Rightarrow> detector_config \<Rightarrow> node_metric list \<Rightarrow> signal gomap" where
  "detector_Evaluate it c history =
     (let byNode = group_by_node history;
          (sorted, current) = fold sort_node (it 0 (mkeys byNode)) (byNode, []);
          locationBaseline = median (metricValues current nm_P95TTFBMS)
      in fold (\<lambda>nodeID result. AList.update nodeID
                 (evaluate_node c locationBaseline nodeID (mget [] sorted nodeID)) result)
           (it 1 (mkeys sorted)) [])"

subsection \<open>What the loops compute\<close>

text \<open>The samples of a node in window order, and the ids of the nodes in the history.\<close>

definition node_samples :: "node_metric list \<Rightarrow> string \<Rightarrow> node_metric list" where
  "node_samples history nodeID = sort_key nm_WindowEnd (filter (\<lambda>m. nm_NodeID m = nodeID) history)"

definition node_ids :: "node_metric list \<Rightarrow> string list" where
  "node_ids history = mkeys (group_by_node history)"

definition location_baseline :: "range_order \<Rightarrow> node_metric list \<Rightarrow> f64" where
  "location_baseline it history =
     median (map (\<lambda>n. nm_P95TTFBMS (last (node_samples history n))) (it 0 (node_ids history)))"

lemma group_by_node_snoc: "group_by_node (h @ [m]) = group_metric m (group_by_node h)"
  by (simp add: group_by_node_def)

lemma group_by_node_wf: "wf_map (group_by_node h)"
  by (induction h rule: rev_induct)
    (simp_all add: group_by_node_snoc group_metric_def wf_map_update, simp add: group_by_node_def)

lemma map_of_group:
  "map_of (group_by_node h) k =
     (if k \<in> nm_NodeID ` set h then Some (filter (\<lambda>m. nm_NodeID m = k) h) else None)"
proof (induction h rule: rev_induct)
  case Nil
  show ?case by (simp add: group_by_node_def)
next
  case (snoc m h)
  have "nm_NodeID m \<notin> nm_NodeID ` set h \<Longrightarrow> filter (\<lambda>m'. nm_NodeID m' = nm_NodeID m) h = []"
    by (metis (mono_tags, lifting) filter_False image_eqI)
  then show ?case using snoc
    by (auto simp: group_by_node_snoc group_metric_def map_of_update mget_def)
qed

lemma set_node_ids: "set (node_ids h) = nm_NodeID ` set h"
  by (auto simp: node_ids_def set_mkeys dom_def map_of_group)

lemma distinct_node_ids: "distinct (node_ids h)"
  using group_by_node_wf by (simp add: wf_map_def node_ids_def)

lemma mget_group: "k \<in> nm_NodeID ` set h \<Longrightarrow> mget [] (group_by_node h) k = filter (\<lambda>m. nm_NodeID m = k) h"
  by (simp add: mget_def map_of_group)

lemma set_node_samples: "set (node_samples h n) = {m \<in> set h. nm_NodeID m = n}"
  by (simp add: node_samples_def)

lemma node_samples_nonempty: "n \<in> nm_NodeID ` set h \<Longrightarrow> node_samples h n \<noteq> []"
  using set_node_samples [of h n] by auto

lemma last_node_samples:
  "n \<in> nm_NodeID ` set h \<Longrightarrow> last (node_samples h n) \<in> set h \<and> nm_NodeID (last (node_samples h n)) = n"
  using last_in_set [OF node_samples_nonempty] by (auto simp: set_node_samples)

lemma sort_node_fold:
  assumes "distinct ks" "set ks \<subseteq> set (mkeys m)"
  shows "mkeys (fst (fold sort_node ks (m, cur))) = mkeys m \<and>
    (\<forall>k. mget [] (fst (fold sort_node ks (m, cur))) k =
       (if k \<in> set ks then sort_key nm_WindowEnd (mget [] m k) else mget [] m k)) \<and>
    snd (fold sort_node ks (m, cur)) = cur @ map (\<lambda>k. last (sort_key nm_WindowEnd (mget [] m k))) ks"
  using assms
proof (induction ks arbitrary: m cur)
  case (Cons k ks)
  define m' where "m' = AList.update k (sort_key nm_WindowEnd (mget [] m k)) m"
  define cur' where "cur' = cur @ [last (sort_key nm_WindowEnd (mget [] m k))]"
  have step: "fold sort_node (k # ks) (m, cur) = fold sort_node ks (m', cur')"
    by (simp add: sort_node_def Let_def m'_def cur'_def)
  have keys: "mkeys m' = mkeys m" using Cons.prems by (simp add: m'_def mkeys_update)
  have get: "mget [] m' j = (if j = k then sort_key nm_WindowEnd (mget [] m k) else mget [] m j)" for j
    by (simp add: m'_def mget_update)
  have "map (\<lambda>j. last (sort_key nm_WindowEnd (mget [] m' j))) ks =
      map (\<lambda>j. last (sort_key nm_WindowEnd (mget [] m j))) ks"
    using Cons.prems by (intro map_cong) (auto simp: get)
  then show ?case using Cons.IH [of m' cur'] Cons.prems
    unfolding step by (auto simp: keys get cur'_def)
qed simp

lemma detector_Evaluate_eq:
  assumes "fair_order it"
  shows "detector_Evaluate it c h =
    fold (\<lambda>n result. AList.update n (evaluate_node c (location_baseline it h) n (node_samples h n)) result)
      (it 1 (node_ids h)) []"
proof -
  define st where "st = fold sort_node (it 0 (node_ids h)) (group_by_node h, [])"
  have ids: "set (it 0 (node_ids h)) = nm_NodeID ` set h" "distinct (it 0 (node_ids h))"
    using fair_set [OF assms] fair_distinct [OF assms] by (auto simp: set_node_ids distinct_node_ids)
  have st: "mkeys (fst st) = node_ids h"
    "\<And>n. n \<in> nm_NodeID ` set h \<Longrightarrow> mget [] (fst st) n = node_samples h n"
    "snd st = map (\<lambda>n. last (node_samples h n)) (it 0 (node_ids h))"
    using sort_node_fold [of "it 0 (node_ids h)" "group_by_node h" "[]"] ids
    by (auto simp: st_def node_samples_def mget_group set_node_ids simp flip: node_ids_def)
  have base: "median (metricValues (snd st) nm_P95TTFBMS) = location_baseline it h"
    by (simp add: st metricValues_def location_baseline_def comp_def)
  have "detector_Evaluate it c h =
    fold (\<lambda>n result. AList.update n (evaluate_node c (location_baseline it h) n (mget [] (fst st) n)) result)
      (it 1 (node_ids h)) []"
    unfolding detector_Evaluate_def Let_def
    by (simp only: case_prod_unfold base st(1) flip: st_def node_ids_def)
  also have "\<dots> = fold (\<lambda>n result. AList.update n (evaluate_node c (location_baseline it h) n (node_samples h n)) result)
      (it 1 (node_ids h)) []"
    using fair_set [OF assms] by (intro fold_cong) (auto simp: st set_node_ids)
  finally show ?thesis .
qed

lemma detector_Evaluate_lookup:
  assumes "fair_order it"
  shows "map_of (detector_Evaluate it c h) n =
    (if n \<in> nm_NodeID ` set h
     then Some (evaluate_node c (location_baseline it h) n (node_samples h n)) else None)"
  unfolding detector_Evaluate_eq [OF assms] map_of_fold_update
  by (simp add: fair_set [OF assms] set_node_ids)

lemma detector_Evaluate_wf: "fair_order it \<Longrightarrow> wf_map (detector_Evaluate it c h)"
  by (simp add: detector_Evaluate_eq wf_fold_update)

subsection \<open>Statistics: bounds and independence of order\<close>

lemma clamp01_between: "x \<noteq> NaN \<Longrightarrow> between 0 1 (clamp01 x)"
proof (erule not_nan_cases)
  assume x: "finite_f64 x"
  note m = math_min_val [OF finite_one x]
  show ?thesis
    using math_max_val [OF finite_zero conjunct1 [OF m]] m by (auto simp: clamp01_def between_def)
next
  assume x: "x = PInf"
  have m: "math_min 1 PInf = 1"
    using less_val [of 1 0] by (simp add: math_min_def feq_def less_eq_f64_def one_f64_def)
  show ?thesis
    using math_max_val [OF finite_zero finite_one] by (simp add: clamp01_def x m between_def)
next
  assume x: "x = NInf"
  have "math_max 0 NInf = 0" by (simp add: math_max_def feq_def less_f64_def zero_f64_def less_eq_f64_def)
  then show ?thesis by (simp add: clamp01_def x math_min_def between_def)
qed

lemma mean_between:
  assumes "number a" "number b" "\<bar>val a\<bar> \<le> p2 1022" "\<bar>val b\<bar> \<le> p2 1022"
    and lo: "lo \<le> val a" "lo \<le> val b" and hi: "val a \<le> hi" "val b \<le> hi"
  shows "between lo hi ((a + b) / lit 2 0)"
proof -
  have two: "lit 2 0 = Fin 4503599627370496 (-51)" by code_simp
  have two_val: "finite_f64 (lit 2 0)" "val (lit 2 0) = 2"
    using p2_diff [of 1 52] by (simp_all add: two val_Fin)
  define l where "l = min (val a) (val b)"
  define h where "h = max (val a) (val b)"
  have rep: "representable l" "representable h"
    using assms by (auto simp: l_def h_def min_def max_def number_def canonical_representable)
  have big: "2 * \<bar>l\<bar> < ovf" "2 * \<bar>h\<bar> < ovf"
  proof -
    have "2 * p2 1022 = p2 1023" using p2_add [of 1022 1] by simp
    then have "2 * p2 1022 < ovf" using p2_less_ovf [of 1023] by simp
    moreover have "\<bar>l\<bar> \<le> p2 1022" "\<bar>h\<bar> \<le> p2 1022" using assms by (auto simp: l_def h_def min_def max_def)
    ultimately show "2 * \<bar>l\<bar> < ovf" "2 * \<bar>h\<bar> < ovf" by linarith+
  qed
  have b2: "bound (2 * l) (2 * h)" and b1: "bound l h"
    using rep big by (auto simp: bound_def representable_double abs_mult)
  have s: "between (2 * l) (2 * h) (a + b)"
    using plus_between [OF b2, of a b] assms by (auto simp: number_def l_def h_def)
  have "between l h ((a + b) / lit 2 0)"
    using divide_between [OF b1 betweenD(1) [OF s] two_val(1)] betweenD(2,3) [OF s] by (simp add: two_val)
  then show ?thesis using lo hi by (auto simp: between_def l_def h_def)
qed

lemma median_between:
  assumes "values \<noteq> []" "\<forall>v \<in> set values. number v \<and> \<bar>val v\<bar> \<le> p2 1022 \<and> lo \<le> val v \<and> val v \<le> hi"
  shows "between lo hi (median values)"
proof -
  define s where "s = sort_floats values"
  have len: "0 < length s" using assms(1) by (simp add: s_def)
  have el: "number (s ! i) \<and> \<bar>val (s ! i)\<bar> \<le> p2 1022 \<and> lo \<le> val (s ! i) \<and> val (s ! i) \<le> hi" if "i < length s" for i
    using assms(2) nth_mem [OF that] by (simp add: s_def)
  have i: "length s div 2 - 1 < length s" "length s div 2 < length s" using len by linarith+
  have "between lo hi ((s ! (length s div 2 - 1) + s ! (length s div 2)) / lit 2 0)"
    using el [OF i(1)] el [OF i(2)] by (intro mean_between) auto
  moreover have "between lo hi (s ! (length s div 2))"
    using el [OF i(2)] by (simp add: between_def number_def)
  ultimately show ?thesis using assms(1) by (simp add: median_def Let_def flip: s_def)
qed

lemma median_mset_eq:
  "mset xs = mset ys \<Longrightarrow> \<forall>x \<in> set xs. plain x \<Longrightarrow> median xs = median ys"
  using sort_floats_mset_eq [of xs ys] by (auto simp: median_def)

subsection \<open>The signal of a node\<close>

definition detector_reasons :: "string list" where
  "detector_reasons = [''RULE_LATENCY_ERROR_ANOMALY'', ''EWMA_MAD_LATENCY_ANOMALY'',
     ''EWMA_ERROR_RATE_ANOMALY'', ''MAD_CACHE_MISS_ANOMALY'']"

text \<open>What the signal of a node looks like, whatever the numbers are.\<close>

definition signal_shape :: "string \<Rightarrow> signal \<Rightarrow> bool" where
  "signal_shape n s \<longleftrightarrow> sg_NodeID s = n \<and> (sg_Anomalous s \<longleftrightarrow> sg_ReasonCodes s \<noteq> []) \<and>
     distinct (sg_ReasonCodes s) \<and> set (sg_ReasonCodes s) \<subseteq> set detector_reasons \<and>
     (\<not> sg_Anomalous s \<longrightarrow> sg_Severity s = 0)"

lemma rule_signal_shape: "signal_shape n (rule_signal c b n m)"
  by (simp add: rule_signal_def signal_shape_def zero_signal_def detector_reasons_def Let_def)

lemma raise_signal_shape:
  "signal_shape n s \<Longrightarrow> r \<in> set detector_reasons \<Longrightarrow> signal_shape n (raise_signal a x r s)"
  by (auto simp: raise_signal_def signal_shape_def)

lemma update_signal_shape:
  "signal_shape n s \<Longrightarrow> signal_shape n (s\<lparr>sg_BaselineMS := b, sg_RobustZ := z\<rparr>)"
  by (simp add: signal_shape_def)

lemma evaluate_node_shape: "signal_shape n (evaluate_node c b n samples)"
proof -
  have r: "''EWMA_MAD_LATENCY_ANOMALY'' \<in> set detector_reasons" "''EWMA_ERROR_RATE_ANOMALY'' \<in> set detector_reasons"
    "''MAD_CACHE_MISS_ANOMALY'' \<in> set detector_reasons"
    by (simp_all add: detector_reasons_def)
  show ?thesis
    unfolding evaluate_node_def Let_def
    by (auto intro!: raise_signal_shape update_signal_shape rule_signal_shape r)
qed

lemma raise_signal_severity:
  assumes "between 0 1 (sg_Severity s)" "a \<Longrightarrow> x \<noteq> NaN"
  shows "between 0 1 (sg_Severity (raise_signal a x r s))"
proof (cases a)
  case True
  have c: "between 0 1 (clamp01 x)" using assms(2) True by (intro clamp01_between)
  show ?thesis using math_max_val [of "sg_Severity s" "clamp01 x"] assms(1) c True
    by (auto simp: raise_signal_def between_def)
qed (use assms in \<open>simp add: raise_signal_def\<close>)

lemma rule_signal_severity:
  assumes "finite_metric m" shows "between 0 1 (sg_Severity (rule_signal c b n m))"
proof (cases "rule_anomaly c b m")
  case True
  note f = finite_metricD [OF assms]
  have e: "dc_ErrorThreshold c < nm_ErrorRate m" and l: "dc_LatencyMultiple c * b < nm_P95TTFBMS m"
    using True by (auto simp: rule_anomaly_def)
  have "nm_ErrorRate m / dc_ErrorThreshold c \<noteq> NaN"
    using less_not_nan [OF e] less_not_zeros [OF e] f by (intro divide_not_nan) auto
  moreover have "nm_P95TTFBMS m / (dc_LatencyMultiple c * b) \<noteq> NaN"
    using less_not_nan [OF l] less_not_zeros [OF l] f by (intro divide_not_nan) auto
  ultimately show ?thesis using True
    by (simp add: rule_signal_def Let_def clamp01_between math_max_not_nan minus_not_nan)
qed (simp add: rule_signal_def Let_def zero_signal_def between_def)

lemma lit_finite:
  "finite_f64 (lit 2 0)" "finite_f64 (lit 20 2)" "val (lit 2 0) \<noteq> 0" "val (lit 20 2) \<noteq> 0"
proof -
  have "lit 2 0 = Fin 4503599627370496 (-51)" "lit 20 2 = Fin 7205759403792794 (-55)" by code_simp+
  then show "finite_f64 (lit 2 0)" "finite_f64 (lit 20 2)" "val (lit 2 0) \<noteq> 0" "val (lit 20 2) \<noteq> 0"
    by (simp_all add: val_Fin)
qed

lemma divide_lit_not_nan: "x \<noteq> NaN \<Longrightarrow> finite_f64 y \<Longrightarrow> val y \<noteq> 0 \<Longrightarrow> x / y \<noteq> NaN"
  using not_nan_inf [of y] by (auto simp: divide_f64_def Let_def mant_0_iff)

lemma evaluate_node_severity:
  assumes "samples \<noteq> []" "\<forall>m \<in> set samples. finite_metric m"
  shows "between 0 1 (sg_Severity (evaluate_node c b n samples))"
proof -
  define latest where "latest = last samples"
  have "finite_metric latest" using assms by (simp add: latest_def)
  note f = finite_metricD [OF this]
  have rule: "between 0 1 (sg_Severity (rule_signal c b n latest))"
    by (rule rule_signal_severity) fact
  have lat: "(nm_P95TTFBMS latest / base - 1) / lit 2 0 \<noteq> NaN" if "0 < base" for base
    using less_not_nan [OF that] less_not_zeros [OF that] f lit_finite
    by (intro divide_lit_not_nan minus_not_nan divide_not_nan) auto
  have err: "x / lit 20 2 \<noteq> NaN" if "lit 1 2 < x" for x
    using less_not_nan [OF that] lit_finite by (intro divide_lit_not_nan) auto
  have miss: "1 - nm_CacheHitRate latest \<noteq> NaN"
    using f not_nan_inf [OF finite_one] by (intro minus_not_nan) auto
  show ?thesis
    unfolding evaluate_node_def Let_def latest_def [symmetric]
    using rule lat err miss by (auto intro!: raise_signal_severity)
qed

subsection \<open>The detector as an interface\<close>

text \<open>
  What \<open>app.SignalDetector\<close> promises its client: one signal per node of the history, named
  after its node, with a severity in the unit interval and reasons exactly when anomalous.
\<close>

locale signal_detector =
  fixes evaluate :: "range_order \<Rightarrow> node_metric list \<Rightarrow> signal gomap"
  assumes signals_wf: "fair_order it \<Longrightarrow> wf_map (evaluate it h)"
    and signals_nodes: "fair_order it \<Longrightarrow> dom (map_of (evaluate it h)) = nm_NodeID ` set h"
    and signals_shape: "fair_order it \<Longrightarrow> map_of (evaluate it h) n = Some s \<Longrightarrow> signal_shape n s"
    and signals_severity: "fair_order it \<Longrightarrow> \<forall>m \<in> set h. finite_metric m \<Longrightarrow>
      map_of (evaluate it h) n = Some s \<Longrightarrow> between 0 1 (sg_Severity s)"
begin

lemma severity_lookup:
  assumes "fair_order it" "\<forall>m \<in> set h. finite_metric m"
  shows "between 0 1 (sg_Severity (mget zero_signal (evaluate it h) n))"
proof (cases "map_of (evaluate it h) n")
  case None
  then show ?thesis by (simp add: mget_def zero_signal_def between_def)
next
  case (Some s)
  then show ?thesis using signals_severity [OF assms Some] by (simp add: mget_def)
qed

lemma anomalous_has_reason:
  assumes "fair_order it" "map_of (evaluate it h) n = Some s" "sg_Anomalous s"
  shows "sg_ReasonCodes s \<noteq> []" "n \<in> nm_NodeID ` set h"
  using signals_shape [OF assms(1,2)] signals_nodes [OF assms(1), of h] assms
  by (auto simp: signal_shape_def dom_def)

end

interpretation det: signal_detector "\<lambda>it. detector_Evaluate it c" for c
proof unfold_locales
  fix it h n s
  assume it: "fair_order it"
  show "wf_map (detector_Evaluate it c h)" using it by (rule detector_Evaluate_wf)
  show "dom (map_of (detector_Evaluate it c h)) = nm_NodeID ` set h"
    using it by (auto simp: detector_Evaluate_lookup dom_def)
  assume s: "map_of (detector_Evaluate it c h) n = Some s"
  then have eq: "s = evaluate_node c (location_baseline it h) n (node_samples h n)" "n \<in> nm_NodeID ` set h"
    using it by (auto simp: detector_Evaluate_lookup split: if_splits)
  show "signal_shape n s" unfolding eq by (rule evaluate_node_shape)
  assume "\<forall>m \<in> set h. finite_metric m"
  then show "between 0 1 (sg_Severity s)"
    unfolding eq using node_samples_nonempty [OF eq(2)]
    by (intro evaluate_node_severity) (auto simp: set_node_samples)
qed

subsection \<open>Independence of the map order, frozen outliers\<close>

lemma location_baseline_order:
  assumes "fair_order it" "fair_order it'" "\<forall>m \<in> set h. plain (nm_P95TTFBMS m)"
  shows "location_baseline it h = location_baseline it' h"
  unfolding location_baseline_def
proof (rule median_mset_eq)
  show "mset (map (\<lambda>n. nm_P95TTFBMS (last (node_samples h n))) (it 0 (node_ids h))) =
      mset (map (\<lambda>n. nm_P95TTFBMS (last (node_samples h n))) (it' 0 (node_ids h)))"
    using assms(1,2) by (simp add: fair_mset)
  show "\<forall>x \<in> set (map (\<lambda>n. nm_P95TTFBMS (last (node_samples h n))) (it 0 (node_ids h))). plain x"
    using assms last_node_samples by (auto simp: fair_set set_node_ids)
qed

text \<open>
  The past values that the EWMA has accepted; \<open>ewma_loop\<close> carries them along. A value is an
  outlier for them when its robust score is not at most 4 and there are at least five.
\<close>

definition outlier :: "f64 list \<Rightarrow> f64 \<Rightarrow> bool" where
  "outlier accepted v \<longleftrightarrow> 5 \<le> length accepted \<and> \<not> \<bar>robustZ v accepted\<bar> \<le> lit 4 0"

lemma ewma_loop_outliers:
  "\<forall>v \<in> set vs. outlier accepted v \<Longrightarrow> ewma_loop alpha baseline accepted (vs @ ws) = ewma_loop alpha baseline accepted ws"
  by (induction vs) (simp_all add: outlier_def Let_def)

fun ewma_accepted :: "f64 list \<Rightarrow> f64 list \<Rightarrow> f64 list" where
  "ewma_accepted accepted [] = accepted"
| "ewma_accepted accepted (v # vs) =
     ewma_accepted (if outlier accepted v then accepted else accepted @ [v]) vs"

lemma ewma_loop_append:
  "ewma_loop alpha b accepted (vs @ ws) =
     ewma_loop alpha (ewma_loop alpha b accepted vs) (ewma_accepted accepted vs) ws"
  by (induction vs arbitrary: b accepted) (auto simp: outlier_def Let_def not_le)

lemma frozenEWMA_append:
  "frozenEWMA (v # vs @ ws) alpha = ewma_loop alpha (frozenEWMA (v # vs) alpha) (ewma_accepted [v] vs) ws"
  by (simp add: ewma_loop_append)

text \<open>A constant history accepts itself and has deviation zero, so every other value is an outlier.\<close>

lemma lit_e9: "finite_f64 (lit 1 9)" "0 < val (lit 1 9)"
proof -
  have "lit 1 9 = Fin 4835703278458517 (-82)" by code_simp
  then show "finite_f64 (lit 1 9)" "0 < val (lit 1 9)" by (simp_all add: val_Fin)
qed

lemma median_constant:
  assumes "plain c" "\<bar>val c\<bar> \<le> p2 1022" "0 < n" shows "median (replicate n c) = c"
proof (rule plain_val_inj)
  have b: "between (val c) (val c) (median (replicate n c))"
    using assms by (intro median_between) (auto simp: plain_def number_def)
  then show v: "val (median (replicate n c)) = val c" by (simp add: between_def)
  have s: "sort_floats (replicate n c) = replicate n c"
  proof (rule replicate_eqI)
    show "x = c" if "x \<in> set (sort_floats (replicate n c))" for x using that assms(3) by simp
  qed simp
  have "median (replicate n c) \<noteq> NZero"
  proof (cases "n mod 2 = 0")
    case True
    have "(c + c) / lit 2 0 \<noteq> NZero" if "val c = 0"
    proof -
      have "c = 0" using that assms(1) plain_val_inj [of c 0] by (simp add: plain_def zero_f64_def val_Fin)
      moreover have "(0 + 0) / lit 2 0 \<noteq> NZero" by code_simp
      ultimately show ?thesis by simp
    qed
    moreover have "median (replicate n c) = (c + c) / lit 2 0"
      using assms(3) True by (simp add: median_def Let_def s)
    moreover have "median (replicate n c) \<noteq> NZero" if "val c \<noteq> 0" using that v by auto
    ultimately show ?thesis by auto
  next
    case False
    then show ?thesis using assms by (simp add: median_def Let_def s plain_def)
  qed
  moreover have "canonical (median (replicate n c))"
    using assms by (simp add: median_def Let_def s plain_def)
  ultimately show "plain (median (replicate n c))" using b by (simp add: plain_def between_def)
  show "plain c" by (rule assms)
qed

lemma robustZ_constant:
  assumes "plain c" "\<bar>val c\<bar> \<le> p2 1022" "0 < n"
  shows "robustZ v (replicate n c) = (if \<bar>v - c\<bar> < lit 1 9 then 0 else PInf)"
proof -
  have "finite_f64 (c - c)" "val (c - c) = 0"
    using minus_f64_val [of c c] assms(1) by (simp_all add: plain_def)
  then have d: "\<bar>c - c\<bar> = 0"
    by (intro plain_val_inj) (auto simp: plain_def zero_f64_def val_Fin elim: finite_cases)
  have "median (replicate n (0 :: f64)) = 0"
    using assms(3) by (intro median_constant) (simp_all add: plain_def zero_f64_def val_def)
  moreover have "0 < lit 1 9" using lit_e9 by (simp add: fval)
  ultimately show ?thesis
    using assms(3) by (simp add: robustZ_def Let_def median_constant [OF assms] d)
qed

definition sample_detector_config :: detector_config where
  "sample_detector_config = \<lparr>dc_MinimumSamples = 100, dc_MinimumHistory = 5, dc_EWMAAlpha = lit 2 1,
     dc_ErrorThreshold = lit 2 2, dc_LatencyMultiple = lit 2 0, dc_RobustZThreshold = lit 3 0\<rparr>"

subsection \<open>Properties\<close>

text \<open>C9: The detector returns exactly one signal for every node of the history and none for
  others; each signal carries its node's id, is anomalous exactly when it has a reason, has
  distinct reasons out of the four documented codes, and has severity zero when it is not
  anomalous. This holds for every order in which the maps are ranged over.\<close>

theorem detector_signals:
  assumes "fair_order it"
  shows "dom (map_of (detector_Evaluate it c h)) = nm_NodeID ` set h \<and>
    (\<forall>n s. map_of (detector_Evaluate it c h) n = Some s \<longrightarrow>
       sg_NodeID s = n \<and> (sg_Anomalous s \<longleftrightarrow> sg_ReasonCodes s \<noteq> []) \<and>
       distinct (sg_ReasonCodes s) \<and> set (sg_ReasonCodes s) \<subseteq> set detector_reasons \<and>
       (\<not> sg_Anomalous s \<longrightarrow> sg_Severity s = 0))"
  using det.signals_nodes [OF assms] det.signals_shape [OF assms] by (simp add: signal_shape_def)

theorem detector_signals_witness:
  "dom (map_of (detector_Evaluate (\<lambda>n. rev) sample_detector_config sample_history)) =
     {''edge-a'', ''edge-b'', ''edge-c''}"
  using detector_signals [of "\<lambda>n. rev" sample_detector_config sample_history]
  by (simp add: fair_order_def sample_history_def sample_metric_def)

text \<open>C10: On metrics with finite numbers every severity lies in the unit interval, whatever
  the configuration (a zero threshold divides by zero and gives an infinity, which is
  clamped; no branch produces NaN).\<close>

theorem detector_severity_range:
  assumes "fair_order it" "\<forall>m \<in> set h. finite_metric m"
    and "map_of (detector_Evaluate it c h) n = Some s"
  shows "0 \<le> sg_Severity s \<and> sg_Severity s \<le> 1"
  using det.signals_severity [OF assms] by (simp add: between_def fval)

theorem detector_severity_range_witness:
  "\<exists>s. map_of (detector_Evaluate insertion_order sample_detector_config sample_history) ''edge-a'' = Some s \<and>
     sg_Anomalous s \<and> 0 \<le> sg_Severity s \<and> sg_Severity s \<le> 1"
proof -
  have fin: "\<forall>m \<in> set sample_history. finite_metric m" by code_simp
  have "map_option sg_Anomalous
      (map_of (detector_Evaluate insertion_order sample_detector_config sample_history) ''edge-a'') = Some True"
    by code_simp
  then obtain s where s: "map_of (detector_Evaluate insertion_order sample_detector_config sample_history) ''edge-a'' = Some s"
    "sg_Anomalous s" by auto
  show ?thesis using detector_severity_range [OF fair_insertion_order fin s(1)] s by blast
qed

text \<open>C11: The signals do not depend on the order in which Go ranges over its maps, as long
  as the latency numbers are ordinary (finite, and not the negative zero).\<close>

theorem detector_order_independent:
  assumes "fair_order it" "fair_order it'" "\<forall>m \<in> set h. plain (nm_P95TTFBMS m)"
  shows "map_of (detector_Evaluate it c h) = map_of (detector_Evaluate it' c h)"
  using location_baseline_order [OF assms]
  by (simp add: fun_eq_iff detector_Evaluate_lookup assms)

theorem detector_order_independent_witness:
  "map_of (detector_Evaluate (\<lambda>n. rev) sample_detector_config sample_history) =
   map_of (detector_Evaluate insertion_order sample_detector_config sample_history)"
proof (rule detector_order_independent)
  show "fair_order (\<lambda>n. rev)" by (simp add: fair_order_def)
  show "\<forall>m \<in> set sample_history. plain (nm_P95TTFBMS m)" by code_simp
qed simp

text \<open>C12: A node with fewer requests in its latest window than the minimum, or with an error
  rate that does not exceed the threshold, is never reported by the fixed rule or the error
  rule; and a node with too little history is reported by the fixed rule only.\<close>

theorem detector_evidence_guards:
  assumes "fair_order it" "map_of (detector_Evaluate it c h) n = Some s"
  shows "(\<forall>r \<in> set (sg_ReasonCodes s).
      r \<in> {''RULE_LATENCY_ERROR_ANOMALY'', ''EWMA_ERROR_RATE_ANOMALY''} \<longrightarrow>
      dc_MinimumSamples c \<le> nm_Requests (last (node_samples h n)) \<and>
      dc_ErrorThreshold c < nm_ErrorRate (last (node_samples h n))) \<and>
    (int (length (node_samples h n)) - 1 < dc_MinimumHistory c \<longrightarrow>
      set (sg_ReasonCodes s) \<subseteq> {''RULE_LATENCY_ERROR_ANOMALY''})"
proof -
  have s: "s = evaluate_node c (location_baseline it h) n (node_samples h n)"
    using assms by (simp add: detector_Evaluate_lookup split: if_splits)
  show ?thesis
    unfolding s evaluate_node_def rule_signal_def raise_signal_def rule_anomaly_def Let_def zero_signal_def
    by auto
qed

theorem detector_evidence_guards_witness:
  "\<exists>s. map_of (detector_Evaluate insertion_order sample_detector_config sample_history) ''edge-a'' = Some s \<and>
     sg_ReasonCodes s = [''RULE_LATENCY_ERROR_ANOMALY''] \<and>
     100 \<le> nm_Requests (last (node_samples sample_history ''edge-a''))"
proof -
  have "map_option sg_ReasonCodes
      (map_of (detector_Evaluate insertion_order sample_detector_config sample_history) ''edge-a'') =
      Some [''RULE_LATENCY_ERROR_ANOMALY'']"
    by code_simp
  then obtain s where s: "map_of (detector_Evaluate insertion_order sample_detector_config sample_history) ''edge-a'' = Some s"
    "sg_ReasonCodes s = [''RULE_LATENCY_ERROR_ANOMALY'']" by auto
  show ?thesis using detector_evidence_guards [OF fair_insertion_order s(1)] s
    by (simp add: sample_detector_config_def)
qed

text \<open>C13: The median of finite samples lies between any bounds of the samples: the mean of
  the two middle samples cannot leave their range by rounding. The bound on the magnitude,
  \<open>2^1022\<close>, excludes only sums that overflow.\<close>

theorem median_in_range:
  assumes "values \<noteq> []" "\<forall>v \<in> set values. number v \<and> \<bar>v\<bar> \<le> Fin 1 1022 \<and> lo \<le> v \<and> v \<le> hi"
    and "finite_f64 lo" "finite_f64 hi"
  shows "lo \<le> median values \<and> median values \<le> hi"
proof -
  have "number v \<and> \<bar>val v\<bar> \<le> p2 1022 \<and> val lo \<le> val v \<and> val v \<le> val hi" if "v \<in> set values" for v
  proof -
    have v: "number v" "\<bar>v\<bar> \<le> Fin 1 1022" "lo \<le> v" "v \<le> hi" using assms(2) that by auto
    then have "val \<bar>v\<bar> \<le> val (Fin 1 1022)" by (subst le_val [symmetric]) (simp_all add: number_def)
    also have "val (Fin 1 1022) = p2 1022" unfolding val_Fin of_int_1 by (rule mult_1)
    finally show ?thesis using v assms(3,4) by (simp add: number_def fval)
  qed
  then have "between (val lo) (val hi) (median values)" using assms(1) by (intro median_between) auto
  then show ?thesis using assms by (simp add: between_def fval)
qed

theorem median_in_range_witness:
  "lit 1 0 \<le> median [lit 4 0, lit 1 0, lit 25 1, lit 2 0] \<and> median [lit 4 0, lit 1 0, lit 25 1, lit 2 0] \<le> lit 4 0"
proof (rule median_in_range)
  show "\<forall>v \<in> set [lit 4 0, lit 1 0, lit 25 1, lit 2 0].
      number v \<and> \<bar>v\<bar> \<le> Fin 1 1022 \<and> lit 1 0 \<le> v \<and> v \<le> lit 4 0" by code_simp
  show "finite_f64 (lit 1 0)" "finite_f64 (lit 4 0)" by code_simp+
qed simp

text \<open>C14: The baseline is frozen against outliers: values whose robust score against the
  accepted history exceeds 4 (with at least five accepted values) leave the EWMA as if they
  had not been observed, also for all later values.\<close>

theorem frozenEWMA_ignores_outliers:
  assumes "\<forall>x \<in> set spikes. outlier (ewma_accepted [v] vs) x"
  shows "frozenEWMA (v # vs @ spikes @ ws) alpha = frozenEWMA (v # vs @ ws) alpha"
  using ewma_loop_outliers [OF assms] by (simp only: frozenEWMA_append)

theorem frozenEWMA_ignores_outliers_witness:
  "frozenEWMA (lit 40 0 # replicate 5 (lit 40 0) @ [lit 210 0, lit 300 0] @ [lit 41 0]) (lit 2 1) =
   frozenEWMA (lit 40 0 # replicate 5 (lit 40 0) @ [lit 41 0]) (lit 2 1)"
proof (rule frozenEWMA_ignores_outliers)
  have "list_all (outlier (ewma_accepted [lit 40 0] (replicate 5 (lit 40 0)))) [lit 210 0, lit 300 0]" by code_simp
  then show "\<forall>x \<in> set [lit 210 0, lit 300 0]. outlier (ewma_accepted [lit 40 0] (replicate 5 (lit 40 0))) x"
    by (simp add: list_all_iff)
qed



end
