(* ===== verification/AuditStore.thy ===== *)
theory AuditStore
  imports Domain
begin

text \<open>
  \<open>internal/repository/audit.go\<close>: the in-memory audit store. Its maps are updated under a mutex,
  so each operation is one atomic step on the state. \<open>audit_store\<close> is the interface
  \<open>AuditStore\<close> of \<open>internal/app/service.go\<close>: an operation that succeeds appends its entry to the
  entries of its recommendation and changes nothing else.
\<close>

record audit_state =
  au_acks :: "acknowledgement list gomap"
  au_outcomes :: "outcome list gomap"

definition NewMemoryAuditStore :: audit_state where
  "NewMemoryAuditStore = \<lparr>au_acks = [], au_outcomes = []\<rparr>"

definition audit_Acknowledge :: "acknowledgement \<Rightarrow> audit_state \<Rightarrow> string option \<times> audit_state" where
  "audit_Acknowledge ack s =
     (None, s\<lparr>au_acks := AList.update (ak_RecommendationID ack)
        (mget [] (au_acks s) (ak_RecommendationID ack) @ [ack]) (au_acks s)\<rparr>)"

definition audit_Outcome :: "outcome \<Rightarrow> audit_state \<Rightarrow> string option \<times> audit_state" where
  "audit_Outcome oc s =
     (None, s\<lparr>au_outcomes := AList.update (oc_RecommendationID oc)
        (mget [] (au_outcomes s) (oc_RecommendationID oc) @ [oc]) (au_outcomes s)\<rparr>)"

subsection \<open>The interface\<close>

locale audit_store =
  fixes store_ack :: "acknowledgement \<Rightarrow> 's \<Rightarrow> string option \<times> 's"
    and store_outcome :: "outcome \<Rightarrow> 's \<Rightarrow> string option \<times> 's"
    and acks :: "'s \<Rightarrow> string \<Rightarrow> acknowledgement list"
    and outcomes :: "'s \<Rightarrow> string \<Rightarrow> outcome list"
  assumes ack_appends: "store_ack a s = (None, s') \<Longrightarrow>
      acks s' = (acks s)(ak_RecommendationID a := acks s (ak_RecommendationID a) @ [a]) \<and> outcomes s' = outcomes s"
    and ack_fails: "store_ack a s = (Some e, s') \<Longrightarrow> acks s' = acks s \<and> outcomes s' = outcomes s"
    and outcome_appends: "store_outcome q s = (None, s') \<Longrightarrow>
      outcomes s' = (outcomes s)(oc_RecommendationID q := outcomes s (oc_RecommendationID q) @ [q]) \<and> acks s' = acks s"
    and outcome_fails: "store_outcome q s = (Some e, s') \<Longrightarrow> acks s' = acks s \<and> outcomes s' = outcomes s"
begin

text \<open>Histories only grow.\<close>

lemma ack_prefix:
  assumes "store_ack a s = (e, s')" shows "\<exists>new. acks s' n = acks s n @ new"
  using ack_appends [of a s s'] ack_fails [of a s _ s'] assms by (cases e) auto

lemma outcome_prefix:
  assumes "store_outcome q s = (e, s')" shows "\<exists>new. outcomes s' n = outcomes s n @ new"
  using outcome_appends [of q s s'] outcome_fails [of q s _ s'] assms by (cases e) auto

end

definition memory_acks :: "audit_state \<Rightarrow> string \<Rightarrow> acknowledgement list" where
  "memory_acks s = mget [] (au_acks s)"

definition memory_outcomes :: "audit_state \<Rightarrow> string \<Rightarrow> outcome list" where
  "memory_outcomes s = mget [] (au_outcomes s)"

interpretation memory: audit_store audit_Acknowledge audit_Outcome memory_acks memory_outcomes
  by unfold_locales
    (auto simp: audit_Acknowledge_def audit_Outcome_def memory_acks_def memory_outcomes_def fun_eq_iff mget_update)

end
