(* ===== verification/Sha256.thy ===== *)
theory Sha256
  imports Prelude
begin

text \<open>
  \<open>sha256.Sum256\<close> of Go's standard library (FIPS 180-4), which the service hashes
  recommendation keys with and the generator its routing and request ids. Bytes are \<open>8 word\<close>,
  the state is eight \<open>32 word\<close>s with wrapping addition.
\<close>

unbundle bit_operations_syntax

type_synonym byte = "8 word"

text \<open>The constants: the first 32 bits of the fractional parts of the cube roots of the first 64
  primes, and of the square roots of the first eight. \<open>root_floor\<close> finds an integer root bit by bit.\<close>

definition root_bit :: "nat \<Rightarrow> int \<Rightarrow> nat \<Rightarrow> int \<Rightarrow> int" where
  "root_bit k n b r = (if (r + 2 ^ b) ^ k \<le> n then r + 2 ^ b else r)"

definition root_floor :: "nat \<Rightarrow> int \<Rightarrow> int" where
  "root_floor k n = fold (root_bit k n) (rev [0..<40]) 0"

definition primes_below :: "int \<Rightarrow> int list" where
  "primes_below n = filter (\<lambda>p. list_all (\<lambda>q. p mod q \<noteq> 0) [2..p - 1]) [2..n - 1]"

definition sha_k :: "u32 list" where
  "sha_k = map (\<lambda>p. word_of_int (root_floor 3 (p * 2 ^ 96))) (primes_below 312)"

definition sha_init :: "u32 list" where
  "sha_init = map (\<lambda>p. word_of_int (root_floor 2 (p * 2 ^ 64))) (primes_below 20)"

lemma sha_init_length: "length sha_init = 8"
proof -
  have "primes_below 20 = [2, 3, 5, 7, 11, 13, 17, 19]" by code_simp
  then show ?thesis by (simp add: sha_init_def)
qed

subsection \<open>Bytes and words, big endian\<close>

definition word_bytes :: "u32 \<Rightarrow> byte list" where
  "word_bytes w = map (\<lambda>k. ucast (drop_bit k w)) [24, 16, 8, 0]"

definition bytes_word :: "byte list \<Rightarrow> u32" where
  "bytes_word bs = fold (\<lambda>b w. push_bit 8 w OR ucast b) bs 0"

function chunks :: "nat \<Rightarrow> 'a list \<Rightarrow> 'a list list" where
  "chunks n xs = (if xs = [] \<or> n = 0 then [] else take n xs # chunks n (drop n xs))"
  by pat_completeness auto
termination by (relation "measure (\<lambda>(n, xs). length xs)") auto

declare chunks.simps [simp del]

text \<open>A one bit, zeros, and the length in bits as 64 bits, up to a multiple of 64 bytes.\<close>

definition sha_pad :: "byte list \<Rightarrow> byte list" where
  "sha_pad bs =
     (let n = length bs; bits = (of_nat (8 * n) :: u64)
      in bs @ [0x80] @ replicate ((119 - n mod 64) mod 64) 0 @
         map (\<lambda>k. ucast (drop_bit k bits)) [56, 48, 40, 32, 24, 16, 8, 0])"

subsection \<open>The compression function\<close>

definition small_sigma0 :: "u32 \<Rightarrow> u32" where
  "small_sigma0 x = word_rotr 7 x XOR word_rotr 18 x XOR drop_bit 3 x"

definition small_sigma1 :: "u32 \<Rightarrow> u32" where
  "small_sigma1 x = word_rotr 17 x XOR word_rotr 19 x XOR drop_bit 10 x"

definition big_sigma0 :: "u32 \<Rightarrow> u32" where
  "big_sigma0 x = word_rotr 2 x XOR word_rotr 13 x XOR word_rotr 22 x"

definition big_sigma1 :: "u32 \<Rightarrow> u32" where
  "big_sigma1 x = word_rotr 6 x XOR word_rotr 11 x XOR word_rotr 25 x"

definition extend_schedule :: "u32 list \<Rightarrow> u32 list" where
  "extend_schedule ws =
     (let t = length ws
      in ws @ [small_sigma1 (ws ! (t - 2)) + ws ! (t - 7) + small_sigma0 (ws ! (t - 15)) + ws ! (t - 16)])"

definition schedule :: "byte list \<Rightarrow> u32 list" where
  "schedule block = (extend_schedule ^^ 48) (map bytes_word (chunks 4 block))"

fun sha_round :: "u32 \<times> u32 \<Rightarrow> u32 list \<Rightarrow> u32 list" where
  "sha_round (k, w) [a, b, c, d, e, f, g, h] =
     (let t1 = h + big_sigma1 e + ((e AND f) XOR (NOT e AND g)) + k + w;
          t2 = big_sigma0 a + ((a AND b) XOR (a AND c) XOR (b AND c))
      in [t1 + t2, a, b, c, d + t1, e, f, g])"
| "sha_round _ hs = hs"

definition sha_block :: "byte list \<Rightarrow> u32 list \<Rightarrow> u32 list" where
  "sha_block block hs = map2 (+) hs (fold sha_round (zip sha_k (schedule block)) hs)"

definition sha256 :: "byte list \<Rightarrow> byte list" where
  "sha256 bs = concat (map word_bytes (fold sha_block (chunks 64 (sha_pad bs)) sha_init))"

text \<open>Strings of the model are strings of bytes.\<close>

definition string_bytes :: "string \<Rightarrow> byte list" where
  "string_bytes s = map of_char s"

subsection \<open>The digest has 32 bytes\<close>

lemma sha_round_length [simp]: "length (sha_round kw hs) = length hs"
  by (induction kw hs rule: sha_round.induct) (simp_all add: Let_def)

lemma fold_round_length: "length (fold sha_round kws hs) = length hs"
  by (induction kws arbitrary: hs) simp_all

lemma sha_block_length [simp]: "length (sha_block b hs) = length hs"
  by (simp add: sha_block_def fold_round_length)

lemma fold_block_length: "length (fold sha_block bs hs) = length hs"
  by (induction bs arbitrary: hs) simp_all

lemma word_bytes_length [simp]: "length (word_bytes w) = 4"
  by (simp add: word_bytes_def)

lemma sha256_length [simp]: "length (sha256 bs) = 32"
proof -
  have "length (concat (map word_bytes ws)) = 4 * length ws" for ws by (induction ws) simp_all
  then show ?thesis by (simp add: sha256_def fold_block_length sha_init_length)
qed

end
