(* ===== verification/Service.thy ===== *)
theory Service
  imports Scoring_Props Detection AuditStore Sha256
begin

text \<open>
  \<open>internal/app/service.go\<close>. The service's own state is \<open>lastGenerated\<close> and, as a log, what its
  publisher accepted. What the repository, the detector, the scorer, the publisher and the clock
  answer during one call is a value of \<open>deps\<close>; errors carry the text that Go's wrapping gives
  them. The \<open>range\<close> statements of this file are numbered 5 (\<open>hasAnomaly\<close>), 6 (\<open>confidence\<close>) and 7
  (\<open>latestByNode\<close>); detector and scorer get orders of their own.
\<close>

subsection \<open>Errors, configuration, state, dependencies\<close>

datatype app_error =
    ErrInvalidRequest
  | ErrDependencyUnavailable string string
  | ErrRecommendationNotFound
  | OtherError string

definition app_error_text :: "app_error \<Rightarrow> string" where
  "app_error_text e =
     (case e of
        ErrInvalidRequest \<Rightarrow> ''invalid request''
      | ErrDependencyUnavailable operation cause \<Rightarrow> ''dependency unavailable: '' @ operation @ '': '' @ cause
      | ErrRecommendationNotFound \<Rightarrow> ''recommendation not found''
      | OtherError text \<Rightarrow> text)"

text \<open>What \<open>Propose\<close> returns through the interface: a known error of package scoring or another.\<close>

datatype propose_error = Known scoring_error | Unexpected string

record app_config =
  ac_HistoryWindows :: int
  ac_TTL :: duration
  ac_MinimumDwell :: duration
  ac_QueryVersion :: string
  ac_ModelVersion :: string
  ac_ConfigHash :: string

record service =
  sv_lastGenerated :: "instant gomap"
  sv_published :: "recommendation list"

definition app_New :: service where
  "app_New = \<lparr>sv_lastGenerated = [], sv_published = []\<rparr>"

record deps =
  dp_Ping :: "string option"
  dp_History :: "scope \<Rightarrow> int \<Rightarrow> string + node_metric list"
  dp_LatestRecommendation :: "scope \<Rightarrow> string + recommendation option"
  dp_detect :: "range_order \<Rightarrow> node_metric list \<Rightarrow> signal gomap"
  dp_propose :: "range_order \<Rightarrow> instant \<Rightarrow> node_metric list \<Rightarrow> f64 gomap \<Rightarrow> signal gomap \<Rightarrow> propose_error + proposal"
  dp_Publish :: "recommendation \<Rightarrow> string option"
  dp_now :: instant

subsection \<open>Scopes\<close>

definition in_range :: "char \<Rightarrow> char \<Rightarrow> char \<Rightarrow> bool" where
  "in_range lo hi c \<longleftrightarrow> lo \<le> c \<and> c \<le> hi"

definition lower_digit :: "char \<Rightarrow> bool" where
  "lower_digit c \<longleftrightarrow> in_range CHR ''a'' CHR ''z'' c \<or> in_range CHR ''0'' CHR ''9'' c"

definition name_char :: "char \<Rightarrow> bool" where
  "name_char c \<longleftrightarrow> c \<in> set ''._-''"

definition locationPattern :: "string \<Rightarrow> bool" where
  "locationPattern s =
     (case s of [] \<Rightarrow> False
      | c # cs \<Rightarrow> lower_digit c \<and> list_all (\<lambda>c. lower_digit c \<or> name_char c) cs \<and> 1 \<le> length cs \<and> length cs \<le> 127)"

text \<open>\<open>after p s\<close>: the rest of \<open>s\<close> behind the prefix \<open>p\<close>.\<close>

definition after :: "string \<Rightarrow> string \<Rightarrow> string option" where
  "after p s = (if take (length p) s = p then Some (drop (length p) s) else None)"

definition networkPattern :: "string \<Rightarrow> bool" where
  "networkPattern s \<longleftrightarrow>
     (case after ''as-synthetic-'' s of
        Some r \<Rightarrow> r \<noteq> [] \<and> list_all (\<lambda>c. in_range CHR ''A'' CHR ''Z'' c \<or> lower_digit c \<or> name_char c) r
      | None \<Rightarrow> False) \<or>
     (case after ''anon:'' s of
        Some r \<Rightarrow> list_all (\<lambda>c. in_range CHR ''0'' CHR ''9'' c \<or> in_range CHR ''a'' CHR ''f'' c) r \<and>
          16 \<le> length r \<and> length r \<le> 64
      | None \<Rightarrow> False) \<or>
     s = ''UNKNOWN''"

definition validateScope :: "scope \<Rightarrow> app_error option" where
  "validateScope s =
     (if \<not> locationPattern (sc_Location s) \<or> \<not> networkPattern (sc_NetworkID s)
      then Some ErrInvalidRequest else None)"

subsection \<open>Helpers\<close>

definition hasAnomaly :: "range_order \<Rightarrow> signal gomap \<Rightarrow> bool" where
  "hasAnomaly it signals = list_ex (\<lambda>n. sg_Anomalous (mget zero_signal signals n)) (it 5 (mkeys signals))"

definition recommendationID :: "scope \<Rightarrow> instant \<Rightarrow> string \<Rightarrow> string" where
  "recommendationID s windowEnd configHash =
     (let hash = sha256 (string_bytes (scope_Key s @ ''|'' @ format_rfc3339nano windowEnd @ ''|'' @ configHash))
      in ''rec-'' @ hex_encode (take 12 hash))"

definition confidence_step :: "signal gomap \<Rightarrow> node_metric gomap \<Rightarrow> string \<Rightarrow> f64 \<times> u64 \<Rightarrow> f64 \<times> u64" where
  "confidence_step signals evidence nodeID st =
     (math_max (fst st) (sg_Severity (mget zero_signal signals nodeID)),
      snd st + nm_Requests (the (map_of evidence nodeID)))"

definition confidence :: "range_order \<Rightarrow> signal gomap \<Rightarrow> node_metric gomap \<Rightarrow> f64" where
  "confidence it signals evidence =
     (let (maxSeverity, samples) = fold (confidence_step signals evidence) (it 6 (mkeys evidence)) (0, 0);
          sampleFactor = math_min 1 (f64_of_u64 samples / lit 3000 0)
      in math_round (math_min (lit 99 2) (lit 45 2 + lit 35 2 * maxSeverity + lit 20 2 * sampleFactor) * lit 1000 0)
           / lit 1000 0)"

definition app_latestByNode :: "range_order \<Rightarrow> node_metric list \<Rightarrow> node_metric list" where
  "app_latestByNode it metrics =
     (let latest = latest_map metrics
      in sort_key nm_NodeID (map (\<lambda>n. the (map_of latest n)) (it 7 (mkeys latest))))"

definition sortedUnique :: "string list \<Rightarrow> string list" where
  "sortedUnique values = sort (append_new [] values)"

definition lastGeneration :: "scope \<Rightarrow> service \<Rightarrow> instant option" where
  "lastGeneration sc s = map_of (sv_lastGenerated s) (scope_Key sc)"

definition recordGeneration :: "scope \<Rightarrow> instant \<Rightarrow> service \<Rightarrow> service" where
  "recordGeneration sc t s = s\<lparr>sv_lastGenerated := AList.update (scope_Key sc) t (sv_lastGenerated s)\<rparr>"

subsection \<open>The operations\<close>

definition service_Ready :: "deps \<Rightarrow> app_error option" where
  "service_Ready d =
     (case dp_Ping d of Some err \<Rightarrow> Some (ErrDependencyUnavailable ''clickhouse'' err) | None \<Rightarrow> None)"

definition service_Metrics :: "range_order \<Rightarrow> app_config \<Rightarrow> deps \<Rightarrow> scope \<Rightarrow> app_error + node_metric list" where
  "service_Metrics it c d sc =
     (case validateScope sc of
        Some err \<Rightarrow> Inl err
      | None \<Rightarrow>
          (case dp_History d sc (ac_HistoryWindows c) of
             Inl err \<Rightarrow> Inl (ErrDependencyUnavailable ''clickhouse history'' err)
           | Inr metrics \<Rightarrow> Inr (app_latestByNode it metrics)))"

definition service_Latest :: "deps \<Rightarrow> scope \<Rightarrow> app_error + recommendation" where
  "service_Latest d sc =
     (case validateScope sc of
        Some err \<Rightarrow> Inl err
      | None \<Rightarrow>
          (case dp_LatestRecommendation d sc of
             Inl err \<Rightarrow> Inl (ErrDependencyUnavailable ''clickhouse latest recommendation'' err)
           | Inr None \<Rightarrow> Inl ErrRecommendationNotFound
           | Inr (Some r) \<Rightarrow> Inr r))"

definition not_generated :: "string \<Rightarrow> evaluation_result" where
  "not_generated reason = \<lparr>rs_Generated = False, rs_ReasonCodes = [reason], rs_Recommendation = None\<rparr>"

definition propose_failed :: "propose_error \<Rightarrow> app_error + evaluation_result" where
  "propose_failed e =
     (case e of
        Known ErrStaleMetrics \<Rightarrow> Inr (not_generated ''STALE_METRICS'')
      | Known ErrFutureMetrics \<Rightarrow> Inr (not_generated ''FUTURE_METRICS'')
      | Known ErrInsufficientCandidates \<Rightarrow> Inr (not_generated ''INSUFFICIENT_HEALTHY_CANDIDATES'')
      | Known ErrNoMaterialBenefit \<Rightarrow> Inr (not_generated ''BENEFIT_MARGIN_NOT_MET'')
      | Unexpected text \<Rightarrow> Inl (OtherError text))"

definition build_recommendation ::
    "range_order \<Rightarrow> app_config \<Rightarrow> scope \<Rightarrow> instant \<Rightarrow> signal gomap \<Rightarrow> proposal \<Rightarrow> recommendation" where
  "build_recommendation it c sc now signals p =
     \<lparr>rc_SchemaVersion = 1,
      rc_RecommendationID = recommendationID sc (pr_WindowEnd p) (ac_ConfigHash c),
      rc_CreatedAt = now,
      rc_ValidUntil = time_add now (ac_TTL c),
      rc_Mode = ''shadow'',
      rc_Scope = sc,
      rc_Action = ''adjust_node_weights'',
      rc_Current = pr_Current p,
      rc_Proposed = pr_Proposed p,
      rc_EvidenceWindow = format_int (ac_HistoryWindows c) @ ''m'',
      rc_ReasonCodes = sortedUnique (pr_ReasonCodes p),
      rc_Expected = pr_Expected p,
      rc_Confidence = confidence it signals (pr_Evidence p),
      rc_ModelVersion = ac_ModelVersion c,
      rc_Revision = 1,
      rc_InputWindowStart = pr_WindowStart p,
      rc_InputWindowEnd = pr_WindowEnd p,
      rc_QueryVersion = ac_QueryVersion c,
      rc_ConfigHash = ac_ConfigHash c,
      rc_Evidence = pr_Evidence p\<rparr>"

text \<open>\<open>now.Sub(last) < MinimumDwell\<close>, for a time that may be absent.\<close>

definition dwelling :: "app_config \<Rightarrow> instant \<Rightarrow> instant option \<Rightarrow> bool" where
  "dwelling c now previous =
     (case previous of None \<Rightarrow> False | Some t \<Rightarrow> sint (time_sub now t) < sint (ac_MinimumDwell c))"

definition detector_order :: "range_order \<Rightarrow> range_order" where
  "detector_order it = (\<lambda>n. it (100 + n))"

definition scorer_order :: "range_order \<Rightarrow> range_order" where
  "scorer_order it = (\<lambda>n. it (200 + n))"

definition service_Evaluate ::
    "range_order \<Rightarrow> app_config \<Rightarrow> deps \<Rightarrow> evaluation_request \<Rightarrow> service \<Rightarrow> (app_error + evaluation_result) \<times> service" where
  "service_Evaluate it c d request s =
     (case validateScope (er_Scope request) of
        Some err \<Rightarrow> (Inl err, s)
      | None \<Rightarrow>
     (case dp_History d (er_Scope request) (ac_HistoryWindows c) of
        Inl err \<Rightarrow> (Inl (ErrDependencyUnavailable ''clickhouse history'' err), s)
      | Inr history \<Rightarrow>
        if history = [] then (Inr (not_generated ''INSUFFICIENT_HISTORY''), s)
        else let signals = dp_detect d (detector_order it) history
        in if \<not> hasAnomaly it signals then (Inr (not_generated ''NO_ANOMALY''), s)
        else let now = dp_now d
        in if dwelling c now (lastGeneration (er_Scope request) s) then (Inr (not_generated ''MINIMUM_DWELL_ACTIVE''), s)
        else (case dp_LatestRecommendation d (er_Scope request) of
           Inl err \<Rightarrow> (Inl (ErrDependencyUnavailable ''clickhouse latest recommendation'' err), s)
         | Inr latest \<Rightarrow>
           if dwelling c now (map_option rc_CreatedAt latest) then (Inr (not_generated ''MINIMUM_DWELL_ACTIVE''), s)
           else (case dp_propose d (scorer_order it) now history (er_CurrentWeights request) signals of
              Inl e \<Rightarrow> (propose_failed e, s)
            | Inr p \<Rightarrow>
              let r = build_recommendation it c (er_Scope request) now signals p
              in if time_sub (rc_ValidUntil r) (rc_CreatedAt r) \<noteq> ac_TTL c
                 then (Inl (OtherError ''internal TTL invariant failed''), s)
                 else (case dp_Publish d r of
                    Some err \<Rightarrow> (Inl (ErrDependencyUnavailable ''kafka publish'' err), s)
                  | None \<Rightarrow>
                    (Inr \<lparr>rs_Generated = True, rs_ReasonCodes = rc_ReasonCodes r, rs_Recommendation = Some r\<rparr>,
                     recordGeneration (er_Scope request) now (s\<lparr>sv_published := sv_published s @ [r]\<rparr>)))))))"

text \<open>Acknowledgements and outcomes: the audit store is a state of its own, \<open>store\<close> its operation.\<close>

definition service_Acknowledge ::
    "instant \<Rightarrow> (acknowledgement \<Rightarrow> 's \<Rightarrow> string option \<times> 's) \<Rightarrow> string \<Rightarrow> acknowledgement \<Rightarrow> 's \<Rightarrow> app_error option \<times> 's" where
  "service_Acknowledge now store i ack s =
     (if i = [] \<or> ak_Actor ack = [] \<or> ak_Status ack = [] then (Some ErrInvalidRequest, s)
      else let a1 = ack\<lparr>ak_RecommendationID := i\<rparr>;
               a2 = (if is_zero_time (ak_ObservedAt a1) then a1\<lparr>ak_ObservedAt := now\<rparr> else a1)
           in case store a2 s of
                (Some err, s') \<Rightarrow> (Some (ErrDependencyUnavailable ''persist acknowledgement'' err), s')
              | (None, s') \<Rightarrow> (None, s'))"

definition service_RecordOutcome ::
    "instant \<Rightarrow> (outcome \<Rightarrow> 's \<Rightarrow> string option \<times> 's) \<Rightarrow> string \<Rightarrow> outcome \<Rightarrow> 's \<Rightarrow> app_error option \<times> 's" where
  "service_RecordOutcome now store i oc s =
     (if i = [] then (Some ErrInvalidRequest, s)
      else let o1 = oc\<lparr>oc_RecommendationID := i\<rparr>;
               o2 = (if is_zero_time (oc_ObservedAt o1) then o1\<lparr>oc_ObservedAt := now\<rparr> else o1)
           in case store o2 s of
                (Some err, s') \<Rightarrow> (Some (ErrDependencyUnavailable ''persist outcome'' err), s')
              | (None, s') \<Rightarrow> (None, s'))"

end
