(* ===== verification/Service_Props.thy ===== *)
theory Service_Props
  imports Service
begin

text \<open>
  The properties of the service's operations: what a generated recommendation is, when one is
  published, what failures leave behind, and the identity and confidence it carries.
\<close>

subsection \<open>Checking and finishing\<close>

text \<open>
  \<open>Evaluate\<close> in two parts: everything up to the recommendation, which only reads the state, and
  the publication with \<open>recordGeneration\<close>.
\<close>

definition evaluate_check ::
    "range_order \<Rightarrow> app_config \<Rightarrow> deps \<Rightarrow> evaluation_request \<Rightarrow> service \<Rightarrow> (app_error + evaluation_result) + recommendation" where
  "evaluate_check it c d request s =
     (case validateScope (er_Scope request) of
        Some err \<Rightarrow> Inl (Inl err)
      | None \<Rightarrow>
     (case dp_History d (er_Scope request) (ac_HistoryWindows c) of
        Inl err \<Rightarrow> Inl (Inl (ErrDependencyUnavailable ''clickhouse history'' err))
      | Inr history \<Rightarrow>
        if history = [] then Inl (Inr (not_generated ''INSUFFICIENT_HISTORY''))
        else let signals = dp_detect d (detector_order it) history
        in if \<not> hasAnomaly it signals then Inl (Inr (not_generated ''NO_ANOMALY''))
        else if dwelling c (dp_now d) (lastGeneration (er_Scope request) s) then Inl (Inr (not_generated ''MINIMUM_DWELL_ACTIVE''))
        else (case dp_LatestRecommendation d (er_Scope request) of
           Inl err \<Rightarrow> Inl (Inl (ErrDependencyUnavailable ''clickhouse latest recommendation'' err))
         | Inr latest \<Rightarrow>
           if dwelling c (dp_now d) (map_option rc_CreatedAt latest) then Inl (Inr (not_generated ''MINIMUM_DWELL_ACTIVE''))
           else (case dp_propose d (scorer_order it) (dp_now d) history (er_CurrentWeights request) signals of
              Inl e \<Rightarrow> Inl (propose_failed e)
            | Inr p \<Rightarrow> Inr (build_recommendation it c (er_Scope request) (dp_now d) signals p)))))"

definition evaluate_finish :: "deps \<Rightarrow> recommendation \<Rightarrow> service \<Rightarrow> (app_error + evaluation_result) \<times> service" where
  "evaluate_finish d r s =
     (case dp_Publish d r of
        Some err \<Rightarrow> (Inl (ErrDependencyUnavailable ''kafka publish'' err), s)
      | None \<Rightarrow>
        (Inr \<lparr>rs_Generated = True, rs_ReasonCodes = rc_ReasonCodes r, rs_Recommendation = Some r\<rparr>,
         recordGeneration (rc_Scope r) (rc_CreatedAt r) (s\<lparr>sv_published := sv_published s @ [r]\<rparr>)))"

lemma build_fields [simp]:
  "rc_CreatedAt (build_recommendation it c sc now signals p) = now"
  "rc_ValidUntil (build_recommendation it c sc now signals p) = time_add now (ac_TTL c)"
  "rc_Scope (build_recommendation it c sc now signals p) = sc"
  by (simp_all add: build_recommendation_def)

lemma Evaluate_split:
  "service_Evaluate it c d request s =
     (case evaluate_check it c d request s of Inl res \<Rightarrow> (res, s) | Inr r \<Rightarrow> evaluate_finish d r s)"
  unfolding service_Evaluate_def evaluate_check_def evaluate_finish_def Let_def
  by (auto split: option.split sum.split)

text \<open>What a recommendation is built from.\<close>

definition justified :: "range_order \<Rightarrow> app_config \<Rightarrow> deps \<Rightarrow> evaluation_request \<Rightarrow> service \<Rightarrow> recommendation \<Rightarrow> bool" where
  "justified it c d request s r \<longleftrightarrow> validateScope (er_Scope request) = None \<and>
     (\<exists>history latest p. dp_History d (er_Scope request) (ac_HistoryWindows c) = Inr history \<and> history \<noteq> [] \<and>
        hasAnomaly it (dp_detect d (detector_order it) history) \<and>
        \<not> dwelling c (dp_now d) (lastGeneration (er_Scope request) s) \<and>
        dp_LatestRecommendation d (er_Scope request) = Inr latest \<and>
        \<not> dwelling c (dp_now d) (map_option rc_CreatedAt latest) \<and>
        dp_propose d (scorer_order it) (dp_now d) history (er_CurrentWeights request)
          (dp_detect d (detector_order it) history) = Inr p \<and>
        r = build_recommendation it c (er_Scope request) (dp_now d) (dp_detect d (detector_order it) history) p)"

lemma check_justified: "evaluate_check it c d request s = Inr r \<longleftrightarrow> justified it c d request s r"
  unfolding evaluate_check_def justified_def Let_def
  by (auto split: option.splits sum.splits if_splits)

lemma propose_failed_not_generated: "propose_failed e = Inr res \<Longrightarrow> \<not> rs_Generated res"
  by (auto simp: propose_failed_def not_generated_def split: propose_error.splits scoring_error.splits)

lemma check_not_generated: "evaluate_check it c d request s = Inl (Inr res) \<Longrightarrow> \<not> rs_Generated res"
  unfolding evaluate_check_def Let_def
  by (auto simp: not_generated_def propose_failed_not_generated split: option.splits sum.splits if_splits)

lemma Evaluate_outcomes:
  "(\<exists>r. justified it c d request s r \<and> dp_Publish d r = None \<and>
      service_Evaluate it c d request s =
        (Inr \<lparr>rs_Generated = True, rs_ReasonCodes = rc_ReasonCodes r, rs_Recommendation = Some r\<rparr>,
         recordGeneration (rc_Scope r) (rc_CreatedAt r) (s\<lparr>sv_published := sv_published s @ [r]\<rparr>))) \<or>
   (\<exists>r e. justified it c d request s r \<and> dp_Publish d r = Some e \<and>
      service_Evaluate it c d request s = (Inl (ErrDependencyUnavailable ''kafka publish'' e), s)) \<or>
   (\<exists>res. evaluate_check it c d request s = Inl res \<and> service_Evaluate it c d request s = (res, s) \<and>
      (\<forall>x. res = Inr x \<longrightarrow> \<not> rs_Generated x))"
proof (cases "evaluate_check it c d request s")
  case (Inl res)
  then show ?thesis using check_not_generated by (auto simp: Evaluate_split)
next
  case (Inr r)
  then show ?thesis
    using check_justified [of it c d request s r]
    by (cases "dp_Publish d r") (auto simp: Evaluate_split evaluate_finish_def)
qed

subsection \<open>Scopes and keys\<close>

lemma location_no_bar: "locationPattern s \<Longrightarrow> CHR ''|'' \<notin> set s"
proof -
  assume s: "locationPattern s"
  have "\<not> lower_digit CHR ''|''" "\<not> name_char CHR ''|''" by code_simp+
  then show ?thesis using s by (auto simp: locationPattern_def list_all_iff split: list.splits)
qed

lemma append_bar_inject:
  assumes "CHR ''|'' \<notin> set a" "CHR ''|'' \<notin> set b" "a @ ''|'' @ x = b @ ''|'' @ y"
  shows "a = b \<and> x = y"
  using assms
proof (induction a arbitrary: b)
  case Nil
  then show ?case by (cases b) auto
next
  case (Cons c a)
  then show ?case by (cases b) auto
qed

lemma validateScope_None: "validateScope s = None \<longleftrightarrow> locationPattern (sc_Location s) \<and> networkPattern (sc_NetworkID s)"
  by (simp add: validateScope_def)

lemma scope_Key_inj:
  assumes "validateScope s = None" "validateScope t = None" "scope_Key s = scope_Key t"
  shows "s = t"
proof -
  have "sc_Location s = sc_Location t \<and> sc_NetworkID s = sc_NetworkID t"
    using assms by (intro append_bar_inject) (simp_all add: validateScope_None location_no_bar scope_Key_def)
  then show ?thesis by (cases s; cases t) simp
qed

subsection \<open>Sorted reasons and ids\<close>

lemma sortedUnique_props:
  "sorted (sortedUnique values)" "distinct (sortedUnique values)" "set (sortedUnique values) = set values"
  by (simp_all add: sortedUnique_def distinct_append_new)

lemma recommendationID_shape:
  "length (recommendationID s t h) = 28 \<and> take 4 (recommendationID s t h) = ''rec-'' \<and>
   (\<forall>ch \<in> set (drop 4 (recommendationID s t h)). is_hex ch)"
  using hex_encode_hex by (simp add: recommendationID_def Let_def)

subsection \<open>Confidence\<close>

lemma lit_confidence:
  "finite_f64 (lit 45 2) \<and> val (lit 45 2) = rnd (45 / 100)" "finite_f64 (lit 99 2) \<and> val (lit 99 2) = rnd (99 / 100)"
  "finite_f64 (lit 35 2) \<and> val (lit 35 2) = rnd (35 / 100)" "finite_f64 (lit 20 2) \<and> val (lit 20 2) = rnd (20 / 100)"
  "finite_f64 (lit 1000 0) \<and> val (lit 1000 0) = 1000" "finite_f64 (lit 3000 0) \<and> val (lit 3000 0) = 3000"
proof -
  have small: "rnd x < ovf" if "0 \<le> x" "x \<le> 1" for x
    using bound_rnd(3) [OF bound_01 that] by (simp add: abs_less_iff)
  show "finite_f64 (lit 45 2) \<and> val (lit 45 2) = rnd (45 / 100)" "finite_f64 (lit 99 2) \<and> val (lit 99 2) = rnd (99 / 100)"
    "finite_f64 (lit 35 2) \<and> val (lit 35 2) = rnd (35 / 100)" "finite_f64 (lit 20 2) \<and> val (lit 20 2) = rnd (20 / 100)"
    using lit_val [of 45 2] lit_val [of 99 2] lit_val [of 35 2] lit_val [of 20 2]
      small [of "45 / 100"] small [of "99 / 100"] small [of "35 / 100"] small [of "20 / 100"] by simp_all
  have r: "rnd 1000 = 1000" "rnd 3000 = 3000"
    using rnd_representable [OF representable_numeral [of "num.Bit0 num.One"]] representable_of_int [of 1000] representable_of_int [of 3000]
    by (simp_all add: rnd_representable)
  show "finite_f64 (lit 1000 0) \<and> val (lit 1000 0) = 1000" "finite_f64 (lit 3000 0) \<and> val (lit 3000 0) = 3000"
    using lit_val [of 1000 0] lit_val [of 3000 0] r ovf_big [of 1000] ovf_big [of 3000] by simp_all
qed

lemma rnd_unit: "0 \<le> x \<Longrightarrow> x \<le> 1 \<Longrightarrow> 0 \<le> rnd x \<and> rnd x \<le> 1"
  using bound_rnd(1,2) [OF bound_01] by blast

lemma sample_factor_between: "between 0 1 (math_min 1 (f64_of_u64 w / lit 3000 0))"
proof -
  have "uint w \<le> 2 ^ 64" using uint_bounded [of w] by simp
  then have "real_of_int (uint w) \<le> of_int (2 ^ 64)" by (simp only: of_int_le_iff)
  then have le: "real_of_int (uint w) \<le> p2 64" using p2_nat [of 64] by simp
  have b: "bound 0 (p2 64)" by (rule bound_p2) simp
  have ge: "0 \<le> real_of_int (uint w)" by (simp only: of_int_0_le_iff uint_ge_0)
  have n: "finite_f64 (f64_of_u64 w)" "0 \<le> val (f64_of_u64 w)" "val (f64_of_u64 w) \<le> p2 64"
    using f64_of_int_val [of "uint w"] bound_rnd [OF b ge le] by (simp_all add: f64_of_u64_def)
  have q: "0 \<le> val (f64_of_u64 w) / val (lit 3000 0)" "val (f64_of_u64 w) / val (lit 3000 0) \<le> p2 64"
    using n lit_confidence(6) divide_left_mono [of 1 3000 "val (f64_of_u64 w)"] by simp_all
  have "between 0 (p2 64) (f64_of_u64 w / lit 3000 0)"
    using divide_between [OF b n(1) _ _ q] lit_confidence(6) by simp
  then show ?thesis using math_min_val [OF finite_one, of "f64_of_u64 w / lit 3000 0"] by (simp add: between_def)
qed

lemma confidence_severity:
  assumes "\<forall>n. between 0 1 (sg_Severity (mget zero_signal signals n))" "between 0 1 m"
  shows "between 0 1 (fst (fold (confidence_step signals evidence) ns (m, k)))"
  using assms(2)
proof (induction ns arbitrary: m k)
  case (Cons n ns)
  have "between 0 1 (math_max m (sg_Severity (mget zero_signal signals n)))"
    using Cons.prems assms(1) [THEN spec, of n] math_max_val [of m "sg_Severity (mget zero_signal signals n)"]
    by (simp add: between_def le_max_iff_disj)
  then show ?case unfolding fold_Cons o_apply confidence_step_def [of _ _ n] fst_conv snd_conv by (rule Cons.IH)
qed simp

lemma confidence_between:
  assumes "\<forall>n. between 0 1 (sg_Severity (mget zero_signal signals n))"
  shows "between (val (lit 45 2)) (val (lit 99 2)) (confidence it signals evidence)"
proof -
  obtain m k where mk: "fold (confidence_step signals evidence) (it 6 (mkeys evidence)) (0, 0) = (m, k)" by fastforce
  have m: "between 0 1 m"
    using confidence_severity [OF assms, of 0 evidence "it 6 (mkeys evidence)" 0] mk by (simp add: between_def)
  define s where "s = math_min 1 (f64_of_u64 k / lit 3000 0)"
  have s: "between 0 1 s" unfolding s_def by (rule sample_factor_between)
  define x where "x = lit 45 2 + lit 35 2 * m + lit 20 2 * s"
  have c: "confidence it signals evidence = math_round (math_min (lit 99 2) x * lit 1000 0) / lit 1000 0"
    by (simp add: confidence_def mk x_def s_def)
  have l: "between 0 1 (lit 35 2)" "between 0 1 (lit 20 2)" "between 0 1 (lit 45 2)" "between 0 1 (lit 99 2)"
    using lit_confidence rnd_unit [of "45 / 100"] rnd_unit [of "99 / 100"] rnd_unit [of "35 / 100"] rnd_unit [of "20 / 100"]
    by (simp_all add: between_def)
  let ?lo = "val (lit 45 2)" and ?hi = "val (lit 99 2)"
  have rep: "representable ?lo" "representable ?hi" using lit_confidence by (simp_all add: representable_rnd)
  have b: "bound ?lo 2" "bound ?lo 3"
    using rep bound_int [of 0 2] bound_int [of 0 3] bound_int [of 0 1] l(3) ovf_big [of 1]
    by (auto simp: bound_def between_def intro: le_less_trans)
  have a1: "between 0 1 (lit 35 2 * m)" "between 0 1 (lit 20 2 * s)" using weight_term l m s by blast+
  have s1: "between ?lo 2 (lit 45 2 + lit 35 2 * m)"
    using plus_between [OF b(1), of "lit 45 2" "lit 35 2 * m"] l(3) a1(1) by (simp add: between_def)
  have s2: "between ?lo 3 x"
    using plus_between [OF b(2), of "lit 45 2 + lit 35 2 * m" "lit 20 2 * s"] s1 a1(2) by (simp add: between_def x_def)
  have lohi: "?lo \<le> ?hi" using lit_confidence rnd_mono [of "45 / 100" "99 / 100"] by simp
  have y: "between ?lo ?hi (math_min (lit 99 2) x)"
    using math_min_val [of "lit 99 2" x] s2 l(4) lohi by (simp add: between_def)
  have lo450: "450 \<le> ?lo * 1000" and hi990: "?hi * 1000 \<le> 990"
  proof -
    have "lit 45 2 = Fin 8106479329266893 (-54)" "lit 99 2 = Fin 8917127262193582 (-53)" by code_simp+
    moreover have "p2 (-54) = 1 / 18014398509481984" using p2_diff [of 0 54] by simp
    ultimately show "450 \<le> ?lo * 1000" "?hi * 1000 \<le> 990" by (simp_all add: val_Fin)
  qed
  have z: "between 450 990 (math_min (lit 99 2) x * lit 1000 0)"
  proof -
    have t: "450 \<le> val (math_min (lit 99 2) x) * val (lit 1000 0)" "val (math_min (lit 99 2) x) * val (lit 1000 0) \<le> 990"
      using y lo450 hi990 lit_confidence(5) by (simp_all add: between_def)
    have "bound (of_int 450) (of_int 990)" by (rule bound_int) simp_all
    then show ?thesis using times_between [of 450 990 "math_min (lit 99 2) x" "lit 1000 0"] t y lit_confidence(5)
      by (simp add: between_def)
  qed
  have r: "between 450 990 (math_round (math_min (lit 99 2) x * lit 1000 0))"
    using math_round_between [of "math_min (lit 99 2) x * lit 1000 0" 450 990] z by (simp add: between_def)
  let ?r = "val (math_round (math_min (lit 99 2) x * lit 1000 0)) / 1000"
  have q: "0 \<le> ?r" "?r \<le> 1" "45 / 100 \<le> ?r" "?r \<le> 99 / 100" using r by (simp_all add: between_def)
  have "finite_f64 (confidence it signals evidence) \<and> val (confidence it signals evidence) = rnd ?r"
    using divide_between [OF bound_01, of "math_round (math_min (lit 99 2) x * lit 1000 0)" "lit 1000 0"] r q(1,2) lit_confidence(5)
    unfolding c by (simp add: between_def)
  then show ?thesis using lit_confidence(1,2) rnd_mono [OF q(3)] rnd_mono [OF q(4)] by (simp add: between_def)
qed

subsection \<open>The service on its interfaces\<close>

text \<open>
  A detector and a scorer together: what the contracts of the two interfaces give for every
  recommendation that the service builds on them.
\<close>

locale evaluation = signal_detector detect + weight_scorer propose
  for detect :: "range_order \<Rightarrow> node_metric list \<Rightarrow> signal gomap"
    and propose :: "range_order \<Rightarrow> instant \<Rightarrow> node_metric list \<Rightarrow> f64 gomap \<Rightarrow> signal gomap \<Rightarrow> propose_error + proposal"
begin

lemma justified_engine:
  assumes "justified it c d request s r" "dp_detect d = detect" "dp_propose d = propose" "fair_order it"
  obtains h p where "dp_History d (er_Scope request) (ac_HistoryWindows c) = Inr h"
    "propose (scorer_order it) (dp_now d) h (er_CurrentWeights request) (detect (detector_order it) h) = Inr p"
    "r = build_recommendation it c (er_Scope request) (dp_now d) (detect (detector_order it) h) p"
    "hasAnomaly it (detect (detector_order it) h)"
  using assms unfolding justified_def by auto

lemma fair_orders: "fair_order it \<Longrightarrow> fair_order (detector_order it)" "fair_order it \<Longrightarrow> fair_order (scorer_order it)"
  by (simp_all add: fair_order_def detector_order_def scorer_order_def)

lemma recommendation_nodes:
  assumes "justified it c d request s r" "dp_detect d = detect" "dp_propose d = propose" "fair_order it"
  shows "set (mkeys (rc_Proposed r)) = set (mkeys (rc_Evidence r)) \<and> 2 \<le> card (set (mkeys (rc_Proposed r))) \<and>
    (\<exists>h. dp_History d (er_Scope request) (ac_HistoryWindows c) = Inr h \<and>
       (\<forall>(n, m) \<in> set (rc_Evidence r). m \<in> set h \<and> nm_NodeID m = n) \<and>
       (\<exists>m \<in> set h. sg_Anomalous (mget zero_signal (detect (detector_order it) h) (nm_NodeID m))))"
proof -
  obtain h p where h: "dp_History d (er_Scope request) (ac_HistoryWindows c) = Inr h"
    and p: "propose (scorer_order it) (dp_now d) h (er_CurrentWeights request) (detect (detector_order it) h) = Inr p"
    and r: "r = build_recommendation it c (er_Scope request) (dp_now d) (detect (detector_order it) h) p"
    and a: "hasAnomaly it (detect (detector_order it) h)"
    using justified_engine [OF assms] by metis
  note f = fair_orders [OF assms(4)]
  obtain n where n: "n \<in> set (mkeys (detect (detector_order it) h))"
    "sg_Anomalous (mget zero_signal (detect (detector_order it) h) n)"
    using a fair_set [OF assms(4)] by (auto simp: hasAnomaly_def list_ex_iff)
  then have "\<exists>m \<in> set h. sg_Anomalous (mget zero_signal (detect (detector_order it) h) (nm_NodeID m))"
    using signals_nodes [OF f(1), of h] by (auto simp: set_mkeys)
  moreover have "\<forall>(n, m) \<in> set (pr_Evidence p). m \<in> set h \<and> nm_NodeID m = n"
    using evidence_known [OF f(2) p] by blast
  ultimately show ?thesis
    using h proposed_evidence [OF f(2) p] two_nodes [OF f(2) p] by (auto simp: r build_recommendation_def)
qed

lemma recommendation_confidence:
  assumes "justified it c d request s r" "dp_detect d = detect" "dp_propose d = propose" "fair_order it"
    and "\<forall>h. dp_History d (er_Scope request) (ac_HistoryWindows c) = Inr h \<longrightarrow> (\<forall>m \<in> set h. finite_metric m)"
  shows "lit 45 2 \<le> rc_Confidence r \<and> rc_Confidence r \<le> lit 99 2"
proof -
  obtain h p where h: "dp_History d (er_Scope request) (ac_HistoryWindows c) = Inr h"
    and r: "r = build_recommendation it c (er_Scope request) (dp_now d) (detect (detector_order it) h) p"
    using justified_engine [OF assms(1-4)] by metis
  have "\<forall>n. between 0 1 (sg_Severity (mget zero_signal (detect (detector_order it) h) n))"
    using severity_lookup [OF fair_orders(1) [OF assms(4)]] h assms(5) by blast
  note b = confidence_between [OF this, of it "pr_Evidence p"]
  show ?thesis using b lit_confidence(1,2) by (simp add: r build_recommendation_def between_def fval)
qed

end

text \<open>The engine that \<open>main\<close> wires in: the detector and the scorer of the repository.\<close>

definition engine_propose ::
    "scorer_config \<Rightarrow> range_order \<Rightarrow> instant \<Rightarrow> node_metric list \<Rightarrow> f64 gomap \<Rightarrow> signal gomap \<Rightarrow> propose_error + proposal" where
  "engine_propose pc it now metrics current signals = map_sum Known id (scorer_Propose it pc now metrics current signals)"

lemma engine_Inr [simp]:
  "engine_propose pc it now ms current signals = Inr p \<longleftrightarrow> scorer_Propose it pc now ms current signals = Inr p"
  by (cases "scorer_Propose it pc now ms current signals") (simp_all add: engine_propose_def)

interpretation engine: evaluation "\<lambda>it. detector_Evaluate it dc" "engine_propose pc" for dc pc
proof unfold_locales
  fix it now ms current signals p n m
  assume it: "fair_order it" and e: "engine_propose pc it now ms current signals = Inr p"
  then have p: "scorer_Propose it pc now ms current signals = Inr p" by simp
  show "wf_map (pr_Evidence p)" "2 \<le> length (pr_Evidence p)" "distinct (pr_ReasonCodes p)"
    "set (mkeys (pr_Proposed p)) = set (mkeys (pr_Evidence p))"
    using scorer.evidence_wf [OF it p] scorer.evidence_two [OF it p] scorer.reasons_distinct [OF it p]
      scorer.proposed_evidence [OF it p] by blast+
  show "m \<in> set ms \<and> nm_NodeID m = n" if "(n, m) \<in> set (pr_Evidence p)" using scorer.evidence_known [OF it p that] .
qed

text \<open>The dependencies of a call on this engine; what the repository, the broker and the clock
  answer stays arbitrary.\<close>

definition engine_deps :: "detector_config \<Rightarrow> scorer_config \<Rightarrow> deps \<Rightarrow> deps" where
  "engine_deps dc pc d = d\<lparr>dp_detect := (\<lambda>it. detector_Evaluate it dc), dp_propose := engine_propose pc\<rparr>"

lemma engine_deps_simps [simp]:
  "dp_detect (engine_deps dc pc d) = (\<lambda>it. detector_Evaluate it dc)" "dp_propose (engine_deps dc pc d) = engine_propose pc"
  "dp_History (engine_deps dc pc d) = dp_History d" "dp_now (engine_deps dc pc d) = dp_now d"
  "dp_Publish (engine_deps dc pc d) = dp_Publish d" "dp_LatestRecommendation (engine_deps dc pc d) = dp_LatestRecommendation d"
  by (simp_all add: engine_deps_def)

subsection \<open>A concrete evaluation\<close>

definition sample_app_config :: app_config where
  "sample_app_config = \<lparr>ac_HistoryWindows = 15, ac_TTL = 120 * second, ac_MinimumDwell = minute,
     ac_QueryVersion = ''node-quality-v1'', ac_ModelVersion = ''rule-ewma-mad-v1'', ac_ConfigHash = ''0011223344556677''\<rparr>"

definition sample_deps :: deps where
  "sample_deps = engine_deps sample_detector_config sample_scorer_config
     \<lparr>dp_Ping = None, dp_History = (\<lambda>sc n. Inr sample_history), dp_LatestRecommendation = (\<lambda>sc. Inr None),
      dp_detect = (\<lambda>it h. []), dp_propose = (\<lambda>it now ms current signals. Inl (Unexpected [])),
      dp_Publish = (\<lambda>r. None), dp_now = sample_now\<rparr>"

definition sample_request :: evaluation_request where
  "sample_request = \<lparr>er_Scope = sample_scope, er_CurrentWeights = sample_weights\<rparr>"

definition detected_signals :: "signal gomap" where
  "detected_signals = detector_Evaluate insertion_order sample_detector_config sample_history"

lemma sample_valid: "validateScope sample_scope = None"
  by code_simp

lemma sample_anomaly: "hasAnomaly insertion_order detected_signals"
  by code_simp

lemma sample_engine_proposes:
  "\<exists>p. engine_propose sample_scorer_config insertion_order sample_now sample_history sample_weights detected_signals = Inr p"
proof -
  have "\<not> isl (scorer_Propose insertion_order sample_scorer_config sample_now sample_history sample_weights detected_signals)"
    by code_simp
  then show ?thesis
    by (cases "scorer_Propose insertion_order sample_scorer_config sample_now sample_history sample_weights detected_signals")
      (simp_all add: engine_propose_def)
qed

lemma sample_justified: "\<exists>r. justified insertion_order sample_app_config sample_deps sample_request app_New r"
proof -
  have o: "detector_order insertion_order = insertion_order" "scorer_order insertion_order = insertion_order"
    by (simp_all add: detector_order_def scorer_order_def)
  obtain p where "engine_propose sample_scorer_config insertion_order sample_now sample_history sample_weights detected_signals = Inr p"
    using sample_engine_proposes by blast
  then show ?thesis
    using sample_valid sample_anomaly
    unfolding justified_def by (auto simp: sample_deps_def sample_request_def o detected_signals_def sample_history_def
        dwelling_def lastGeneration_def app_New_def)
qed

lemma sample_deps_fields:
  "dp_detect sample_deps = (\<lambda>it. detector_Evaluate it sample_detector_config)"
  "dp_propose sample_deps = engine_propose sample_scorer_config"
  "dp_History sample_deps sc n = Inr sample_history" "dp_Publish sample_deps r = None" "dp_now sample_deps = sample_now"
  by (simp_all add: sample_deps_def)

subsection \<open>Properties\<close>

text \<open>C20: A recommendation is published exactly when \<open>Evaluate\<close> reports one, and it is the reported
  one: the log of the publisher grows by it and the dwell clock of its scope is set to its creation
  time. Every other result, error or refusal, leaves the state as it was.\<close>

theorem evaluate_publishes:
  "case service_Evaluate it c d request s of
     (Inr res, s') \<Rightarrow>
       if rs_Generated res
       then \<exists>r. rs_Recommendation res = Some r \<and> dp_Publish d r = None \<and> rc_Scope r = er_Scope request \<and>
              sv_published s' = sv_published s @ [r] \<and>
              lastGeneration (er_Scope request) s' = Some (rc_CreatedAt r) \<and>
              (\<forall>sc. scope_Key sc \<noteq> scope_Key (er_Scope request) \<longrightarrow> lastGeneration sc s' = lastGeneration sc s)
       else s' = s
   | (Inl e, s') \<Rightarrow> s' = s"
proof -
  have "rc_Scope r = er_Scope request" if "justified it c d request s r" for r
    using that by (auto simp: justified_def)
  then show ?thesis
    using Evaluate_outcomes [of it c d request s]
    by (auto simp: recordGeneration_def lastGeneration_def map_of_update split: sum.split)
qed

theorem evaluate_publishes_witness:
  "\<exists>r. sv_published (snd (service_Evaluate insertion_order sample_app_config sample_deps sample_request app_New)) = [r]"
proof -
  obtain r where "justified insertion_order sample_app_config sample_deps sample_request app_New r"
    using sample_justified by blast
  then have "\<exists>res s'. service_Evaluate insertion_order sample_app_config sample_deps sample_request app_New = (Inr res, s') \<and> rs_Generated res"
    by (simp add: check_justified [symmetric] Evaluate_split evaluate_finish_def sample_deps_fields)
  then show ?thesis
    using evaluate_publishes [where it = insertion_order and c = sample_app_config and d = sample_deps
        and request = sample_request and s = app_New]
    by (auto simp: app_New_def)
qed

text \<open>C16: \<open>Evaluate\<close> generates a recommendation exactly when the scope is valid, the history is
  readable and not empty, a node is anomalous, neither the service nor the repository knows a
  recommendation younger than the minimum dwell, the scorer proposes weights and the broker
  accepts the message; the recommendation is then built from these inputs.\<close>

theorem evaluate_generates_iff:
  "(\<exists>res s'. service_Evaluate it c d request s = (Inr res, s') \<and> rs_Generated res \<and> rs_Recommendation res = Some r) \<longleftrightarrow>
     validateScope (er_Scope request) = None \<and> dp_Publish d r = None \<and>
     (\<exists>history latest p. dp_History d (er_Scope request) (ac_HistoryWindows c) = Inr history \<and> history \<noteq> [] \<and>
        hasAnomaly it (dp_detect d (detector_order it) history) \<and>
        \<not> dwelling c (dp_now d) (lastGeneration (er_Scope request) s) \<and>
        dp_LatestRecommendation d (er_Scope request) = Inr latest \<and>
        \<not> dwelling c (dp_now d) (map_option rc_CreatedAt latest) \<and>
        dp_propose d (scorer_order it) (dp_now d) history (er_CurrentWeights request)
          (dp_detect d (detector_order it) history) = Inr p \<and>
        r = build_recommendation it c (er_Scope request) (dp_now d) (dp_detect d (detector_order it) history) p)"
    (is "?l \<longleftrightarrow> ?r")
proof -
  have "?l \<longleftrightarrow> justified it c d request s r \<and> dp_Publish d r = None"
  proof
    assume ?l
    then show "justified it c d request s r \<and> dp_Publish d r = None"
      using Evaluate_outcomes [of it c d request s] by auto
  next
    assume "justified it c d request s r \<and> dp_Publish d r = None"
    then show ?l by (simp add: check_justified [symmetric] Evaluate_split evaluate_finish_def)
  qed
  then show ?thesis by (auto simp: justified_def)
qed



lemma generated_justified:
  assumes "service_Evaluate it c d request s = (Inr res, s')" "rs_Recommendation res = Some r"
  shows "justified it c d request s r \<and> rs_Generated res"
proof -
  have f: "rs_Recommendation x = None" if "propose_failed e = Inr x" for e x
    using that by (auto simp: propose_failed_def not_generated_def split: propose_error.splits scoring_error.splits)
  have "rs_Recommendation x = None" if "evaluate_check it c d request s = Inl (Inr x)" for x
    using that f unfolding evaluate_check_def Let_def
    by (auto simp: not_generated_def split: option.splits sum.splits if_splits)
  then show ?thesis using Evaluate_outcomes [of it c d request s] assms by auto
qed

text \<open>C17: What every recommendation of the service with its own detector and scorer promises: it is
  a shadow recommendation of schema 1 for the requested scope, valid for exactly the TTL, with an id
  of \<open>rec-\<close> and 24 hexadecimal digits, with at least two nodes that are the nodes of its evidence and
  come from the scope's history, an anomalous node in that history, sorted distinct reason codes
  that include the guardrails, and a confidence between 0.45 and 0.99.\<close>

theorem recommendation_contract:
  assumes "fair_order it"
    and "service_Evaluate it c (engine_deps dc pc d) request s = (Inr res, s')" "rs_Recommendation res = Some r"
    and "dp_History d (er_Scope request) (ac_HistoryWindows c) = Inr h" "\<forall>m \<in> set h. finite_metric m"
  shows "rc_Mode r = ''shadow'' \<and> rc_SchemaVersion r = 1 \<and> rc_Scope r = er_Scope request \<and>
    time_sub (rc_ValidUntil r) (rc_CreatedAt r) = ac_TTL c \<and>
    length (rc_RecommendationID r) = 28 \<and> take 4 (rc_RecommendationID r) = ''rec-'' \<and>
    (\<forall>ch \<in> set (drop 4 (rc_RecommendationID r)). is_hex ch) \<and>
    set (mkeys (rc_Proposed r)) = set (mkeys (rc_Evidence r)) \<and> 2 \<le> card (set (mkeys (rc_Proposed r))) \<and>
    (\<forall>(n, m) \<in> set (rc_Evidence r). m \<in> set h \<and> nm_NodeID m = n) \<and>
    (\<exists>m \<in> set h. sg_Anomalous (mget zero_signal (detector_Evaluate (detector_order it) dc h) (nm_NodeID m))) \<and>
    sorted (rc_ReasonCodes r) \<and> distinct (rc_ReasonCodes r) \<and>
    {''BOUNDED_MULTI_OBJECTIVE_SCORE'', ''MAX_WEIGHT_STEP_OK'', ''CAPACITY_HEADROOM_OK''} \<subseteq> set (rc_ReasonCodes r) \<and>
    lit 45 2 \<le> rc_Confidence r \<and> rc_Confidence r \<le> lit 99 2"
proof -
  have j: "justified it c (engine_deps dc pc d) request s r" using generated_justified [OF assms(2,3)] by blast
  have e: "dp_detect (engine_deps dc pc d) = (\<lambda>it. detector_Evaluate it dc)" "dp_propose (engine_deps dc pc d) = engine_propose pc"
    by simp_all
  obtain p where p: "engine_propose pc (scorer_order it) (dp_now d) h (er_CurrentWeights request) (detector_Evaluate (detector_order it) dc h) = Inr p"
    and r: "r = build_recommendation it c (er_Scope request) (dp_now d) (detector_Evaluate (detector_order it) dc h) p"
    using engine.justified_engine [OF j e assms(1)] assms(4) by (metis engine_deps_simps(3,4) sum.inject(2))
  have so: "fair_order (scorer_order it)" using engine.fair_orders(2) [OF assms(1)] .
  have q: "scorer_Propose (scorer_order it) pc (dp_now d) h (er_CurrentWeights request) (detector_Evaluate (detector_order it) dc h) = Inr p"
    using p by simp
  have nodes: "set (mkeys (rc_Proposed r)) = set (mkeys (rc_Evidence r)) \<and> 2 \<le> card (set (mkeys (rc_Proposed r))) \<and>
      (\<forall>(n, m) \<in> set (rc_Evidence r). m \<in> set h \<and> nm_NodeID m = n) \<and>
      (\<exists>m \<in> set h. sg_Anomalous (mget zero_signal (detector_Evaluate (detector_order it) dc h) (nm_NodeID m)))"
    using engine.recommendation_nodes [OF j e assms(1)] unfolding engine_deps_simps assms(4) sum.inject by blast
  have conf: "lit 45 2 \<le> rc_Confidence r \<and> rc_Confidence r \<le> lit 99 2"
    using engine.recommendation_confidence [OF j e assms(1)] assms(4,5) by simp
  have shape: "rc_Mode r = ''shadow'' \<and> rc_SchemaVersion r = 1 \<and> rc_Scope r = er_Scope request \<and>
      time_sub (rc_ValidUntil r) (rc_CreatedAt r) = ac_TTL c"
    by (simp add: r build_recommendation_def)
  have ident: "length (rc_RecommendationID r) = 28 \<and> take 4 (rc_RecommendationID r) = ''rec-'' \<and>
      (\<forall>ch \<in> set (drop 4 (rc_RecommendationID r)). is_hex ch)"
    using recommendationID_shape by (simp add: r build_recommendation_def)
  have reasons: "sorted (rc_ReasonCodes r) \<and> distinct (rc_ReasonCodes r) \<and>
      {''BOUNDED_MULTI_OBJECTIVE_SCORE'', ''MAX_WEIGHT_STEP_OK'', ''CAPACITY_HEADROOM_OK''} \<subseteq> set (rc_ReasonCodes r)"
    using Propose_Inr(7) [OF so q] by (simp add: r build_recommendation_def sortedUnique_props)
  from shape ident nodes reasons conf show ?thesis by blast
qed

theorem recommendation_contract_witness:
  "\<exists>res s' r. service_Evaluate insertion_order sample_app_config sample_deps sample_request app_New = (Inr res, s') \<and>
     rs_Recommendation res = Some r \<and> length (rc_RecommendationID r) = 28 \<and> rc_Confidence r \<le> lit 99 2"
proof -
  obtain r where "justified insertion_order sample_app_config sample_deps sample_request app_New r"
    using sample_justified by blast
  then obtain res s' where e: "service_Evaluate insertion_order sample_app_config sample_deps sample_request app_New = (Inr res, s')"
    "rs_Recommendation res = Some r"
    by (simp add: check_justified [symmetric] Evaluate_split evaluate_finish_def sample_deps_fields)
  have h: "dp_History sample_deps (er_Scope sample_request) (ac_HistoryWindows sample_app_config) = Inr sample_history"
    by (simp add: sample_deps_def)
  have fin: "\<forall>m \<in> set sample_history. finite_metric m" by code_simp
  have d: "engine_deps sample_detector_config sample_scorer_config sample_deps = sample_deps"
    by (simp add: sample_deps_def engine_deps_def)
  show ?thesis
    using recommendation_contract [of insertion_order sample_app_config sample_detector_config sample_scorer_config sample_deps
        sample_request app_New res s' r sample_history] e h fin unfolding d by auto
qed

text \<open>C22: The key of a scope, under which the service keeps its dwell clock and the broker its
  partition, identifies the scope, as long as scopes are validated: no location contains the
  separator.\<close>

theorem scope_Key_injective:
  assumes "validateScope s = None" "validateScope t = None"
  shows "scope_Key s = scope_Key t \<longleftrightarrow> s = t"
  using scope_Key_inj [OF assms] by blast

theorem scope_Key_injective_witness:
  "scope_Key sample_scope \<noteq> scope_Key \<lparr>sc_Location = ''au-perth'', sc_NetworkID = ''UNKNOWN''\<rparr>"
proof -
  have v: "validateScope \<lparr>sc_Location = ''au-perth'', sc_NetworkID = ''UNKNOWN''\<rparr> = None" by code_simp
  show ?thesis using scope_Key_injective [OF sample_valid v] by (simp add: sample_scope_def)
qed

text \<open>C23: \<open>Metrics\<close> answers one metric per node of the history, the latest of the node, sorted by node
  id, whatever the order in which the map is visited.\<close>

theorem metrics_latest_sorted:
  assumes "fair_order it" "service_Metrics it c d sc = Inr ms" "dp_History d sc (ac_HistoryWindows c) = Inr h"
  shows "ms = sort_key nm_NodeID (latest_list h) \<and> sorted (map nm_NodeID ms) \<and> distinct (map nm_NodeID ms) \<and>
    nm_NodeID ` set ms = nm_NodeID ` set h \<and> (\<forall>m \<in> set ms. is_latest h m)"
proof -
  have m: "ms = app_latestByNode it h"
    using assms(2,3) by (simp add: service_Metrics_def split: option.splits)
  have "mset (map (\<lambda>n. the (map_of (latest_map h) n)) (it 7 (mkeys (latest_map h)))) = mset (latest_list h)"
    using fair_mset [OF assms(1)] by (simp add: latest_list_def)
  moreover have "inj_on nm_NodeID (set (latest_list h))" using latest_list_distinct by (rule inj_on_map_distinct)
  ultimately have eq: "ms = sort_key nm_NodeID (latest_list h)"
    unfolding m app_latestByNode_def Let_def
    by (intro sort_key_mset_eq) (metis mset_eq_setD)+
  have "distinct (map nm_NodeID ms)"
    using latest_list_distinct [of h] by (simp add: eq distinct_map)
  then show ?thesis using eq latest_list_ids [of h] latest_list_is_latest [of _ h] by simp
qed

theorem metrics_latest_sorted_witness:
  "service_Metrics (\<lambda>n. rev) sample_app_config sample_deps sample_scope = Inr (sort_key nm_NodeID (latest_list sample_history))"
proof -
  have f: "fair_order (\<lambda>n. rev)" by (simp add: fair_order_def)
  have h: "dp_History sample_deps sample_scope (ac_HistoryWindows sample_app_config) = Inr sample_history"
    by (simp add: sample_deps_def)
  have "service_Metrics (\<lambda>n. rev) sample_app_config sample_deps sample_scope = Inr (app_latestByNode (\<lambda>n. rev) sample_history)"
    by (simp add: service_Metrics_def sample_valid h)
  then show ?thesis using metrics_latest_sorted [OF f _ h] by auto
qed

subsection \<open>Acknowledgements and outcomes\<close>

text \<open>The entry that is stored: under the id of the path, stamped when it carries no time.\<close>

definition stamped_ack :: "instant \<Rightarrow> string \<Rightarrow> acknowledgement \<Rightarrow> acknowledgement" where
  "stamped_ack now i a =
     \<lparr>ak_RecommendationID = i, ak_Actor = ak_Actor a, ak_Status = ak_Status a,
      ak_ObservedAt = (if ak_ObservedAt a = 0 then now else ak_ObservedAt a)\<rparr>"

definition stamped_outcome :: "instant \<Rightarrow> string \<Rightarrow> outcome \<Rightarrow> outcome" where
  "stamped_outcome now i q =
     \<lparr>oc_RecommendationID = i, oc_ObservedAt = (if oc_ObservedAt q = 0 then now else oc_ObservedAt q),
      oc_ObservedDelta = oc_ObservedDelta q, oc_Notes = oc_Notes q\<rparr>"

context audit_store
begin

lemma acknowledge_stores:
  assumes "service_Acknowledge now store_ack i a s = (None, s')"
  shows "i \<noteq> [] \<and> ak_Actor a \<noteq> [] \<and> ak_Status a \<noteq> [] \<and>
    acks s' = (acks s)(i := acks s i @ [stamped_ack now i a]) \<and> outcomes s' = outcomes s"
proof -
  have g: "i \<noteq> [] \<and> ak_Actor a \<noteq> [] \<and> ak_Status a \<noteq> []"
    using assms by (simp add: service_Acknowledge_def split: if_splits)
  have "store_ack (stamped_ack now i a) s = (None, s')"
    using assms g by (cases a) (auto simp: service_Acknowledge_def stamped_ack_def Let_def is_zero_time_def
        split: prod.splits option.splits if_splits)
  then show ?thesis using g ack_appends by (fastforce simp: stamped_ack_def)
qed

lemma acknowledge_fails:
  assumes "service_Acknowledge now store_ack i a s = (Some e, s')"
  shows "acks s' = acks s \<and> outcomes s' = outcomes s"
  using assms ack_fails by (auto simp: service_Acknowledge_def Let_def split: prod.splits option.splits if_splits)

lemma outcome_stores:
  assumes "service_RecordOutcome now store_outcome i q s = (None, s')"
  shows "i \<noteq> [] \<and> outcomes s' = (outcomes s)(i := outcomes s i @ [stamped_outcome now i q]) \<and> acks s' = acks s"
proof -
  have g: "i \<noteq> []" using assms by (simp add: service_RecordOutcome_def split: if_splits)
  have "store_outcome (stamped_outcome now i q) s = (None, s')"
    using assms g by (cases q) (auto simp: service_RecordOutcome_def stamped_outcome_def Let_def is_zero_time_def
        split: prod.splits option.splits if_splits)
  then show ?thesis using g outcome_appends by (fastforce simp: stamped_outcome_def)
qed

lemma outcome_not_stored:
  assumes "service_RecordOutcome now store_outcome i q s = (Some e, s')"
  shows "acks s' = acks s \<and> outcomes s' = outcomes s"
  using assms outcome_fails by (auto simp: service_RecordOutcome_def Let_def split: prod.splits option.splits if_splits)

end

lemma memory_never_fails:
  "\<exists>s'. audit_Acknowledge a s = (None, s')" "\<exists>s'. audit_Outcome q s = (None, s')"
  by (simp_all add: audit_Acknowledge_def audit_Outcome_def)

text \<open>C24: The audit trail only grows, under the right id: acknowledging succeeds exactly when id,
  actor and status are given, and then appends one entry, with the path's id and a time, to the
  entries of this id; every other entry and every outcome stays. A refusal changes nothing.\<close>

theorem acknowledge_appends:
  "case service_Acknowledge now audit_Acknowledge i a s of
     (None, s') \<Rightarrow> i \<noteq> [] \<and> ak_Actor a \<noteq> [] \<and> ak_Status a \<noteq> [] \<and>
       memory_acks s' = (memory_acks s)(i := memory_acks s i @ [stamped_ack now i a]) \<and> memory_outcomes s' = memory_outcomes s
   | (Some e, s') \<Rightarrow> e = ErrInvalidRequest \<and> (i = [] \<or> ak_Actor a = [] \<or> ak_Status a = []) \<and> s' = s"
proof (cases "service_Acknowledge now audit_Acknowledge i a s")
  case (Pair e s')
  show ?thesis
  proof (cases e)
    case None
    then show ?thesis using memory.acknowledge_stores [of now i a s s'] Pair by simp
  next
    case (Some x)
    have "x = ErrInvalidRequest \<and> (i = [] \<or> ak_Actor a = [] \<or> ak_Status a = []) \<and> s' = s"
      using Pair Some memory_never_fails(1)
      by (auto simp: service_Acknowledge_def Let_def audit_Acknowledge_def split: if_splits)
    then show ?thesis using Pair Some by simp
  qed
qed

text \<open>C25: Recording an outcome succeeds exactly for a non-empty id and appends one stamped entry to the
  outcomes of this id.\<close>

theorem outcome_appends:
  "case service_RecordOutcome now audit_Outcome i q s of
     (None, s') \<Rightarrow> i \<noteq> [] \<and> memory_outcomes s' = (memory_outcomes s)(i := memory_outcomes s i @ [stamped_outcome now i q]) \<and>
       memory_acks s' = memory_acks s
   | (Some e, s') \<Rightarrow> e = ErrInvalidRequest \<and> i = [] \<and> s' = s"
proof (cases "service_RecordOutcome now audit_Outcome i q s")
  case (Pair e s')
  show ?thesis
  proof (cases e)
    case None
    then show ?thesis using memory.outcome_stores [of now i q s s'] Pair by simp
  next
    case (Some x)
    have "x = ErrInvalidRequest \<and> i = [] \<and> s' = s"
      using Pair Some memory_never_fails(2)
      by (auto simp: service_RecordOutcome_def Let_def audit_Outcome_def split: if_splits)
    then show ?thesis using Pair Some by simp
  qed
qed

end
