(* ===== verification/Dwell.thy ===== *)
theory Dwell
  imports Service_Props
begin

text \<open>
  The minimum dwell over many calls. Evaluations that run one after the other keep
  recommendations of a scope apart by the minimum dwell. Concurrent evaluations do not: \<open>Evaluate\<close>
  reads \<open>lastGenerated\<close> under the mutex, releases it, and records its own generation only after
  the publication.
\<close>

subsection \<open>Sequential evaluations\<close>

text \<open>States after any number of calls with any dependencies, on a clock that does not go back.\<close>

inductive evaluations :: "app_config \<Rightarrow> service \<Rightarrow> instant \<Rightarrow> bool" for c where
  start: "evaluations c app_New t"
| evaluate: "evaluations c s t \<Longrightarrow> t \<le> dp_now d \<Longrightarrow> evaluations c (snd (service_Evaluate it c d request s)) (dp_now d)"

definition apart :: "app_config \<Rightarrow> recommendation \<Rightarrow> recommendation \<Rightarrow> bool" where
  "apart c r q \<longleftrightarrow> scope_Key (rc_Scope r) = scope_Key (rc_Scope q) \<longrightarrow> \<not> dwelling c (rc_CreatedAt q) (Some (rc_CreatedAt r))"

definition dwell_inv :: "app_config \<Rightarrow> service \<Rightarrow> instant \<Rightarrow> bool" where
  "dwell_inv c s t \<longleftrightarrow>
     (\<forall>r \<in> set (sv_published s). rc_CreatedAt r \<le> t \<and>
        (\<exists>u. map_of (sv_lastGenerated s) (scope_Key (rc_Scope r)) = Some u \<and> rc_CreatedAt r \<le> u)) \<and>
     sorted_wrt (apart c) (sv_published s)"

text \<open>An older predecessor is further away.\<close>

lemma dwelling_mono: "\<not> dwelling c now (Some u) \<Longrightarrow> t \<le> u \<Longrightarrow> \<not> dwelling c now (Some t)"
  by (auto simp: dwelling_def sint_time_sub)

lemma dwell_inv_publish:
  assumes "dwell_inv c s t" "t \<le> now" "rc_CreatedAt r = now" "rc_Scope r = sc"
    and "\<not> dwelling c now (lastGeneration sc s)"
  shows "dwell_inv c (recordGeneration sc now (s\<lparr>sv_published := sv_published s @ [r]\<rparr>)) now"
proof -
  have "apart c q r" if "q \<in> set (sv_published s)" for q
  proof -
    have "\<not> dwelling c now (Some (rc_CreatedAt q))" if k: "scope_Key (rc_Scope q) = scope_Key sc"
    proof -
      obtain u where u: "map_of (sv_lastGenerated s) (scope_Key sc) = Some u" "rc_CreatedAt q \<le> u"
        using assms(1) \<open>q \<in> set (sv_published s)\<close> k by (force simp: dwell_inv_def)
      then show ?thesis using assms(5) dwelling_mono [of c now u] by (simp add: lastGeneration_def)
    qed
    then show ?thesis using assms(3,4) by (simp add: apart_def)
  qed
  then show ?thesis
    using assms by (auto simp: dwell_inv_def recordGeneration_def map_of_update sorted_wrt_append intro: order_trans)
qed

lemma dwell_inv_later: "dwell_inv c s t \<Longrightarrow> t \<le> u \<Longrightarrow> dwell_inv c s u"
  by (force simp: dwell_inv_def)

lemma evaluations_dwell_inv: "evaluations c s t \<Longrightarrow> dwell_inv c s t"
proof (induction rule: evaluations.induct)
  case start
  then show ?case by (simp add: dwell_inv_def app_New_def)
next
  case (evaluate s t d it request)
  show ?case
    using Evaluate_outcomes [of it c d request s]
  proof (elim disjE exE conjE)
    fix r assume j: "justified it c d request s r"
      and e: "service_Evaluate it c d request s =
        (Inr \<lparr>rs_Generated = True, rs_ReasonCodes = rc_ReasonCodes r, rs_Recommendation = Some r\<rparr>,
         recordGeneration (rc_Scope r) (rc_CreatedAt r) (s\<lparr>sv_published := sv_published s @ [r]\<rparr>))"
    have r: "rc_CreatedAt r = dp_now d" "rc_Scope r = er_Scope request"
      "\<not> dwelling c (dp_now d) (lastGeneration (er_Scope request) s)"
      using j by (auto simp: justified_def)
    show ?thesis using dwell_inv_publish [OF evaluate.IH evaluate.hyps(2) r(1,2)] r by (simp add: e)
  qed (use evaluate dwell_inv_later in auto)
qed

subsection \<open>Concurrent evaluations\<close>

text \<open>
  A request handler between its reads and its writes. \<open>decide\<close> is \<open>Evaluate\<close> up to the
  recommendation, \<open>send\<close> the accepted publication, \<open>complete\<close> is \<open>recordGeneration\<close>; steps of
  different handlers interleave freely.
\<close>

datatype handler_pc = Idle | Decided recommendation | Sent recommendation

inductive concurrent :: "app_config \<Rightarrow> service \<Rightarrow> handler_pc list \<Rightarrow> instant \<Rightarrow> bool" for c where
  init: "concurrent c app_New (replicate n Idle) t"
| decide: "concurrent c s hs t \<Longrightarrow> i < length hs \<Longrightarrow> hs ! i = Idle \<Longrightarrow> t \<le> dp_now d \<Longrightarrow>
    evaluate_check it c d request s = Inr r \<Longrightarrow> concurrent c s (hs[i := Decided r]) (dp_now d)"
| send: "concurrent c s hs t \<Longrightarrow> i < length hs \<Longrightarrow> hs ! i = Decided r \<Longrightarrow>
    concurrent c (s\<lparr>sv_published := sv_published s @ [r]\<rparr>) (hs[i := Sent r]) t"
| complete: "concurrent c s hs t \<Longrightarrow> i < length hs \<Longrightarrow> hs ! i = Sent r \<Longrightarrow>
    concurrent c (recordGeneration (rc_Scope r) (rc_CreatedAt r) s) (hs[i := Idle]) t"

text \<open>Everything sent or about to be sent was decided for a valid scope at a time that has come.\<close>

definition decided_ok :: "instant \<Rightarrow> recommendation \<Rightarrow> bool" where
  "decided_ok t r \<longleftrightarrow> validateScope (rc_Scope r) = None \<and> rc_CreatedAt r \<le> t"

lemma concurrent_valid:
  "concurrent c s hs t \<Longrightarrow> (\<forall>r \<in> set (sv_published s). decided_ok t r) \<and>
     (\<forall>i < length hs. \<forall>r. hs ! i = Decided r \<or> hs ! i = Sent r \<longrightarrow> decided_ok t r)"
proof (induction rule: concurrent.induct)
  case (init n t)
  then show ?case by (simp add: app_New_def)
next
  case (decide s hs t i d it request r)
  have "decided_ok (dp_now d) r" using decide.hyps(5) by (auto simp: check_justified justified_def decided_ok_def)
  moreover have "decided_ok (dp_now d) q" if "decided_ok t q" for q using that decide.hyps(4) by (simp add: decided_ok_def)
  ultimately show ?case using decide.IH decide.hyps(2) by (auto simp: nth_list_update split: if_splits)
next
  case (send s hs t i r)
  then show ?case by (auto simp: nth_list_update split: if_splits)
next
  case (complete s hs t i r)
  then show ?case by (auto simp: nth_list_update recordGeneration_def split: if_splits)
qed

subsection \<open>Properties\<close>

text \<open>C18: Evaluations that do not overlap respect the minimum dwell: in every reachable log two
  recommendations of the same scope were created at least \<open>MinimumDwell\<close> apart, in whatever order
  the scopes were asked for and whatever the dependencies answered.\<close>

theorem sequential_dwell:
  assumes "evaluations c s t" "i < j" "j < length (sv_published s)"
    and "rc_Scope (sv_published s ! i) = rc_Scope (sv_published s ! j)"
  shows "sint (ac_MinimumDwell c) \<le> sint (time_sub (rc_CreatedAt (sv_published s ! j)) (rc_CreatedAt (sv_published s ! i)))"
proof -
  have "apart c (sv_published s ! i) (sv_published s ! j)"
    using evaluations_dwell_inv [OF assms(1)] assms(2,3) by (simp add: dwell_inv_def sorted_wrt_iff_nth_less)
  then show ?thesis using assms(4) by (simp add: apart_def dwelling_def)
qed

text \<open>Two calls of the sample, one minute apart.\<close>

definition later_deps :: deps where
  "later_deps = sample_deps\<lparr>dp_now := sample_now + 60000000000\<rparr>"

lemma sample_propose_later:
  "\<exists>p. engine_propose sample_scorer_config insertion_order (sample_now + 60000000000) sample_history sample_weights detected_signals = Inr p"
proof -
  have "eligible_metrics sample_scorer_config (sample_now + 60000000000) sample_history =
      eligible_metrics sample_scorer_config sample_now sample_history" by code_simp
  then have "scorer_Propose insertion_order sample_scorer_config (sample_now + 60000000000) sample_history sample_weights detected_signals =
      scorer_Propose insertion_order sample_scorer_config sample_now sample_history sample_weights detected_signals \<or>
      length (eligible_metrics sample_scorer_config sample_now sample_history) < 2"
    by (simp add: Propose_eq)
  moreover have "\<not> length (eligible_metrics sample_scorer_config sample_now sample_history) < 2" by code_simp
  ultimately show ?thesis using sample_engine_proposes by simp
qed

lemma sample_justified_later:
  assumes "\<not> dwelling sample_app_config (sample_now + 60000000000) (lastGeneration sample_scope s)"
  shows "\<exists>r. justified insertion_order sample_app_config later_deps sample_request s r"
proof -
  have o: "detector_order insertion_order = insertion_order" "scorer_order insertion_order = insertion_order"
    by (simp_all add: detector_order_def scorer_order_def)
  obtain p where "engine_propose sample_scorer_config insertion_order (sample_now + 60000000000) sample_history sample_weights detected_signals = Inr p"
    using sample_propose_later by blast
  then show ?thesis
    using sample_valid sample_anomaly assms
    unfolding justified_def by (auto simp: later_deps_def sample_deps_def sample_request_def o detected_signals_def
        sample_history_def dwelling_def)
qed

theorem sequential_dwell_witness:
  "\<exists>s t. evaluations sample_app_config s t \<and> length (sv_published s) = 2 \<and>
     sint minute \<le> sint (time_sub (rc_CreatedAt (sv_published s ! 1)) (rc_CreatedAt (sv_published s ! 0)))"
proof -
  obtain r where r: "justified insertion_order sample_app_config sample_deps sample_request app_New r"
    using sample_justified by blast
  define s1 where "s1 = snd (service_Evaluate insertion_order sample_app_config sample_deps sample_request app_New)"
  have s1: "s1 = recordGeneration (rc_Scope r) (rc_CreatedAt r) (app_New\<lparr>sv_published := [r]\<rparr>)"
    using r by (simp add: s1_def check_justified [symmetric] Evaluate_split evaluate_finish_def sample_deps_fields app_New_def)
  have f1: "rc_Scope r = sample_scope" "rc_CreatedAt r = sample_now"
    using r by (auto simp: justified_def sample_request_def sample_deps_fields)
  have "\<not> dwelling sample_app_config (sample_now + 60000000000) (Some sample_now)" by code_simp
  then have "\<not> dwelling sample_app_config (sample_now + 60000000000) (lastGeneration sample_scope s1)"
    by (simp add: s1 recordGeneration_def lastGeneration_def map_of_update f1)
  then obtain q where q: "justified insertion_order sample_app_config later_deps sample_request s1 q"
    using sample_justified_later by blast
  define s2 where "s2 = snd (service_Evaluate insertion_order sample_app_config later_deps sample_request s1)"
  have "dp_Publish later_deps q = None" by (simp add: later_deps_def sample_deps_def)
  then have s2: "s2 = recordGeneration (rc_Scope q) (rc_CreatedAt q) (s1\<lparr>sv_published := sv_published s1 @ [q]\<rparr>)"
    using q by (simp add: s2_def check_justified [symmetric] Evaluate_split evaluate_finish_def)
  have f2: "rc_Scope q = sample_scope"
    using q by (auto simp: justified_def sample_request_def)
  have e1: "evaluations sample_app_config s1 (dp_now sample_deps)"
    unfolding s1_def by (rule evaluate [OF start order_refl])
  have "dp_now sample_deps \<le> dp_now later_deps" by (simp add: later_deps_def sample_deps_fields)
  then have e2: "evaluations sample_app_config s2 (dp_now later_deps)"
    unfolding s2_def by (rule evaluate [OF e1])
  have p: "sv_published s2 = [r, q]" by (simp add: s2 s1 recordGeneration_def)
  show ?thesis
    using sequential_dwell [OF e2, of 0 1] e2 p f1 f2 by (auto simp: sample_app_config_def)
qed

text \<open>C19: Evaluations that overlap do not: with two handlers the service can publish two
  recommendations of one scope that were created at the same instant, although a minimum dwell of
  a minute is configured, because both read \<open>lastGenerated\<close> before either writes it.\<close>

theorem concurrent_dwell_violation:
  "\<exists>s hs t r q. concurrent sample_app_config s hs t \<and> sv_published s = [r, q] \<and>
     rc_Scope r = rc_Scope q \<and> dwelling sample_app_config (rc_CreatedAt q) (Some (rc_CreatedAt r))"
proof -
  obtain r where j: "justified insertion_order sample_app_config sample_deps sample_request app_New r"
    using sample_justified by blast
  then have c: "evaluate_check insertion_order sample_app_config sample_deps sample_request app_New = Inr r"
    by (simp add: check_justified)
  have f: "rc_CreatedAt r = sample_now" using j by (auto simp: justified_def sample_deps_fields)
  let ?t = "dp_now sample_deps"
  let ?s1 = "app_New\<lparr>sv_published := [r]\<rparr>"
  have h0: "concurrent sample_app_config app_New [Idle, Idle] ?t"
    using init [of sample_app_config 2 ?t] by (simp add: numeral_2_eq_2)
  have h1: "concurrent sample_app_config app_New [Decided r, Idle] ?t"
    using decide [OF h0 _ _ order_refl c, of 0] by simp
  have h2: "concurrent sample_app_config app_New [Decided r, Decided r] ?t"
    using decide [OF h1 _ _ order_refl c, of 1] by simp
  have h3: "concurrent sample_app_config ?s1 [Sent r, Decided r] ?t"
    using send [OF h2, of 0 r] by (simp add: app_New_def)
  have "concurrent sample_app_config (app_New\<lparr>sv_published := [r, r]\<rparr>) [Sent r, Sent r] ?t"
    using send [OF h3, of 1 r] by (simp add: app_New_def)
  moreover have "dwelling sample_app_config sample_now (Some sample_now)" by code_simp
  ultimately show ?thesis using f by (intro exI conjI) (assumption | simp)+
qed

text \<open>What concurrency does not break: whatever the interleaving, everything published is for a
  valid scope and carries a creation time that has come.\<close>

lemma concurrent_published_valid:
  assumes "concurrent c s hs t" "r \<in> set (sv_published s)"
  shows "validateScope (rc_Scope r) = None \<and> rc_CreatedAt r \<le> t"
  using concurrent_valid [OF assms(1)] assms(2) by (simp add: decided_ok_def)

lemma concurrent_published_valid_witness:
  "\<exists>s hs t r. concurrent sample_app_config s hs t \<and> sv_published s = [r] \<and> validateScope (rc_Scope r) = None"
proof -
  obtain r where "justified insertion_order sample_app_config sample_deps sample_request app_New r"
    using sample_justified by blast
  then have c: "evaluate_check insertion_order sample_app_config sample_deps sample_request app_New = Inr r"
    by (simp add: check_justified)
  let ?t = "dp_now sample_deps"
  have h0: "concurrent sample_app_config app_New [Idle] ?t" using init [of sample_app_config 1 ?t] by simp
  have h1: "concurrent sample_app_config app_New [Decided r] ?t"
    using decide [OF h0 _ _ order_refl c, of 0] by simp
  have h2: "concurrent sample_app_config (app_New\<lparr>sv_published := [r]\<rparr>) [Sent r] ?t"
    using send [OF h1, of 0 r] by (simp add: app_New_def)
  show ?thesis
  proof (intro exI conjI)
    show "concurrent sample_app_config (app_New\<lparr>sv_published := [r]\<rparr>) [Sent r] ?t" by (rule h2)
    show "validateScope (rc_Scope r) = None" using concurrent_published_valid [OF h2, of r] by simp
  qed simp
qed

end
