(* ===== verification/GoText.thy ===== *)
theory GoText
  imports GoStd "HOL-Library.Monad_Syntax"
begin

text \<open>
  The parsers of Go's standard library that the programs hand outside text to: \<open>strings.Split\<close> and
  \<open>strings.TrimSpace\<close>, \<open>strconv.Atoi\<close>, \<open>ParseInt\<close>, \<open>ParseUint\<close> and \<open>ParseFloat\<close>,
  \<open>time.ParseDuration\<close>, \<open>time.Parse\<close> for the layouts in use. Text is a list of bytes; white
  space is ASCII white space. A failed parse is \<open>None\<close>: the programs only test for an error.
\<close>

subsection \<open>Strings\<close>

definition is_space :: "char \<Rightarrow> bool" where
  "is_space c \<longleftrightarrow> of_char c \<in> {9, 10, 11, 12, 13, 32 :: nat}"

definition trim_right :: "(char \<Rightarrow> bool) \<Rightarrow> string \<Rightarrow> string" where
  "trim_right p s = rev (dropWhile p (rev s))"

definition trim_space :: "string \<Rightarrow> string" where
  "trim_space s = trim_right is_space (dropWhile is_space s)"

fun split_on :: "char \<Rightarrow> string \<Rightarrow> string list" where
  "split_on c [] = [[]]"
| "split_on c (x # xs) = (if x = c then [] # split_on c xs
     else case split_on c xs of [] \<Rightarrow> [[x]] | y # ys \<Rightarrow> (x # y) # ys)"

definition lower_char :: "char \<Rightarrow> char" where
  "lower_char c = (if CHR ''A'' \<le> c \<and> c \<le> CHR ''Z'' then char_of (of_char c + 32 :: nat) else c)"

definition starts_with :: "string \<Rightarrow> string \<Rightarrow> bool" where
  "starts_with p s \<longleftrightarrow> take (length p) s = p"

subsection \<open>Integers\<close>

definition digit_val :: "char \<Rightarrow> int" where
  "digit_val c =
     (let n = of_char c :: int
      in if 48 \<le> n \<and> n \<le> 57 then n - 48 else if 97 \<le> n \<and> n \<le> 102 then n - 87
         else if 65 \<le> n \<and> n \<le> 70 then n - 55 else 0)"

definition add_digit :: "int \<Rightarrow> int \<Rightarrow> char \<Rightarrow> int" where
  "add_digit base n c = n * base + digit_val c"

definition digits_val :: "int \<Rightarrow> string \<Rightarrow> int" where
  "digits_val base s = foldl (add_digit base) 0 s"

definition all_digits :: "string \<Rightarrow> bool" where
  "all_digits s \<longleftrightarrow> s \<noteq> [] \<and> list_all is_digit s"

text \<open>An optional sign: whether it is a minus, and the rest.\<close>

fun sign :: "string \<Rightarrow> bool \<times> string" where
  "sign (c # s) = (if c = CHR ''-'' then (True, s) else if c = CHR ''+'' then (False, s) else (False, c # s))"
| "sign [] = (False, [])"

definition parse_int :: "string \<Rightarrow> int option" where
  "parse_int s =
     (let (neg, r) = sign s; n = digits_val 10 r; k = (if neg then - n else n)
      in if all_digits r \<and> min_duration \<le> k \<and> k \<le> max_duration then Some k else None)"

definition parse_uint :: "string \<Rightarrow> u64 option" where
  "parse_uint s = (if all_digits s \<and> digits_val 10 s < 18446744073709551616 then Some (of_int (digits_val 10 s)) else None)"

subsection \<open>Floats\<close>

definition hex_digit :: "char \<Rightarrow> bool" where
  "hex_digit c \<longleftrightarrow> is_digit c \<or> is_hex (lower_char c)"

text \<open>Underscores only between digits, or between a base prefix and a digit; the flags are: the last
  character was a digit, the last character was an underscore.\<close>

fun underscores :: "bool \<Rightarrow> bool \<Rightarrow> bool \<Rightarrow> string \<Rightarrow> bool" where
  "underscores hex digit bar [] = (\<not> bar)"
| "underscores hex digit bar (c # s) =
     (if is_digit c \<or> hex \<and> hex_digit c then underscores hex True False s
      else if c = CHR ''_'' then digit \<and> underscores hex False True s
      else \<not> bar \<and> underscores hex False False s)"

definition exp_digit :: "int \<Rightarrow> char \<Rightarrow> int" where
  "exp_digit e c = (if c = CHR ''_'' then e else if e < 10000 then 10 * e + digit_val c else e)"

text \<open>The exponent behind the letter, or 0 when there is none; hexadecimal numbers need one.\<close>

definition parse_exponent :: "bool \<Rightarrow> string \<Rightarrow> int option" where
  "parse_exponent hex s =
     (case s of
        [] \<Rightarrow> if hex then None else Some 0
      | c # r \<Rightarrow>
          if lower_char c \<noteq> (if hex then CHR ''p'' else CHR ''e'') then None
          else let (neg, d) = sign r
               in case d of
                    [] \<Rightarrow> None
                  | x # _ \<Rightarrow>
                      if \<not> is_digit x \<or> \<not> list_all (\<lambda>c. is_digit c \<or> c = CHR ''_'') d then None
                      else let e = foldl exp_digit 0 d in Some (if neg then - e else e))"

definition scaled :: "bool \<Rightarrow> bool \<Rightarrow> int \<Rightarrow> int \<Rightarrow> f64" where
  "scaled neg hex m e =
     (if hex then round_f64 neg m 1 e
      else if 0 \<le> e then round_f64 neg (m * 10 ^ nat e) 1 0 else round_f64 neg m (10 ^ nat (- e)) 0)"

definition special_float :: "string \<Rightarrow> f64 option" where
  "special_float s =
     (let (neg, r) = sign s; l = map lower_char r
      in if l = ''inf'' \<or> l = ''infinity'' then Some (inf_of neg)
         else if map lower_char s = ''nan'' then Some NaN else None)"

definition parse_number :: "string \<Rightarrow> f64 option" where
  "parse_number s =
     (let (neg, r) = sign s;
          hex = (2 < length r \<and> map lower_char (take 2 r) = ''0x'');
          body = (if hex then drop 2 r else r);
          mchar = (\<lambda>c. c = CHR ''_'' \<or> c = CHR ''.'' \<or> (if hex then hex_digit c else is_digit c));
          m = takeWhile mchar body;
          whole = filter (\<lambda>c. c \<noteq> CHR ''_'') (takeWhile (\<lambda>c. c \<noteq> CHR ''.'') m);
          behind = filter (\<lambda>c. c \<noteq> CHR ''_'') (drop 1 (dropWhile (\<lambda>c. c \<noteq> CHR ''.'') m))
      in if whole @ behind = [] \<or> CHR ''.'' \<in> set behind \<or> \<not> underscores hex hex False body then None
         else case parse_exponent hex (dropWhile mchar body) of
           None \<Rightarrow> None
         | Some e \<Rightarrow>
             let k = int (length behind);
                 x = scaled neg hex (digits_val (if hex then 16 else 10) (whole @ behind)) (if hex then e - 4 * k else e - k)
             in if finite_f64 x then Some x else None)"

definition parse_float :: "string \<Rightarrow> f64 option" where
  "parse_float s = (case special_float s of Some x \<Rightarrow> Some x | None \<Rightarrow> parse_number s)"

subsection \<open>Durations\<close>

text \<open>\<open>leadingInt\<close> and \<open>leadingFraction\<close>; the latter drops the digits that do not fit.\<close>

fun leading_int :: "int \<Rightarrow> string \<Rightarrow> (int \<times> string) option" where
  "leading_int x [] = Some (x, [])"
| "leading_int x (c # s) =
     (if \<not> is_digit c then Some (x, c # s)
      else if 922337203685477580 < x then None
      else let y = 10 * x + digit_val c in if 9223372036854775808 < y then None else leading_int y s)"

fun leading_fraction :: "int \<Rightarrow> int \<Rightarrow> bool \<Rightarrow> string \<Rightarrow> int \<times> int \<times> string" where
  "leading_fraction x scale full [] = (x, scale, [])"
| "leading_fraction x scale full (c # s) =
     (if \<not> is_digit c then (x, scale, c # s)
      else if full \<or> 922337203685477580 < x \<or> 9223372036854775808 < 10 * x + digit_val c
      then leading_fraction x scale True s
      else leading_fraction (10 * x + digit_val c) (10 * scale) False s)"

text \<open>The units; the micro sign occurs in two encodings.\<close>

definition unit_map :: "(string \<times> int) list" where
  "unit_map =
     [(''ns'', 1), (''us'', 1000), ([CHR 0xC2, CHR 0xB5, CHR ''s''], 1000), ([CHR 0xCE, CHR 0xBC, CHR ''s''], 1000),
      (''ms'', 1000000), (''s'', 1000000000), (''m'', 60000000000), (''h'', 3600000000000)]"

definition unit_char :: "char \<Rightarrow> bool" where
  "unit_char c \<longleftrightarrow> c \<noteq> CHR ''.'' \<and> \<not> is_digit c"

text \<open>One number with its unit, in nanoseconds, and the rest.\<close>

definition duration_part :: "string \<Rightarrow> (int \<times> string) option" where
  "duration_part s =
     (case leading_int 0 s of
        None \<Rightarrow> None
      | Some (v, r) \<Rightarrow>
          let pre = (length r \<noteq> length s);
              dot = (r \<noteq> [] \<and> hd r = CHR ''.'');
              (f, scale, t) = (if dot then leading_fraction 0 1 False (tl r) else (0, 1, r));
              post = (dot \<and> length t \<noteq> length (tl r));
              u = takeWhile unit_char t
          in if \<not> pre \<and> \<not> post \<or> u = [] then None
             else case map_of unit_map u of
               None \<Rightarrow> None
             | Some unit \<Rightarrow>
                 if 9223372036854775808 div unit < v then None
                 else let w = v * unit +
                        (if 0 < f then int64_of_f64 (f64_of_int f * (f64_of_int unit / f64_of_int scale)) else 0)
                      in if 9223372036854775808 < w then None else Some (w, drop (length u) t))"

lemma duration_part_shorter: "duration_part s = Some (v, r) \<Longrightarrow> length r < length s"
proof -
  have li: "length r \<le> length s" if "leading_int x s = Some (v, r)" for x v r s
    using that by (induction x s arbitrary: v r rule: leading_int.induct) (fastforce simp: Let_def split: if_splits)+
  have lf: "length r \<le> length s" if "leading_fraction x c b s = (v, d, r)" for x c b v d r s
    using that by (induction x c b s arbitrary: v d r rule: leading_fraction.induct) (fastforce split: if_splits)+
  assume d: "duration_part s = Some (v, r)"
  obtain w t where w: "leading_int 0 s = Some (w, t)" using d by (auto simp: duration_part_def split: option.splits)
  define dot where "dot = (t \<noteq> [] \<and> hd t = CHR ''.'')"
  obtain f scale q where q: "(if dot then leading_fraction 0 1 False (tl t) else (0, 1, t)) = (f, scale, q)"
    by (metis prod_cases3)
  have "length q \<le> length t" using q lf [of 0 1 False "tl t" f scale q] by (auto split: if_splits)
  then have qs: "length q \<le> length s" using li [OF w] by simp
  have "takeWhile unit_char q \<noteq> [] \<and> r = drop (length (takeWhile unit_char q)) q"
    using d unfolding duration_part_def w by (simp add: dot_def [symmetric] q Let_def split: option.splits if_splits)
  moreover have "q \<noteq> []" using calculation by auto
  ultimately show "length r < length s" using qs by (cases q) auto
qed

text \<open>The sum is a \<open>uint64\<close>: of two summands of \<open>2^63\<close> it wraps around before the check.\<close>

function duration_sum :: "int \<Rightarrow> string \<Rightarrow> int option" where
  "duration_sum d s =
     (if s = [] then Some d
      else if \<not> (hd s = CHR ''.'' \<or> is_digit (hd s)) then None
      else case duration_part s of
        None \<Rightarrow> None
      | Some (v, r) \<Rightarrow>
          let e = (d + v) mod 18446744073709551616
          in if 9223372036854775808 < e then None else duration_sum e r)"
  by pat_completeness auto
termination by (relation "measure (\<lambda>(d, s). length s)") (auto dest: duration_part_shorter)

declare duration_sum.simps [simp del]

definition parse_duration :: "string \<Rightarrow> duration option" where
  "parse_duration s =
     (let (neg, r) = sign s
      in if r = ''0'' then Some 0
         else if r = [] then None
         else case duration_sum 0 r of
           None \<Rightarrow> None
         | Some d \<Rightarrow>
             if neg then Some (- of_int d) else if max_duration < d then None else Some (of_int d))"

subsection \<open>Instants\<close>

text \<open>The inverse of \<open>civil_from_days\<close>.\<close>

definition days_from_civil :: "int \<Rightarrow> int \<Rightarrow> int \<Rightarrow> int" where
  "days_from_civil y m d =
     (let y' = (if m \<le> 2 then y - 1 else y);
          era = y' div 400;
          yoe = y' mod 400;
          doy = (153 * (if 2 < m then m - 3 else m + 9) + 2) div 5 + d - 1;
          doe = yoe * 365 + yoe div 4 - yoe div 100 + doy
      in era * 146097 + doe - 306)"

definition days_in_month :: "int \<Rightarrow> int \<Rightarrow> int" where
  "days_in_month y m =
     (if m = 2 then (if y mod 4 = 0 \<and> (y mod 100 \<noteq> 0 \<or> y mod 400 = 0) then 29 else 28)
      else if m \<in> {4, 6, 9, 11} then 30 else 31)"

text \<open>A number of exactly \<open>n\<close> digits; the hour of a layout may have one digit.\<close>

definition get_digits :: "nat \<Rightarrow> string \<Rightarrow> (int \<times> string) option" where
  "get_digits n s =
     (if length s < n \<or> \<not> list_all is_digit (take n s) then None
      else Some (digits_val 10 (take n s), drop n s))"

definition get_hour :: "string \<Rightarrow> (int \<times> string) option" where
  "get_hour s = (case get_digits 2 s of Some r \<Rightarrow> Some r | None \<Rightarrow> get_digits 1 s)"

definition expect_char :: "char \<Rightarrow> string \<Rightarrow> string option" where
  "expect_char c s = (case s of [] \<Rightarrow> None | x # r \<Rightarrow> if x = c then Some r else None)"

text \<open>Year, month and day; \<open>None\<close> when the day does not exist.\<close>

definition parse_date :: "string \<Rightarrow> (int \<times> string) option" where
  "parse_date s =
     do { (y, s) \<leftarrow> get_digits 4 s; s \<leftarrow> expect_char CHR ''-'' s;
          (m, s) \<leftarrow> get_digits 2 s; s \<leftarrow> expect_char CHR ''-'' s;
          (d, s) \<leftarrow> get_digits 2 s;
          if 1 \<le> m \<and> m \<le> 12 \<and> 1 \<le> d \<and> d \<le> days_in_month y m then Some (days_from_civil y m d, s) else None }"

text \<open>A point or comma and digits, of which nine count.\<close>

definition parse_fraction :: "string \<Rightarrow> int \<times> string" where
  "parse_fraction s =
     (case s of
        c # d # _ \<Rightarrow>
          if c \<in> {CHR ''.'', CHR '',''} \<and> is_digit d
          then let ds = takeWhile is_digit (tl s)
               in (digits_val 10 (take 9 (ds @ replicate 9 CHR ''0'')), drop (length ds) (tl s))
          else (0, s)
      | _ \<Rightarrow> (0, s))"

definition parse_clock :: "string \<Rightarrow> (int \<times> string) option" where
  "parse_clock s =
     do { (h, s) \<leftarrow> get_hour s; s \<leftarrow> expect_char CHR '':'' s;
          (mi, s) \<leftarrow> get_digits 2 s; s \<leftarrow> expect_char CHR '':'' s;
          (sec, s) \<leftarrow> get_digits 2 s;
          (case parse_fraction s of (ns, s) \<Rightarrow>
             if h < 24 \<and> mi < 60 \<and> sec < 60 then Some (((h * 60 + mi) * 60 + sec) * 1000000000 + ns, s) else None) }"

text \<open>\<open>Z\<close> or an offset, in seconds; nothing may follow.\<close>

definition parse_zone :: "string \<Rightarrow> int option" where
  "parse_zone s =
     (if s = ''Z'' then Some 0
      else do { (c, s) \<leftarrow> (case s of [] \<Rightarrow> None | c # r \<Rightarrow> Some (c, r));
                (h, s) \<leftarrow> get_digits 2 s; s \<leftarrow> expect_char CHR '':'' s; (m, s) \<leftarrow> get_digits 2 s;
                if s \<noteq> [] \<or> 24 < h \<or> 60 < m then None
                else if c = CHR ''+'' then Some ((h * 60 + m) * 60)
                else if c = CHR ''-'' then Some (- ((h * 60 + m) * 60)) else None })"

definition day_ns :: int where "day_ns = 86400000000000"

definition parse_rfc3339 :: "string \<Rightarrow> instant option" where
  "parse_rfc3339 s =
     do { (days, s) \<leftarrow> parse_date s; s \<leftarrow> expect_char CHR ''T'' s; (ns, s) \<leftarrow> parse_clock s;
          off \<leftarrow> parse_zone s; Some (days * day_ns + ns - off * 1000000000) }"

text \<open>The layout \<open>2006-01-02 15:04:05.999999999\<close> in UTC; a space stands for one or more.\<close>

definition parse_sql_time :: "string \<Rightarrow> instant option" where
  "parse_sql_time s =
     do { (days, s) \<leftarrow> parse_date s; s \<leftarrow> expect_char CHR '' '' s;
          (ns, s) \<leftarrow> parse_clock (dropWhile (\<lambda>c. c = CHR '' '') s);
          if s = [] then Some (days * day_ns + ns) else None }"

end
