(* ===== verification/GenConfig.thy ===== *)
theory GenConfig
  imports GoText
begin

text \<open>
  \<open>internal/config/config.go\<close> of the event generator. Reading the file and yaml.v3 are parameters of
  \<open>config_Load\<close>. An error carries the text that Go reports, up to the cause inside it.
\<close>

subsection \<open>Durations in YAML\<close>

definition quoted :: "string \<Rightarrow> string" where
  "quoted s = CHR 0x22 # s @ [CHR 0x22]"

text \<open>\<open>UnmarshalYAML\<close> of a scalar node with this value.\<close>

definition UnmarshalYAML :: "string \<Rightarrow> string + duration" where
  "UnmarshalYAML value =
     (case parse_duration value of
        None \<Rightarrow> Inl (''invalid duration '' @ quoted value)
      | Some d \<Rightarrow> Inr d)"

subsection \<open>The configuration\<close>

record location =
  lo_Name :: string
  lo_Networks :: "string list"

record node =
  no_ID :: string
  no_BaseTTFBMS :: f64
  no_CapacityRPS :: int

record content =
  co_Count :: int
  co_Popularity :: string

record scenario =
  sn_At :: duration
  sn_Type :: string
  sn_Target :: string
  sn_Network :: string
  sn_Duration :: duration
  sn_AddedLatencyMS :: f64
  sn_ErrorRate :: f64
  sn_MissRate :: f64
  sn_TargetCapacityRPS :: int

record gen_config =
  gc_Seed :: int
  gc_StartTime :: string
  gc_Duration :: duration
  gc_RatePerSecond :: int
  gc_OutOfOrderMax :: duration
  gc_DuplicateRate :: f64
  gc_SchemaErrorRate :: f64
  gc_DeliveryBuckets :: int
  gc_DeliveryTopic :: string
  gc_Locations :: "location list"
  gc_Nodes :: "node list"
  gc_Content :: content
  gc_Scenarios :: "scenario list"

subsection \<open>Validation\<close>

definition ParsedStartTime :: "gen_config \<Rightarrow> string + instant" where
  "ParsedStartTime c =
     (case parse_rfc3339 (gc_StartTime c) of
        None \<Rightarrow> Inl ''start_time must be RFC3339''
      | Some t \<Rightarrow> Inr t)"

definition validRate :: "f64 \<Rightarrow> bool" where
  "validRate v \<longleftrightarrow> 0 \<le> v \<and> v \<le> 1"

definition allowed_types :: "string list" where
  "allowed_types =
     [''node_latency_spike'', ''node_5xx_spike'', ''isp_node_degradation'', ''popularity_shift'', ''capacity_pressure'']"

definition location_error :: "location \<Rightarrow> string option" where
  "location_error l =
     (if lo_Name l = [] \<or> lo_Networks l = [] then Some ''each location requires a name and at least one network'' else None)"

definition node_error :: "node \<Rightarrow> string option" where
  "node_error n =
     (if no_ID n = [] \<or> no_BaseTTFBMS n < 0 \<or> no_CapacityRPS n \<le> 0
      then Some ''each node requires an id, non-negative base latency, and positive capacity'' else None)"

text \<open>The end of a scenario is a 64-bit sum.\<close>

definition scenario_error :: "duration \<Rightarrow> scenario \<Rightarrow> string option" where
  "scenario_error run s =
     (if sn_Type s \<notin> set allowed_types \<or> sint (sn_Duration s) \<le> 0 \<or> sint (sn_At s) < 0
      then Some (''invalid scenario type/timing: '' @ quoted (sn_Type s))
      else if sint run < sint (sn_At s + sn_Duration s)
      then Some (''scenario '' @ quoted (sn_Type s) @ '' exceeds run duration'')
      else if \<not> validRate (sn_ErrorRate s) \<or> \<not> validRate (sn_MissRate s)
      then Some ''scenario rates must be in [0,1]''
      else None)"

text \<open>A loop that returns the first error of its elements.\<close>

fun first_error :: "('a \<Rightarrow> string option) \<Rightarrow> 'a list \<Rightarrow> string option" where
  "first_error f [] = None"
| "first_error f (x # xs) = (case f x of Some e \<Rightarrow> Some e | None \<Rightarrow> first_error f xs)"

definition config_Validate :: "gen_config \<Rightarrow> string option" where
  "config_Validate c =
     (case ParsedStartTime c of
        Inl err \<Rightarrow> Some err
      | Inr _ \<Rightarrow>
     if sint (gc_Duration c) \<le> 0 \<or> gc_RatePerSecond c \<le> 0
     then Some ''duration and rate_per_second must be positive''
     else if sint (gc_OutOfOrderMax c) < 0 \<or> 30000000000 < sint (gc_OutOfOrderMax c)
     then Some ''out_of_order_max must be between 0 and 30s''
     else if \<not> validRate (gc_DuplicateRate c) \<or> \<not> validRate (gc_SchemaErrorRate c)
     then Some ''duplicate_rate and schema_error_rate must be in [0,1]''
     else if gc_DeliveryBuckets c < 0 \<or> 1024 < gc_DeliveryBuckets c
     then Some ''delivery_key_buckets must be between 1 and 1024 when set''
     else if gc_Locations c = [] \<or> gc_Nodes c = [] \<or> co_Count (gc_Content c) < 2
     then Some ''at least one location/node and two content objects are required''
     else (case first_error location_error (gc_Locations c) of
        Some err \<Rightarrow> Some err
      | None \<Rightarrow>
          (case first_error node_error (gc_Nodes c) of
             Some err \<Rightarrow> Some err
           | None \<Rightarrow> first_error (scenario_error (gc_Duration c)) (gc_Scenarios c))))"

definition DeliveryKeyBucketCount :: "gen_config \<Rightarrow> int" where
  "DeliveryKeyBucketCount c = (if gc_DeliveryBuckets c = 0 then 16 else gc_DeliveryBuckets c)"

definition DeliveryTopicName :: "gen_config \<Rightarrow> string" where
  "DeliveryTopicName c = (if gc_DeliveryTopic c = [] then ''cdn.delivery.v1'' else gc_DeliveryTopic c)"

text \<open>\<open>Load\<close>, with the file reader and the YAML decoder.\<close>

definition config_Load ::
    "(string \<Rightarrow> string + string) \<Rightarrow> (string \<Rightarrow> string + gen_config) \<Rightarrow> string \<Rightarrow> string + gen_config \<times> string" where
  "config_Load readfile unmarshal path =
     (case readfile path of
        Inl err \<Rightarrow> Inl err
      | Inr raw \<Rightarrow>
          (case unmarshal raw of
             Inl err \<Rightarrow> Inl err
           | Inr c \<Rightarrow> (case config_Validate c of Some err \<Rightarrow> Inl err | None \<Rightarrow> Inr (c, raw))))"

end
