(* ===== verification/Json.thy ===== *)
theory Json
  imports GoText
begin

text \<open>
  JSON as package \<open>encoding/json\<close> reads and writes it. A value keeps the text of its numbers and
  strings as it stands in the document, so the destination decides how they are read. \<open>json_run\<close> is
  the scanner: a machine with a stack of open arrays and objects, at most 10000 deep, every step of
  which consumes a character. \<open>json_render\<close> writes without white space, as \<open>Marshal\<close> does. The
  decoders follow \<open>Unmarshal\<close>: \<open>null\<close> leaves its destination alone, a repeated key decodes again into
  the same field, keys match a field exactly or else up to case. Any error is \<open>None\<close>, since every
  caller gives up on it. Decoding a repeated array reuses the elements of the previous one; those
  beyond its last length start from zero.
\<close>

datatype json =
    JNull
  | JBool bool
  | JNum string
  | JStr string
  | JArr "json list"
  | JObj "(string \<times> json) list"

subsection \<open>Lexical structure\<close>

definition json_space :: "char \<Rightarrow> bool" where
  "json_space c \<longleftrightarrow> c \<in> {CHR '' '', CHR 0x09, CHR 0x0A, CHR 0x0D}"

definition skip_space :: "string \<Rightarrow> string" where
  "skip_space s = dropWhile json_space s"

definition hex4 :: "string \<Rightarrow> bool" where
  "hex4 s \<longleftrightarrow> 4 \<le> length s \<and> list_all hex_digit (take 4 s)"

definition simple_escape :: "char \<Rightarrow> bool" where
  "simple_escape c \<longleftrightarrow> c \<in> {CHR 0x22, CHR 0x5C, CHR ''/'', CHR ''b'', CHR ''f'', CHR ''n'', CHR ''r'', CHR ''t''}"

text \<open>The raw text of a string up to its closing quote, and what follows the quote. Only the shape of
  an escape is checked.\<close>

fun lex_string :: "string \<Rightarrow> (string \<times> string) option" where
  "lex_string [] = None"
| "lex_string (c # s) =
     (if c = CHR 0x22 then Some ([], s)
      else if of_char c < (32 :: int) then None
      else if c = CHR 0x5C then
        (case s of
           [] \<Rightarrow> None
         | e # r \<Rightarrow>
             if simple_escape e \<or> e = CHR ''u'' \<and> hex4 r
             then map_option (apfst (\<lambda>raw. c # e # raw)) (lex_string r) else None)
      else map_option (apfst ((#) c)) (lex_string s))"

definition lex_digits :: "string \<Rightarrow> (string \<times> string) option" where
  "lex_digits s = (if takeWhile is_digit s = [] then None else Some (takeWhile is_digit s, dropWhile is_digit s))"

definition lex_whole :: "string \<Rightarrow> (string \<times> string) option" where
  "lex_whole s = (case s of [] \<Rightarrow> None | c # r \<Rightarrow> if c = CHR ''0'' then Some ([c], r) else lex_digits s)"

definition lex_fraction :: "string \<Rightarrow> (string \<times> string) option" where
  "lex_fraction s =
     (case s of
        [] \<Rightarrow> Some ([], s)
      | c # r \<Rightarrow> if c = CHR ''.'' then map_option (apfst ((#) c)) (lex_digits r) else Some ([], s))"

definition lex_exponent :: "string \<Rightarrow> (string \<times> string) option" where
  "lex_exponent s =
     (case s of
        [] \<Rightarrow> Some ([], s)
      | c # r \<Rightarrow>
          if lower_char c = CHR ''e''
          then (case r of
                  [] \<Rightarrow> None
                | d # t \<Rightarrow>
                    if d = CHR ''+'' \<or> d = CHR ''-'' then map_option (apfst (\<lambda>x. c # d # x)) (lex_digits t)
                    else map_option (apfst ((#) c)) (lex_digits r))
          else Some ([], s))"

definition lex_minus :: "string \<Rightarrow> string \<times> string" where
  "lex_minus s = (case s of [] \<Rightarrow> ([], s) | c # r \<Rightarrow> if c = CHR ''-'' then ([c], r) else ([], s))"

definition lex_number :: "string \<Rightarrow> (string \<times> string) option" where
  "lex_number s =
     do { (w, r) \<leftarrow> lex_whole (snd (lex_minus s));
          (f, r) \<leftarrow> lex_fraction r;
          (e, r) \<leftarrow> lex_exponent r;
          Some (fst (lex_minus s) @ w @ f @ e, r) }"

definition lex_literal :: "string \<Rightarrow> (json \<times> string) option" where
  "lex_literal s =
     (if starts_with ''true'' s then Some (JBool True, drop 4 s)
      else if starts_with ''false'' s then Some (JBool False, drop 5 s)
      else if starts_with ''null'' s then Some (JNull, drop 4 s)
      else None)"

text \<open>A value other than an array or an object.\<close>

definition lex_scalar :: "string \<Rightarrow> (json \<times> string) option" where
  "lex_scalar s =
     (case s of
        [] \<Rightarrow> None
      | c # r \<Rightarrow>
          if c = CHR 0x22 then map_option (apfst JStr) (lex_string r)
          else if c = CHR ''-'' \<or> is_digit c then map_option (apfst JNum) (lex_number s)
          else lex_literal s)"

text \<open>The lexers consume what they return.\<close>

lemma lex_string_shorter: "lex_string s = Some (x, r) \<Longrightarrow> length r < length s"
proof (induction s arbitrary: x r rule: lex_string.induct)
  case (2 c s)
  show ?case
  proof (cases "c = CHR 0x22 \<or> of_char c < (32 :: int)")
    case True
    then show ?thesis using "2.prems" by (auto split: if_splits)
  next
    case plain: False
    show ?thesis
    proof (cases "c = CHR 0x5C")
      case True
      then obtain e t y where "s = e # t" "lex_string t = Some (y, r)" "simple_escape e \<or> e = CHR ''u'' \<and> hex4 t"
        using "2.prems" plain by (auto split: list.splits if_splits)
      then show ?thesis using "2.IH"(1) plain True by fastforce
    next
      case False
      then obtain y where "lex_string s = Some (y, r)" using "2.prems" plain by auto
      then show ?thesis using "2.IH"(2) plain False by fastforce
    qed
  qed
qed simp

lemma lex_digits_append: "lex_digits s = Some (x, r) \<Longrightarrow> s = x @ r \<and> x \<noteq> []"
  by (auto simp: lex_digits_def split: if_splits)

lemma lex_whole_append: "lex_whole s = Some (x, r) \<Longrightarrow> s = x @ r \<and> x \<noteq> []"
  by (auto simp: lex_whole_def dest: lex_digits_append split: list.splits if_splits)

lemma lex_fraction_append: "lex_fraction s = Some (x, r) \<Longrightarrow> s = x @ r"
  by (auto simp: lex_fraction_def dest: lex_digits_append split: list.splits if_splits)

lemma lex_exponent_append: "lex_exponent s = Some (x, r) \<Longrightarrow> s = x @ r"
  by (auto simp: lex_exponent_def dest: lex_digits_append split: list.splits if_splits)

lemma lex_minus_append: "fst (lex_minus s) @ snd (lex_minus s) = s"
  by (simp add: lex_minus_def split: list.split)

lemma lex_number_append:
  assumes "lex_number s = Some (x, r)" shows "s = x @ r \<and> x \<noteq> []"
proof -
  obtain w r1 f r2 e where "lex_whole (snd (lex_minus s)) = Some (w, r1)" "lex_fraction r1 = Some (f, r2)"
      "lex_exponent r2 = Some (e, r)" "x = fst (lex_minus s) @ w @ f @ e"
    using assms by (auto simp: lex_number_def split: bind_splits)
  then show ?thesis
    using lex_minus_append [of s] lex_whole_append lex_fraction_append lex_exponent_append by fastforce
qed

lemma lex_scalar_shorter:
  assumes "lex_scalar s = Some (v, r)" shows "length r < length s"
proof (cases s)
  case (Cons c t)
  consider x where "lex_string t = Some (x, r)" | x where "lex_number s = Some (x, r)" | "lex_literal s = Some (v, r)"
    using assms Cons by (auto simp: lex_scalar_def split: if_splits)
  then show ?thesis
  proof cases
    case 1
    then show ?thesis using lex_string_shorter Cons by fastforce
  next
    case 2
    then show ?thesis using lex_number_append by fastforce
  next
    case 3
    then show ?thesis using Cons by (auto simp: lex_literal_def split: if_splits)
  qed
qed (use assms in \<open>simp add: lex_scalar_def\<close>)

subsection \<open>The scanner\<close>

text \<open>Open containers, innermost first, with their elements in reverse; an object has the key whose
  value is read.\<close>

datatype frame = InArray "json list" | InObject "(string \<times> json) list" string

datatype mode =
    WantValue
  | WantElementOrEnd
  | WantKey
  | WantKeyOrEnd
  | Have json

definition max_depth :: nat where "max_depth = 10000"

text \<open>\<open>json_step\<close> consumes at least one character or gives up; \<open>None\<close> is a syntax error.\<close>

definition open_value :: "frame list \<Rightarrow> string \<Rightarrow> (mode \<times> frame list \<times> string) option" where
  "open_value fs s =
     (case s of
        [] \<Rightarrow> None
      | c # r \<Rightarrow>
          if c = CHR ''{'' then (if length fs < max_depth then Some (WantKeyOrEnd, InObject [] [] # fs, r) else None)
          else if c = CHR ''['' then (if length fs < max_depth then Some (WantElementOrEnd, InArray [] # fs, r) else None)
          else map_option (\<lambda>(v, r). (Have v, fs, r)) (lex_scalar s))"

definition read_key :: "frame list \<Rightarrow> string \<Rightarrow> (mode \<times> frame list \<times> string) option" where
  "read_key fs s =
     (case fs of
        InObject ps _ # gs \<Rightarrow>
          do { r \<leftarrow> expect_char CHR 0x22 s;
               (k, r) \<leftarrow> lex_string r;
               r \<leftarrow> expect_char CHR '':'' (skip_space r);
               Some (WantValue, InObject ps k # gs, r) }
      | _ \<Rightarrow> None)"

fun close_value :: "json \<Rightarrow> frame list \<Rightarrow> string \<Rightarrow> (mode \<times> frame list \<times> string) option" where
  "close_value v (InArray vs # fs) (c # r) =
     (if c = CHR '','' then Some (WantValue, InArray (v # vs) # fs, r)
      else if c = CHR '']'' then Some (Have (JArr (rev (v # vs))), fs, r) else None)"
| "close_value v (InObject ps k # fs) (c # r) =
     (if c = CHR '','' then Some (WantKey, InObject ((k, v) # ps) [] # fs, r)
      else if c = CHR ''}'' then Some (Have (JObj (rev ((k, v) # ps))), fs, r) else None)"
| "close_value v fs s = None"

definition json_step :: "mode \<Rightarrow> frame list \<Rightarrow> string \<Rightarrow> (mode \<times> frame list \<times> string) option" where
  "json_step m fs s =
     (case m of
        WantValue \<Rightarrow> open_value fs s
      | WantElementOrEnd \<Rightarrow>
          (case s of
             [] \<Rightarrow> None
           | c # r \<Rightarrow> if c = CHR '']'' then Some (Have (JArr []), tl fs, r) else open_value fs s)
      | WantKey \<Rightarrow> read_key fs s
      | WantKeyOrEnd \<Rightarrow>
          (case s of
             [] \<Rightarrow> None
           | c # r \<Rightarrow> if c = CHR ''}'' then Some (Have (JObj []), tl fs, r) else read_key fs s)
      | Have v \<Rightarrow> close_value v fs s)"

lemma skip_space_shorter: "length (skip_space s) \<le> length s"
  by (simp add: skip_space_def length_dropWhile_le)

lemma open_value_shorter: "open_value fs s = Some (m, gs, r) \<Longrightarrow> length r < length s"
  by (auto simp: open_value_def dest: lex_scalar_shorter split: list.splits if_splits)

lemma read_key_shorter: "read_key fs s = Some (m, gs, r) \<Longrightarrow> length r < length s"
proof -
  assume k: "read_key fs s = Some (m, gs, r)"
  obtain a b key where "expect_char CHR 0x22 s = Some a" "lex_string a = Some (key, b)"
      "expect_char CHR '':'' (skip_space b) = Some r"
    using k by (auto simp: read_key_def split: bind_splits list.splits frame.splits)
  then have "length a < length s" "length b < length a" "length r < length (skip_space b)"
    by (auto simp: expect_char_def lex_string_shorter split: list.splits if_splits)
  then show ?thesis using skip_space_shorter [of b] by simp
qed

lemma close_value_shorter: "close_value v fs s = Some (m, gs, r) \<Longrightarrow> length r < length s"
  by (induction v fs s rule: close_value.induct) (auto split: if_splits)

lemma json_step_shorter: "json_step m fs s = Some (m', gs, r) \<Longrightarrow> length r < length s"
  by (auto simp: json_step_def dest: open_value_shorter read_key_shorter close_value_shorter
      split: mode.splits list.splits if_splits)

text \<open>The first value of a text and what follows it.\<close>

function json_run :: "mode \<Rightarrow> frame list \<Rightarrow> string \<Rightarrow> (json \<times> string) option" where
  "json_run m fs s =
     (case (m, fs) of
        (Have v, []) \<Rightarrow> Some (v, s)
      | _ \<Rightarrow>
          (case json_step m fs (skip_space s) of
             None \<Rightarrow> None
           | Some (m', gs, r) \<Rightarrow> json_run m' gs r))"
  by pat_completeness auto
termination
  by (relation "measure (\<lambda>(m, fs, s). length s)")
    (auto dest!: json_step_shorter intro: less_le_trans [OF _ skip_space_shorter])

declare json_run.simps [simp del]

definition json_first :: "string \<Rightarrow> (json \<times> string) option" where
  "json_first s = json_run WantValue [] s"

text \<open>\<open>Unmarshal\<close>: one value and white space around it.\<close>

definition json_parse :: "string \<Rightarrow> json option" where
  "json_parse s = (case json_first s of Some (v, r) \<Rightarrow> if skip_space r = [] then Some v else None | None \<Rightarrow> None)"

end
