(* ===== verification/FloatText.thy ===== *)
theory FloatText
  imports GoText
begin

text \<open>
  Floats as text: \<open>strconv.FormatFloat\<close> with precision -1 and the format that \<open>encoding/json\<close> picks.
  The digits are the shortest decimal that reads back as the same number and, among those of
  that length, the nearest one. The last lemma is the round trip with \<open>ParseFloat\<close>.
\<close>

subsection \<open>The shortest decimal\<close>

text \<open>For a positive \<open>n / d\<close>: its decimal exponent, and \<open>n / d / 10^k\<close> as a quotient of integers.\<close>

definition decimal_exponent :: "int \<Rightarrow> int \<Rightarrow> int" where
  "decimal_exponent n d =
     (if d \<le> n then int (length (int_digits (n div d))) - 1
      else - int (length (int_digits ((d + n - 1) div n - 1))))"

definition decimal_num :: "int \<Rightarrow> int \<Rightarrow> int" where
  "decimal_num n k = (if 0 \<le> k then n else n * 10 ^ nat (- k))"

definition decimal_den :: "int \<Rightarrow> int \<Rightarrow> int" where
  "decimal_den d k = (if 0 \<le> k then d * 10 ^ nat k else d)"

definition reads_as :: "f64 \<Rightarrow> int \<Rightarrow> int \<Rightarrow> bool" where
  "reads_as x k m \<longleftrightarrow> scaled False False m k = x"

text \<open>The neighbours of \<open>x = n / d\<close> at the exponent \<open>k\<close>, the nearer one if both read back as \<open>x\<close>.\<close>

definition neighbour :: "f64 \<Rightarrow> int \<Rightarrow> int \<Rightarrow> int \<Rightarrow> int option" where
  "neighbour x n d k =
     (let q = decimal_den d k; lo = decimal_num n k div q; r = decimal_num n k mod q;
          up = (q < 2 * r \<or> q = 2 * r \<and> odd lo)
      in if reads_as x k lo
         then if up \<and> reads_as x k (lo + 1) then Some (lo + 1) else Some lo
         else if reads_as x k (lo + 1) then Some (lo + 1) else None)"

text \<open>At the exponent -1074 every binary64 number is exact.\<close>

function shortest :: "f64 \<Rightarrow> int \<Rightarrow> int \<Rightarrow> int \<Rightarrow> int \<times> int" where
  "shortest x n d k =
     (case neighbour x n d k of
        Some m \<Rightarrow> (m, k)
      | None \<Rightarrow> if k \<le> -1074 then (decimal_num n k div decimal_den d k, k) else shortest x n d (k - 1))"
  by pat_completeness auto
termination by (relation "measure (\<lambda>(x, n, d, k). nat (k + 1074))") auto

declare shortest.simps [simp del]

definition shortest_decimal :: "f64 \<Rightarrow> int \<times> int" where
  "shortest_decimal x =
     (let n = (if 0 \<le> expo x then mant x * 2 ^ nat (expo x) else mant x);
          d = (if 0 \<le> expo x then 1 else 2 ^ nat (- expo x))
      in shortest x n d (decimal_exponent n d))"

text \<open>The digits and the position of the decimal point before them.\<close>

definition decimal_digits :: "f64 \<Rightarrow> string \<times> int" where
  "decimal_digits x =
     (if mant x = 0 then ([], 0)
      else let (m, k) = shortest_decimal (abs x)
           in (strip_zeros (int_digits m), int (length (int_digits m)) + k))"

subsection \<open>Layouts\<close>

definition digits_f :: "string \<Rightarrow> int \<Rightarrow> string" where
  "digits_f ds p =
     (if 0 < p then take (nat p) ds @ replicate (nat p - length ds) CHR ''0'' else ''0'') @
     (if p < int (length ds) then ''.'' @ replicate (nat (- p)) CHR ''0'' @ drop (nat p) ds else [])"

definition digits_e :: "string \<Rightarrow> int \<Rightarrow> string" where
  "digits_e ds p =
     take 1 ds @ (if length ds \<le> 1 then [] else ''.'' @ drop 1 ds) @
     (if p \<le> 0 then ''e-'' @ int_digits (1 - p) else ''e+'' @ format_padded 2 (p - 1))"

definition minus_sign :: "f64 \<Rightarrow> string" where
  "minus_sign x = (if signbit x then ''-'' else [])"

text \<open>\<open>FormatFloat(x, 'f', -1, 64)\<close> and the number format of \<open>encoding/json\<close>, for finite \<open>x\<close>.\<close>

definition format_float_f :: "f64 \<Rightarrow> string" where
  "format_float_f x = (let (ds, p) = decimal_digits x in minus_sign x @ digits_f ds p)"

definition format_json_float :: "f64 \<Rightarrow> string" where
  "format_json_float x =
     (let (ds, p) = decimal_digits x
      in minus_sign x @
         (if mant x \<noteq> 0 \<and> (abs x < lit 1 6 \<or> lit 1000000000000000000000 0 \<le> abs x)
          then digits_e ds p else digits_f ds p))"

subsection \<open>Decimal digits\<close>

lemma digits_val_append: "digits_val b (x @ y) = digits_val b x * b ^ length y + digits_val b y"
proof -
  have "foldl (add_digit b) a y = a * b ^ length y + foldl (add_digit b) 0 y" for a
  proof (induction y arbitrary: a)
    case (Cons c y)
    have "foldl (add_digit b) a (c # y) = (a * b + digit_val c) * b ^ length y + foldl (add_digit b) 0 y"
      using Cons [of "a * b + digit_val c"] by (simp add: add_digit_def [of b a c])
    moreover have "foldl (add_digit b) 0 (c # y) = digit_val c * b ^ length y + foldl (add_digit b) 0 y"
      using Cons [of "digit_val c"] by (simp add: add_digit_def [of b 0 c])
    ultimately show ?case by (simp only: list.size power_Suc add_Suc_right Nat.add_0_right) (simp add: distrib_right mult.assoc)
  qed simp
  from this [of "foldl (add_digit b) 0 x"] show ?thesis by (simp only: digits_val_def foldl_append)
qed

lemma digit_val_char: assumes "0 \<le> n" "n < 10" shows "digit_val (digit_char (nat n)) = n"
proof -
  have "n = 0 \<or> n = 1 \<or> n = 2 \<or> n = 3 \<or> n = 4 \<or> n = 5 \<or> n = 6 \<or> n = 7 \<or> n = 8 \<or> n = 9"
    using assms by arith
  then show ?thesis by (elim disjE) (simp_all add: digit_val_def digit_char_def)
qed

lemma digits_val_int_digits: "0 \<le> n \<Longrightarrow> digits_val 10 (int_digits n) = n"
proof (induction n rule: int_digits.induct)
  case (1 n)
  show ?case
  proof (cases "n < 10")
    case True
    then show ?thesis using 1 by (simp add: int_digits.simps [of n] digits_val_def add_digit_def digit_val_char)
  next
    case False
    have "digits_val 10 [digit_char (nat (n mod 10))] = n mod 10"
      by (simp add: digits_val_def add_digit_def digit_val_char)
    then show ?thesis using 1 False by (simp add: int_digits.simps [of n] digits_val_append)
  qed
qed

lemma int_digits_length_le: "0 \<le> n \<Longrightarrow> n < 10 ^ k \<Longrightarrow> 0 < k \<Longrightarrow> length (int_digits n) \<le> k"
proof (induction n arbitrary: k rule: int_digits.induct)
  case (1 n)
  show ?case
  proof (cases "n < 10")
    case False
    then obtain j where k: "k = Suc j" "0 < j"
      using 1 by (cases k) (auto simp: not_less, metis linorder_not_less mult.right_neutral neq0_conv power_0)
    then have "length (int_digits (n div 10)) \<le> j" using 1 False by (intro 1) auto
    then show ?thesis using k False by (simp add: int_digits.simps [of n])
  qed (use 1 in \<open>simp add: int_digits.simps [of n]\<close>)
qed

lemma int_digits_length_ge: "0 < n \<Longrightarrow> 10 ^ (length (int_digits n) - 1) \<le> n"
proof (induction n rule: int_digits.induct)
  case (1 n)
  show ?case
  proof (cases "n < 10")
    case False
    have "length (int_digits (n div 10)) \<noteq> 0" by (simp add: int_digits_nonempty)
    then obtain j where j: "length (int_digits (n div 10)) = Suc j" by (cases "length (int_digits (n div 10))") auto
    have "10 ^ j \<le> n div 10" using 1 False j by simp
    then have "10 ^ Suc j \<le> n" by simp
    then show ?thesis using False j by (simp add: int_digits.simps [of n])
  qed (use 1 in \<open>simp add: int_digits.simps [of n]\<close>)
qed

lemma digits_val_zeros: "digits_val 10 (replicate n CHR ''0'') = 0"
  by (induction n) (simp_all add: digits_val_def add_digit_def digit_val_def)

lemma strip_zeros_append: "\<exists>j. s = strip_zeros s @ replicate j CHR ''0''"
proof -
  have "takeWhile (\<lambda>c. c = CHR ''0'') (rev s) = replicate (length (takeWhile (\<lambda>c. c = CHR ''0'') (rev s))) CHR ''0''"
    by (intro replicate_eqI) (auto dest: set_takeWhileD)
  then obtain j where "takeWhile (\<lambda>c. c = CHR ''0'') (rev s) = replicate j CHR ''0''" by blast
  then have "rev (rev s) = rev (replicate j CHR ''0'' @ dropWhile (\<lambda>c. c = CHR ''0'') (rev s))"
    by (metis takeWhile_dropWhile_id)
  then show ?thesis by (auto simp: strip_zeros_def)
qed

subsection \<open>Reading a decimal\<close>

text \<open>\<open>decimal m k\<close> is \<open>m * 10^k\<close>; what \<open>scaled\<close> returns depends on it alone.\<close>

definition decimal :: "int \<Rightarrow> int \<Rightarrow> real" where
  "decimal m k = of_int m * 10 powi k"

definition scaled_num :: "int \<Rightarrow> int \<Rightarrow> int" where
  "scaled_num m e = (if 0 \<le> e then m * 10 ^ nat e else m)"

definition scaled_den :: "int \<Rightarrow> int" where
  "scaled_den e = (if 0 \<le> e then 1 else 10 ^ nat (- e))"

lemma scaled_round: "scaled neg False m e = round_f64 neg (scaled_num m e) (scaled_den e) 0"
  by (simp add: scaled_def scaled_num_def scaled_den_def)

lemma scaled_den_pos: "0 < scaled_den e"
  by (simp add: scaled_den_def)

lemma scaled_num_pos: "0 < scaled_num m e \<longleftrightarrow> 0 < m"
  by (simp add: scaled_num_def zero_less_mult_iff)

lemma scaled_quotient: "of_int (scaled_num m e) / of_int (scaled_den e) = decimal m e"
proof (cases "0 \<le> e")
  case True
  then show ?thesis by (simp add: scaled_num_def scaled_den_def decimal_def power_int_def)
next
  case False
  then have "10 powi e = inverse (10 ^ nat (- e) :: real)" by (simp add: power_int_def power_one_over inverse_eq_divide)
  then show ?thesis using False by (simp add: scaled_num_def scaled_den_def decimal_def divide_inverse)
qed

lemma round_f64_cong:
  assumes "0 < n" "0 < d" "0 < n'" "0 < d'" "of_int n / of_int d * p2 e = of_int n' / of_int d' * p2 e'"
  shows "round_f64 neg n d e = round_f64 neg n' d' e'"
  unfolding round_f64_eq [OF assms(1,2) refl] round_f64_eq [OF assms(3,4) refl] assms(5) ..

lemma scaled_cong:
  assumes "0 < m" "0 < m'" "decimal m e = decimal m' e'" shows "scaled neg False m e = scaled neg False m' e'"
  unfolding scaled_round using assms by (intro round_f64_cong) (simp_all add: scaled_num_pos scaled_den_pos scaled_quotient)

lemma round_f64_exact:
  assumes "0 < n" "0 < d" "plain x" "of_int n / of_int d * p2 e = val x"
  shows "round_f64 False n d e = x"
proof -
  have x: "finite_f64 x" "canonical x" using assms(3) by (simp_all add: plain_def)
  have "finite_f64 (round_f64 False n d e) \<and> val (round_f64 False n d e) = val x"
    using round_f64_val [of n d e False] val_less_ovf [OF x(2)] assms(1,2) x
    unfolding assms(4) rnd_val [OF x(2)] by simp
  moreover have "round_f64 False n d e \<noteq> NZero"
    using round_f64_eq [OF assms(1,2) refl, of False e] by (auto simp: Let_def pack_def zero_of_def inf_of_def split: if_splits)
  ultimately show ?thesis
    using plain_val_inj [of "round_f64 False n d e" x] assms(1-3) round_f64_canonical [of n d False e] by (simp add: plain_def)
qed

lemma round_f64_minus: "0 < n \<Longrightarrow> 0 < d \<Longrightarrow> round_f64 True n d e = - round_f64 False n d e"
  by (simp add: round_f64_eq [OF _ _ refl] Let_def pack_def zero_of_def inf_of_def)

subsection \<open>The shortest decimal reads back\<close>

text \<open>A positive number as the quotient that \<open>shortest_decimal\<close> works with.\<close>

definition as_quotient :: "f64 \<Rightarrow> int \<Rightarrow> int \<Rightarrow> bool" where
  "as_quotient x n d \<longleftrightarrow> plain x \<and> 0 < n \<and> of_int n / of_int d = val x \<and> (\<exists>j \<le> 1074. d = 2 ^ j)"

lemma as_quotient_parts:
  assumes "plain x" "0 < mant x"
  shows "as_quotient x (if 0 \<le> expo x then mant x * 2 ^ nat (expo x) else mant x) (if 0 \<le> expo x then 1 else 2 ^ nat (- expo x))"
proof -
  obtain m e where x: "x = Fin m e" using assms by (cases x) auto
  have e: "-1074 \<le> e" and m: "0 < m" using assms x by (auto simp: plain_def)
  have "p2 e = inverse (2 ^ nat (- e))" if "\<not> 0 \<le> e" using that by (simp add: p2_def power_int_def power_one_over inverse_eq_divide)
  then have v: "of_int (if 0 \<le> e then m * 2 ^ nat e else m) / of_int (if 0 \<le> e then 1 else 2 ^ nat (- e)) = val x"
    by (simp add: x val_Fin p2_nat divide_inverse)
  have "\<exists>j \<le> 1074. (if 0 \<le> e then 1 else 2 ^ nat (- e)) = (2 :: int) ^ j"
    using e by (cases "0 \<le> e") (auto intro: exI [of _ "0 :: nat"] exI [of _ "nat (- e)"])
  moreover have "0 < (if 0 \<le> e then m * 2 ^ nat e else m)" using m by simp
  ultimately show ?thesis using v assms(1) unfolding as_quotient_def x mant.simps expo.simps by blast
qed

lemma as_quotient_pos: "as_quotient x n d \<Longrightarrow> 0 < d"
  by (auto simp: as_quotient_def)

lemma reads_as_decimal: "as_quotient x n d \<Longrightarrow> 0 < m \<Longrightarrow> decimal m k = val x \<Longrightarrow> reads_as x k m"
  unfolding reads_as_def scaled_round
  by (rule round_f64_exact) (auto simp: scaled_num_pos scaled_den_pos scaled_quotient as_quotient_def p2_def)

lemma reads_as_positive: "as_quotient x n d \<Longrightarrow> 0 \<le> m \<Longrightarrow> reads_as x k m \<Longrightarrow> 0 < m"
proof (rule ccontr)
  assume q: "as_quotient x n d" and "0 \<le> m" "reads_as x k m" "\<not> 0 < m"
  then have "x = Fin 0 (-1074)" by (auto simp: reads_as_def scaled_def round_f64_def zero_of_def)
  then have "val x = 0" by (simp add: val_Fin)
  moreover have "0 < val x" using q as_quotient_pos [OF q] unfolding as_quotient_def by (metis divide_pos_pos of_int_0_less_iff)
  ultimately show False by simp
qed

lemma decimal_parts_pos: "0 < n \<Longrightarrow> 0 < decimal_num n k" "0 < d \<Longrightarrow> 0 < decimal_den d k"
  by (simp_all add: decimal_num_def decimal_den_def)

lemma last_decimal:
  assumes q: "as_quotient x n d" and k: "k \<le> -1074"
  shows "reads_as x k (decimal_num n k div decimal_den d k)"
proof -
  obtain j where j: "j \<le> 1074" "d = 2 ^ j" using q by (auto simp: as_quotient_def)
  define b where "b = nat (- k)"
  have b: "1074 \<le> b" "k = - int b" using k by (simp_all add: b_def)
  have "(2 :: int) ^ j dvd 2 ^ b" using j b by (intro le_imp_power_dvd) simp
  also have "(2 :: int) ^ b dvd 10 ^ b" by (intro dvd_power_same) simp
  finally have dvd: "d dvd n * 10 ^ b" using j by (simp add: dvd_mult)
  define m where "m = n * 10 ^ b div d"
  have d: "0 < d" by (rule as_quotient_pos [OF q])
  have "m * d = n * 10 ^ b" using dvd by (simp add: m_def)
  then have m: "of_int m * of_int d = (of_int n * 10 ^ b :: real)" by (metis of_int_mult of_int_numeral of_int_power)
  have "decimal m k = of_int n / of_int d"
    using m d by (simp add: decimal_def b(2) power_int_minus field_simps)
  then have v: "decimal m k = val x" using q by (simp add: as_quotient_def)
  have "0 < n" using q by (simp add: as_quotient_def)
  then have "0 < m * d" using \<open>m * d = n * 10 ^ b\<close> by simp
  then have "0 < m" using d by (simp add: zero_less_mult_iff)
  moreover have "decimal_num n k div decimal_den d k = m"
    using b by (simp add: decimal_num_def decimal_den_def m_def)
  ultimately show ?thesis using reads_as_decimal [OF q _ v] by simp
qed

lemma neighbour_reads: "neighbour x n d k = Some m \<Longrightarrow> reads_as x k m"
  by (auto simp: neighbour_def Let_def split: if_splits)

lemma neighbour_near: "neighbour x n d k = Some m \<Longrightarrow> m \<in> {decimal_num n k div decimal_den d k, decimal_num n k div decimal_den d k + 1}"
  by (auto simp: neighbour_def Let_def split: if_splits)

text \<open>What the search returns: an exponent no larger than the first one, and a digit string that reads
  back and is a neighbour of the number.\<close>

lemma shortest_reads:
  assumes "as_quotient x n d" "shortest x n d k = (m, j)"
  shows "reads_as x j m \<and> j \<le> k \<and> min k (-1074) \<le> j \<and>
    m \<in> {decimal_num n j div decimal_den d j, decimal_num n j div decimal_den d j + 1}"
  using assms
proof (induction x n d k rule: shortest.induct)
  case (1 x n d k)
  show ?case
  proof (cases "neighbour x n d k")
    case None
    show ?thesis
    proof (cases "k \<le> -1074")
      case True
      then show ?thesis using 1 None last_decimal [OF 1(2) True] by (auto simp: shortest.simps [of x n d k])
    next
      case False
      then show ?thesis using 1 None by (auto simp: shortest.simps [of x n d k])
    qed
  next
    case (Some a)
    then show ?thesis
      using 1 neighbour_reads [OF Some] neighbour_near [OF Some] by (simp add: shortest.simps [of x n d k])
  qed
qed

text \<open>Bounds, generous ones, that keep the exponent of a formatted number below 10000.\<close>

lemma div_le_self: "0 \<le> n \<Longrightarrow> 0 < d \<Longrightarrow> n div d \<le> (n :: int)"
  using zdiv_mono2 [of n 1 d] by simp

lemma decimal_exponent_ge: assumes "as_quotient x n d" shows "-1074 \<le> decimal_exponent n d"
proof (cases "d \<le> n")
  case False
  have n: "0 < n" and d: "0 < d" using assms as_quotient_pos [OF assms] by (simp_all add: as_quotient_def)
  obtain i where i: "i \<le> 1074" "d = 2 ^ i" using assms by (auto simp: as_quotient_def)
  have "(d + n - 1) div n - 1 = (d - 1) div n" using n div_add_self2 [of n "d - 1"] by (simp add: algebra_simps)
  also have "\<dots> \<le> d - 1" using n d by (intro div_le_self) simp_all
  finally have c: "(d + n - 1) div n - 1 < d" by simp
  have "d \<le> 10 ^ i" unfolding i by (intro power_mono) simp_all
  moreover have "(10 :: int) ^ i \<le> 10 ^ max i 1" by (intro power_increasing) simp_all
  ultimately have "(d + n - 1) div n - 1 < 10 ^ max i 1" using c by linarith
  moreover have "0 \<le> (d + n - 1) div n - 1"
    using \<open>(d + n - 1) div n - 1 = (d - 1) div n\<close> n d by (simp add: pos_imp_zdiv_nonneg_iff)
  ultimately have "length (int_digits ((d + n - 1) div n - 1)) \<le> max i 1" by (intro int_digits_length_le) simp_all
  then show ?thesis using False i by (simp add: decimal_exponent_def)
qed (simp add: decimal_exponent_def)

lemma shortest_bounds:
  assumes "as_quotient x n d" "n < 10 ^ a" "0 < a" "shortest x n d (decimal_exponent n d) = (m, j)"
  shows "0 < m \<and> -1073 \<le> int (length (int_digits m)) + j \<and> int (length (int_digits m)) + j \<le> 2 * int a + 1074"
proof -
  have n: "0 < n" and d: "0 < d" using assms(1) as_quotient_pos [OF assms(1)] by (simp_all add: as_quotient_def)
  have nd: "n div d < 10 ^ a" "0 \<le> n div d" using div_le_self [of n d] assms(2) n d by (simp_all add: pos_imp_zdiv_nonneg_iff)
  have upper: "decimal_exponent n d < a"
    using int_digits_length_le [OF nd(2,1) assms(3)] assms(3) by (simp add: decimal_exponent_def)
  have r: "reads_as x j m" "j \<le> decimal_exponent n d" "-1074 \<le> j"
    "m \<in> {decimal_num n j div decimal_den d j, decimal_num n j div decimal_den d j + 1}"
    using shortest_reads [OF assms(1,4)] decimal_exponent_ge [OF assms(1)] by auto
  have pos: "0 < decimal_num n j" "0 < decimal_den d j" using decimal_parts_pos n d by simp_all
  have lo: "0 \<le> decimal_num n j div decimal_den d j" using pos by (simp add: pos_imp_zdiv_nonneg_iff)
  then have m: "0 < m" using reads_as_positive [OF assms(1) _ r(1)] r(4) by auto
  define b :: nat where "b = 1074"
  have b: "nat (- j) \<le> b" using r(3) unfolding b_def by simp
  have "(10 :: int) ^ nat (- j) \<le> 10 ^ b" "(1 :: int) \<le> 10 ^ b" using b by (simp_all add: power_increasing)
  then have "decimal_num n j \<le> n * 10 ^ b" using n by (simp add: decimal_num_def)
  also have "\<dots> < 10 ^ a * 10 ^ b" using assms(2) by (intro mult_strict_right_mono) simp_all
  finally have "decimal_num n j < 10 ^ (a + b)" by (simp add: power_add)
  moreover have "decimal_num n j div decimal_den d j \<le> decimal_num n j" using pos by (intro div_le_self) simp_all
  ultimately have "m \<le> 10 ^ (a + b)" using r(4) by auto
  also have "(10 :: int) ^ (a + b) < 10 ^ Suc (a + b)" by (intro power_strict_increasing) simp_all
  finally have "length (int_digits m) \<le> Suc (a + b)" using m by (intro int_digits_length_le) simp_all
  moreover have "Suc (a + b) = a + 1075" by (simp add: b_def)
  moreover have "1 \<le> length (int_digits m)" by (simp add: Suc_leI int_digits_nonempty)
  ultimately show ?thesis using m r(3) upper r(2) by linarith
qed

subsection \<open>Parsing a decimal literal\<close>

lemma digit_facts:
  assumes "is_digit c"
  shows "lower_char c = c" "c \<notin> set ''_.+-einxp''"
  using assms by (auto simp: is_digit_def lower_char_def)

definition point_part :: "string \<Rightarrow> string" where
  "point_part ds = (if ds = [] then [] else CHR ''.'' # ds)"

text \<open>An exponent as \<open>digits_e\<close> writes it, and its value.\<close>

definition exp_part :: "string \<Rightarrow> int \<Rightarrow> bool" where
  "exp_part t e \<longleftrightarrow> t = [] \<and> e = 0 \<or>
     (\<exists>ds. ds \<noteq> [] \<and> list_all is_digit ds \<and> length ds \<le> 4 \<and>
        (t = ''e-'' @ ds \<and> e = - digits_val 10 ds \<or> t = ''e+'' @ ds \<and> e = digits_val 10 ds))"

lemma digit_val_range: "is_digit c \<Longrightarrow> 0 \<le> digit_val c \<and> digit_val c \<le> 9"
  by (auto simp: is_digit_def digit_val_def)

lemma digits_val_bound: "list_all is_digit ds \<Longrightarrow> 0 \<le> digits_val 10 ds \<and> digits_val 10 ds < 10 ^ length ds"
proof (induction ds rule: rev_induct)
  case (snoc c ds)
  have "digits_val 10 (ds @ [c]) = 10 * digits_val 10 ds + digit_val c"
    by (simp add: digits_val_append) (simp add: digits_val_def add_digit_def)
  then show ?case using snoc digit_val_range [of c] by simp
qed (simp add: digits_val_def)

lemma exp_digits: "list_all is_digit ds \<Longrightarrow> length ds \<le> 4 \<Longrightarrow> foldl exp_digit 0 ds = digits_val 10 ds"
proof (induction ds rule: rev_induct)
  case (snoc c ds)
  have c: "is_digit c" "c \<noteq> CHR ''_''" using snoc.prems by (auto simp: is_digit_def)
  have "digits_val 10 ds < 10 ^ length ds" using snoc.prems digits_val_bound by simp
  also have "\<dots> \<le> 10 ^ 3" using snoc.prems by (intro power_increasing) simp_all
  finally show ?case using snoc c
    by (simp add: exp_digit_def digits_val_append) (simp add: digits_val_def add_digit_def)
qed (simp add: digits_val_def)

lemma parse_exp_part: "exp_part t e \<Longrightarrow> parse_exponent False t = Some e"
proof -
  assume "exp_part t e"
  then consider "t = []" "e = 0"
    | ds c where "ds \<noteq> []" "list_all is_digit ds" "length ds \<le> 4" "c = CHR ''-'' \<and> e = - digits_val 10 ds \<or> c = CHR ''+'' \<and> e = digits_val 10 ds"
        "t = CHR ''e'' # c # ds"
    by (auto simp: exp_part_def)
  then show ?thesis
  proof cases
    case 1
    then show ?thesis by (simp add: parse_exponent_def)
  next
    case (2 ds c)
    then obtain x r where x: "ds = x # r" by (cases ds) auto
    have "list_all (\<lambda>c. is_digit c \<or> c = CHR ''_'') ds" using 2 by (auto simp: list_all_iff)
    then show ?thesis using 2 x exp_digits [of ds]
      by (auto simp: parse_exponent_def lower_char_def)
  qed
qed

lemma no_underscore: "CHR ''_'' \<notin> set s \<Longrightarrow> underscores hex digit False s"
  by (induction s arbitrary: digit) auto

lemma span_append:
  assumes "\<forall>a \<in> set u. P a" "t = [] \<or> \<not> P (hd t)"
  shows "takeWhile P (u @ t) = u \<and> dropWhile P (u @ t) = t"
  using assms by (cases t) auto

lemma parse_literal:
  assumes w: "w \<noteq> []" "list_all is_digit w" and f: "list_all is_digit f" and t: "exp_part t e"
    and x: "x = scaled neg False (digits_val 10 (w @ f)) (e - int (length f))" "finite_f64 x"
  shows "parse_float ((if neg then ''-'' else []) @ w @ point_part f @ t) = Some x"
proof -
  define r where "r = w @ point_part f @ t"
  define s where "s = (if neg then ''-'' else []) @ r"
  obtain c v where wc: "w = c # v" using w by (cases w) auto
  then have c: "is_digit c" "c \<notin> set ''_.+-einxp''" "lower_char c = c" using w digit_facts [of c] by simp_all
  have sign: "sign s = (neg, r)" using c by (auto simp: s_def r_def wc)
  have te: "t = [] \<or> (\<exists>u. t = CHR ''e'' # u)" using t by (auto simp: exp_part_def)
  have special: "special_float s = None"
  proof -
    have "map lower_char r \<noteq> ''inf''" "map lower_char r \<noteq> ''infinity''" using c by (auto simp: r_def wc)
    moreover have "map lower_char s \<noteq> ''nan''" using c by (auto simp: s_def r_def wc lower_char_def)
    ultimately show ?thesis by (simp add: special_float_def sign)
  qed
  have hex: "(2 < length r \<and> map lower_char (take 2 r) = ''0x'') = False"
  proof -
    have "lower_char d \<noteq> CHR ''x''" if "r = c # d # q" for d q
    proof -
      have "is_digit d \<or> d = CHR ''.'' \<or> d = CHR ''e''"
        using that w te by (cases v; cases f) (auto simp: r_def wc point_part_def)
      then show ?thesis using digit_facts [of d] by (auto simp: lower_char_def)
    qed
    then show ?thesis by (cases r; cases "tl r") (auto simp: r_def wc)
  qed
  let ?m = "\<lambda>c. c = CHR ''_'' \<or> c = CHR ''.'' \<or> is_digit c"
  have e: "\<not> ?m CHR ''e''" by (simp add: is_digit_def)
  have wf: "\<forall>a \<in> set (w @ point_part f). ?m a" using w f by (auto simp: point_part_def list_all_iff)
  have t0: "t = [] \<or> \<not> ?m (hd t)" using te e by fastforce
  have m: "takeWhile ?m r = w @ point_part f \<and> dropWhile ?m r = t"
    unfolding r_def append_assoc [symmetric] by (rule span_append [OF wf t0])
  have dots: "\<forall>a \<in> set w. a \<noteq> CHR ''.'' \<and> a \<noteq> CHR ''_''" "\<forall>a \<in> set f. a \<noteq> CHR ''.'' \<and> a \<noteq> CHR ''_''"
    using w f digit_facts by (fastforce simp: list_all_iff)+
  have whole: "takeWhile (\<lambda>c. c \<noteq> CHR ''.'') (w @ point_part f) = w" "drop 1 (dropWhile (\<lambda>c. c \<noteq> CHR ''.'') (w @ point_part f)) = f"
    using dots by (simp_all add: takeWhile_append dropWhile_append point_part_def)
  have filters: "filter (\<lambda>c. c \<noteq> CHR ''_'') w = w" "filter (\<lambda>c. c \<noteq> CHR ''_'') f = f" "CHR ''.'' \<notin> set f"
    using dots by (auto simp: filter_id_conv)
  have "CHR ''_'' \<notin> set t" using t digit_facts by (fastforce simp: exp_part_def list_all_iff)
  then have "CHR ''_'' \<notin> set r" using dots by (auto simp: r_def point_part_def)
  then have bars: "underscores False False False r" by (rule no_underscore)
  have "parse_number s = Some x"
    unfolding parse_number_def sign Let_def prod.case hex if_False m [THEN conjunct1] m [THEN conjunct2] whole filters
      parse_exp_part [OF t] option.case
    using w x by (simp add: filters(3) bars)
  then show ?thesis by (simp add: parse_float_def special flip: s_def r_def)
qed

subsection \<open>The round trip\<close>

lemma decimal_shift: "decimal (m * 10 ^ j) k = decimal m (k + int j)"
  by (simp add: decimal_def power_int_add)

lemma decimal_digits_spec:
  assumes x: "finite_f64 x" "canonical x" "mant x \<noteq> 0" and ds: "decimal_digits x = (ds, p)"
  shows "list_all is_digit ds \<and> 0 < digits_val 10 ds \<and> -1073 \<le> p \<and> p \<le> 4000 \<and>
    (\<forall>m k. 0 < m \<and> decimal m k = decimal (digits_val 10 ds) (p - int (length ds)) \<longrightarrow> scaled (signbit x) False m k = x)"
proof -
  obtain a e where xe: "x = Fin a e" using x by (cases x) auto
  then have ab: "abs x = Fin \<bar>a\<bar> e" "a \<noteq> 0" using x by auto
  have pl: "plain (abs x)" "0 < mant (abs x)" using x xe ab by (auto simp: plain_def)
  define n where "n = (if 0 \<le> e then \<bar>a\<bar> * 2 ^ nat e else \<bar>a\<bar>)"
  define d :: int where "d = (if 0 \<le> e then 1 else 2 ^ nat (- e))"
  obtain m j where mj: "shortest (abs x) n d (decimal_exponent n d) = (m, j)" by fastforce
  have q: "as_quotient (abs x) n d" using as_quotient_parts [OF pl] unfolding n_def d_def ab expo.simps mant.simps .
  have bits: "\<bar>a\<bar> < 2 ^ 53" "e \<le> 971" using x xe ab by auto
  have "n < 2 ^ 53 * 2 ^ nat 971"
  proof (cases "0 \<le> e")
    case True
    have "\<bar>a\<bar> * 2 ^ nat e < 2 ^ 53 * 2 ^ nat e" using bits by (intro mult_strict_right_mono) simp_all
    also have "(2 :: int) ^ nat e \<le> 2 ^ nat 971" using bits by (intro power_increasing) simp_all
    then have "2 ^ 53 * (2 :: int) ^ nat e \<le> 2 ^ 53 * 2 ^ nat 971" by (intro mult_left_mono) simp_all
    finally show ?thesis by (simp only: n_def True if_True)
  next
    case False
    have "(1 :: int) \<le> 2 ^ nat 971" by (intro one_le_power) simp
    then have "2 ^ 53 * (1 :: int) \<le> 2 ^ 53 * 2 ^ nat 971" by (intro mult_left_mono) simp_all
    then show ?thesis using bits False unfolding n_def by (simp only: if_False mult_1_right)
  qed
  also have "2 ^ 53 * (2 :: int) ^ nat 971 = 2 ^ (53 + nat 971)" by (simp only: power_add)
  also have "\<dots> \<le> 10 ^ (53 + nat 971)" by (intro power_mono) simp_all
  finally have n: "n < 10 ^ (53 + nat 971)" .
  have b: "0 < m" "-1073 \<le> int (length (int_digits m)) + j" "int (length (int_digits m)) + j \<le> 4000"
    using shortest_bounds [OF q n _ mj] by simp_all
  have r: "reads_as (abs x) j m" using shortest_reads [OF q mj] by simp
  have sd: "shortest_decimal (abs x) = (m, j)"
    using mj unfolding shortest_decimal_def ab expo.simps mant.simps Let_def n_def d_def .
  have eq: "ds = strip_zeros (int_digits m)" "p = int (length (int_digits m)) + j"
    using ds x(3) sd by (simp_all add: decimal_digits_def)
  obtain i where i: "int_digits m = ds @ replicate i CHR ''0''" using strip_zeros_append eq by blast
  have dig: "list_all is_digit ds"
    using int_digits_digits [of m] i by (auto simp: list_all_iff)
  have mv: "m = digits_val 10 ds * 10 ^ i"
    using digits_val_int_digits [of m] b(1) by (simp add: i digits_val_append digits_val_zeros)
  then have pos: "0 < digits_val 10 ds" using b(1) by (simp add: zero_less_mult_iff)
  have v: "decimal (digits_val 10 ds) (p - int (length ds)) = decimal m j"
    using decimal_shift [of "digits_val 10 ds" i j] i by (simp add: eq(2) mv add.commute)
  have "scaled (signbit x) False m' k = x" if m': "0 < m'" "decimal m' k = decimal (digits_val 10 ds) (p - int (length ds))" for m' k
  proof -
    have f: "scaled False False m' k = abs x"
      using scaled_cong [OF m'(1) b(1), of k j False] m'(2) v r by (simp add: reads_as_def)
    show ?thesis
    proof (cases "a < 0")
      case True
      have "scaled True False m' k = - abs x"
        using f round_f64_minus [of "scaled_num m' k" "scaled_den k" 0] m'(1)
        by (simp add: scaled_round scaled_num_pos scaled_den_pos)
      then show ?thesis using True by (simp add: ab) (simp add: xe)
    next
      case False
      then show ?thesis using f by (simp add: ab) (simp add: xe)
    qed
  qed
  then show ?thesis using dig pos b by (auto simp: eq(2))
qed

lemma parse_digits_f:
  assumes ds: "list_all is_digit ds" "0 < digits_val 10 ds"
    and x: "finite_f64 x" "\<And>m k. 0 < m \<Longrightarrow> decimal m k = decimal (digits_val 10 ds) (p - int (length ds)) \<Longrightarrow> scaled (signbit x) False m k = x"
  shows "parse_float (minus_sign x @ digits_f ds p) = Some x"
proof -
  have sign: "minus_sign x = (if signbit x then ''-'' else [])" by (simp add: minus_sign_def)
  define w where "w = (if 0 < p then take (nat p) ds @ replicate (nat p - length ds) CHR ''0'' else ''0'')"
  define f where "f = (if p < int (length ds) then replicate (nat (- p)) CHR ''0'' @ drop (nat p) ds else [])"
  have ne: "ds \<noteq> []" using ds by (auto simp: digits_val_def)
  have t: "digits_f ds p = w @ point_part f @ []"
    using ne by (auto simp: digits_f_def w_def f_def point_part_def)
  have z: "is_digit CHR ''0''" by (simp add: is_digit_def)
  have w: "w \<noteq> []" "list_all is_digit w"
    using ds ne z by (auto simp: w_def list_all_iff dest: in_set_takeD)
  have f: "list_all is_digit f" using ds z by (auto simp: f_def list_all_iff dest: in_set_dropD)
  have v: "0 < digits_val 10 (w @ f) \<and> decimal (digits_val 10 (w @ f)) (0 - int (length f)) = decimal (digits_val 10 ds) (p - int (length ds))"
  proof -
    consider "p \<le> 0" | "0 < p" "p < int (length ds)" | "int (length ds) \<le> p" "0 < p" by linarith
    then show ?thesis
    proof cases
      case 1
      then have "p < int (length ds)" using ne by (cases ds) auto
      then have "w @ f = replicate (Suc (nat (- p))) CHR ''0'' @ ds" "int (length f) = int (length ds) - p"
        using 1 by (simp_all add: w_def f_def)
      then show ?thesis using ds by (simp only: digits_val_append digits_val_zeros) simp
    next
      case 2
      then have "w @ f = ds" "int (length f) = int (length ds) - p" by (simp_all add: w_def f_def)
      then show ?thesis using ds by simp
    next
      case 3
      then have "w @ f = ds @ replicate (nat p - length ds) CHR ''0''" "length f = 0" by (simp_all add: w_def f_def)
      then show ?thesis using 3 ds decimal_shift [of "digits_val 10 ds" "nat p - length ds" 0]
        by (simp add: digits_val_append digits_val_zeros of_nat_diff)
    qed
  qed
  show ?thesis
    unfolding t sign
    by (rule parse_literal [OF w f, of _ 0]) (use v x in \<open>auto simp: exp_part_def\<close>)
qed

definition exp_text :: "int \<Rightarrow> string" where
  "exp_text p = (if p \<le> 0 then ''e-'' @ int_digits (1 - p) else ''e+'' @ format_padded 2 (p - 1))"

lemma exp_part_text:
  assumes p: "-1073 \<le> p" "p \<le> 4000" shows "exp_part (exp_text p) (p - 1)"
proof (cases "p \<le> 0")
  case True
  then show ?thesis using p int_digits_digits [of "1 - p"] int_digits_length_le [of "1 - p" 4] digits_val_int_digits [of "1 - p"]
    by (auto simp: exp_part_def exp_text_def int_digits_nonempty list_all_iff intro!: exI [of _ "int_digits (1 - p)"])
next
  case False
  have z: "is_digit CHR ''0''" by (simp add: is_digit_def)
  define u where "u = format_padded 2 (p - 1)"
  have u: "u = replicate (2 - length (int_digits (p - 1))) CHR ''0'' @ int_digits (p - 1)"
    using False by (simp add: u_def format_padded_def pad_left_def)
  have "length (int_digits (p - 1)) \<le> 4" using p False by (intro int_digits_length_le) simp_all
  then have "length u \<le> 4" "u \<noteq> []" "list_all is_digit u" "digits_val 10 u = p - 1"
    using int_digits_digits [of "p - 1"] digits_val_int_digits [of "p - 1"] False z
    by (auto simp: u int_digits_nonempty list_all_iff digits_val_append digits_val_zeros)
  then show ?thesis using False by (auto simp: exp_part_def exp_text_def u_def [symmetric])
qed

lemma parse_digits_e:
  assumes ds: "list_all is_digit ds" "0 < digits_val 10 ds" and p: "-1073 \<le> p" "p \<le> 4000"
    and x: "finite_f64 x" "\<And>m k. 0 < m \<Longrightarrow> decimal m k = decimal (digits_val 10 ds) (p - int (length ds)) \<Longrightarrow> scaled (signbit x) False m k = x"
  shows "parse_float (minus_sign x @ digits_e ds p) = Some x"
proof -
  obtain c v where c: "ds = c # v" using ds by (cases ds) (auto simp: digits_val_def)
  define t where "t = (if p \<le> 0 then ''e-'' @ int_digits (1 - p) else ''e+'' @ format_padded 2 (p - 1))"
  have sign: "minus_sign x = (if signbit x then ''-'' else [])" by (simp add: minus_sign_def)
  have d: "digits_e ds p = [c] @ point_part v @ t" by (simp add: digits_e_def c point_part_def t_def)
  have "exp_part t (p - 1)" using exp_part_text [OF p] by (simp add: t_def exp_text_def)
  moreover have "scaled (signbit x) False (digits_val 10 ([c] @ v)) (p - 1 - int (length v)) = x"
    using ds by (intro x) (simp_all add: c algebra_simps)
  ultimately show ?thesis
    unfolding d sign using ds x(1) by (intro parse_literal [where e = "p - 1"]) (simp_all add: c)
qed

text \<open>Zero has no digits and prints as \<open>0\<close> or \<open>-0\<close>.\<close>

lemma mant_zero_cases: "finite_f64 x \<Longrightarrow> canonical x \<Longrightarrow> mant x = 0 \<Longrightarrow> x = NZero \<or> x = Fin 0 (-1074)"
  by (cases x) auto

lemma parse_zero: "mant x = 0 \<Longrightarrow> finite_f64 x \<Longrightarrow> canonical x \<Longrightarrow> parse_float (minus_sign x @ digits_f [] 0) = Some x"
proof -
  assume "mant x = 0" "finite_f64 x" "canonical x"
  then have "x = NZero \<or> x = Fin 0 (-1074)" using mant_zero_cases by blast
  moreover have "parse_float (minus_sign NZero @ digits_f [] 0) = Some NZero"
    "parse_float (minus_sign (Fin 0 (-1074)) @ digits_f [] 0) = Some (Fin 0 (-1074))" by code_simp+
  ultimately show ?thesis by blast
qed

theorem parse_format_float: "finite_f64 x \<Longrightarrow> canonical x \<Longrightarrow> parse_float (format_float_f x) = Some x"
proof -
  assume x: "finite_f64 x" "canonical x"
  obtain ds p where d: "decimal_digits x = (ds, p)" by fastforce
  show ?thesis
  proof (cases "mant x = 0")
    case True
    then show ?thesis using parse_zero [OF True x] by (simp add: format_float_f_def decimal_digits_def)
  next
    case False
    show ?thesis
      using decimal_digits_spec [OF x False d] x
      unfolding format_float_f_def d Let_def prod.case by (intro parse_digits_f) auto
  qed
qed

theorem parse_format_json: "finite_f64 x \<Longrightarrow> canonical x \<Longrightarrow> parse_float (format_json_float x) = Some x"
proof -
  assume x: "finite_f64 x" "canonical x"
  obtain ds p where d: "decimal_digits x = (ds, p)" by fastforce
  show ?thesis
  proof (cases "mant x = 0")
    case True
    then show ?thesis using parse_zero [OF True x] by (simp add: format_json_float_def decimal_digits_def)
  next
    case False
    note sp = decimal_digits_spec [OF x False d]
    have "parse_float (minus_sign x @ digits_f ds p) = Some x" using sp x by (intro parse_digits_f) auto
    moreover have "parse_float (minus_sign x @ digits_e ds p) = Some x" using sp x by (intro parse_digits_e) auto
    ultimately show ?thesis unfolding format_json_float_def d Let_def prod.case by simp
  qed
qed

end
