(* ===== verification/JsonText.thy ===== *)
theory JsonText
  imports Json FloatText
begin

text \<open>
  JSON as text: the strings of a document and the Go strings they stand for, the compact form that
  \<open>Marshal\<close> writes, and the round trips of both. Go strings are byte sequences; bytes that are not
  UTF-8 are replaced by U+FFFD in both directions.
\<close>

subsection \<open>UTF-8\<close>

definition byte_in :: "int \<Rightarrow> int \<Rightarrow> char \<Rightarrow> bool" where
  "byte_in lo hi c \<longleftrightarrow> lo \<le> of_char c \<and> of_char c \<le> hi"

definition second_byte :: "int \<Rightarrow> char \<Rightarrow> bool" where
  "second_byte a =
     (if a = 0xE0 then byte_in 0xA0 0xBF else if a = 0xED then byte_in 0x80 0x9F
      else if a = 0xF0 then byte_in 0x90 0xBF else if a = 0xF4 then byte_in 0x80 0x8F
      else byte_in 0x80 0xBF)"

text \<open>The number of bytes of a first byte's sequence, and the number of bytes of the character at the
  front, 0 when it is not one.\<close>

definition lead_width :: "int \<Rightarrow> nat" where
  "lead_width a =
     (if a < 0x80 then 1 else if 0xC2 \<le> a \<and> a \<le> 0xDF then 2
      else if 0xE0 \<le> a \<and> a \<le> 0xEF then 3 else if 0xF0 \<le> a \<and> a \<le> 0xF4 then 4 else 0)"

definition utf8_width :: "string \<Rightarrow> nat" where
  "utf8_width s =
     (case s of
        [] \<Rightarrow> 0
      | c # r \<Rightarrow>
          let w = lead_width (of_char c)
          in if w \<le> 1 then w
             else if w - 1 \<le> length r \<and> second_byte (of_char c) (hd r) \<and> list_all (byte_in 0x80 0xBF) (take (w - 2) (tl r))
             then w else 0)"

definition utf8_encode :: "int \<Rightarrow> string" where
  "utf8_encode r =
     map char_of
       (if r < 0x80 then [r]
        else if r < 0x800 then [0xC0 + r div 64, 0x80 + r mod 64]
        else if r < 0x10000 then [0xE0 + r div 4096, 0x80 + r div 64 mod 64, 0x80 + r mod 64]
        else [0xF0 + r div 262144, 0x80 + r div 4096 mod 64, 0x80 + r div 64 mod 64, 0x80 + r mod 64])"

definition replacement :: string where
  "replacement = [CHR 0xEF, CHR 0xBF, CHR 0xBD]"

subsection \<open>Strings\<close>

definition control_escape :: "char \<Rightarrow> string" where
  "control_escape c =
     (if c = CHR 0x08 then ''b'' else if c = CHR 0x0C then ''f'' else if c = CHR 0x0A then ''n''
      else if c = CHR 0x0D then ''r'' else if c = CHR 0x09 then ''t''
      else ''u00'' @ hex_encode [of_char c])"

definition html_safe :: "char \<Rightarrow> bool" where
  "html_safe c \<longleftrightarrow> byte_in 0x20 0x7F c \<and> c \<notin> {CHR 0x22, CHR 0x5C, CHR ''<'', CHR ''>'', CHR ''&''}"

definition line_separator :: "string \<Rightarrow> bool" where
  "line_separator s \<longleftrightarrow> s = [CHR 0xE2, CHR 0x80, CHR 0xA8] \<or> s = [CHR 0xE2, CHR 0x80, CHR 0xA9]"

definition ascii_escape :: "char \<Rightarrow> string" where
  "ascii_escape c =
     (if html_safe c then [c] else CHR 0x5C # (if c = CHR 0x22 \<or> c = CHR 0x5C then [c] else control_escape c))"

text \<open>\<open>appendString\<close>, with the escapes for HTML that \<open>Marshal\<close> and \<open>Encoder\<close> apply.\<close>

function json_escape :: "string \<Rightarrow> string" where
  "json_escape s =
     (case s of
        [] \<Rightarrow> []
      | c # r \<Rightarrow>
          if of_char c < (0x80 :: int) then ascii_escape c @ json_escape r
          else let w = utf8_width s
               in if w = 0 then CHR 0x5C # ''ufffd'' @ json_escape r
                  else (if line_separator (take w s) then CHR 0x5C # ''u202'' @ [if s ! 2 = CHR 0xA8 then CHR ''8'' else CHR ''9'']
                        else take w s) @ json_escape (drop w s))"
  by pat_completeness auto
termination by (relation "measure length") auto

declare json_escape.simps [simp del]

definition unescape_char :: "char \<Rightarrow> char" where
  "unescape_char c =
     (if c = CHR ''b'' then CHR 0x08 else if c = CHR ''f'' then CHR 0x0C else if c = CHR ''n'' then CHR 0x0A
      else if c = CHR ''r'' then CHR 0x0D else if c = CHR ''t'' then CHR 0x09 else c)"

text \<open>The character of \<open>\u\<close> escapes at the front of \<open>s\<close>, behind the first \<open>\u\<close>, and the rest.\<close>

definition unicode_escape :: "string \<Rightarrow> string \<times> string" where
  "unicode_escape s =
     (let u = digits_val 16 (take 4 s); r = drop 4 s; v = digits_val 16 (take 4 (drop 2 r))
      in if u < 0xD800 \<or> 0xE000 \<le> u then (utf8_encode u, r)
         else if u < 0xDC00 \<and> starts_with [CHR 0x5C, CHR ''u''] r \<and> hex4 (drop 2 r) \<and> 0xDC00 \<le> v \<and> v < 0xE000
         then (utf8_encode ((u - 0xD800) * 0x400 + (v - 0xDC00) + 0x10000), drop 6 r)
         else (replacement, r))"

lemma unicode_escape_shorter [simp]: "length (snd (unicode_escape s)) \<le> length s"
  by (simp add: unicode_escape_def Let_def)

function unquote :: "string \<Rightarrow> string" where
  "unquote s =
     (case s of
        [] \<Rightarrow> []
      | c # r \<Rightarrow>
          if c = CHR 0x5C then
            (case r of
               [] \<Rightarrow> []
             | e # t \<Rightarrow> if e = CHR ''u'' then fst (unicode_escape t) @ unquote (snd (unicode_escape t))
                        else unescape_char e # unquote t)
          else if of_char c < (0x80 :: int) then c # unquote r
          else if utf8_width s = 0 then replacement @ unquote r
          else take (utf8_width s) s @ unquote (drop (utf8_width s) s))"
  by pat_completeness auto
termination by (relation "measure length") (auto simp: le_imp_less_Suc less_Suc_eq_le intro: le_trans [OF unicode_escape_shorter])

declare unquote.simps [simp del]

subsection \<open>Documents\<close>

fun json_render :: "json \<Rightarrow> string"
  and render_elements :: "json list \<Rightarrow> string"
  and render_members :: "(string \<times> json) list \<Rightarrow> string" where
  "json_render JNull = ''null''"
| "json_render (JBool b) = (if b then ''true'' else ''false'')"
| "json_render (JNum n) = n"
| "json_render (JStr r) = CHR 0x22 # r @ [CHR 0x22]"
| "json_render (JArr vs) = ''['' @ render_elements vs @ '']''"
| "json_render (JObj ps) = ''{'' @ render_members ps @ ''}''"
| "render_elements [] = []"
| "render_elements (v # vs) = json_render v @ (if vs = [] then [] else CHR '','' # render_elements vs)"
| "render_members [] = []"
| "render_members ((k, v) # ps) =
     CHR 0x22 # k @ CHR 0x22 # CHR '':'' # json_render v @ (if ps = [] then [] else CHR '','' # render_members ps)"

subsection \<open>Rendering and parsing\<close>

text \<open>Values whose strings and numbers are JSON text.\<close>

definition raw_ok :: "string \<Rightarrow> bool" where
  "raw_ok r \<longleftrightarrow> lex_string (r @ [CHR 0x22]) = Some (r, [])"

definition number_ok :: "string \<Rightarrow> bool" where
  "number_ok n \<longleftrightarrow> lex_number n = Some (n, [])"

fun json_ok :: "json \<Rightarrow> bool"
  and elements_ok :: "json list \<Rightarrow> bool"
  and members_ok :: "(string \<times> json) list \<Rightarrow> bool" where
  "json_ok JNull = True"
| "json_ok (JBool b) = True"
| "json_ok (JNum n) = number_ok n"
| "json_ok (JStr r) = raw_ok r"
| "json_ok (JArr vs) = elements_ok vs"
| "json_ok (JObj ps) = members_ok ps"
| "elements_ok [] = True"
| "elements_ok (v # vs) = (json_ok v \<and> elements_ok vs)"
| "members_ok [] = True"
| "members_ok ((k, v) # ps) = (raw_ok k \<and> json_ok v \<and> members_ok ps)"

fun json_depth :: "json \<Rightarrow> nat"
  and elements_depth :: "json list \<Rightarrow> nat"
  and members_depth :: "(string \<times> json) list \<Rightarrow> nat" where
  "json_depth (JArr vs) = Suc (elements_depth vs)"
| "json_depth (JObj ps) = Suc (members_depth ps)"
| "json_depth _ = 0"
| "elements_depth [] = 0"
| "elements_depth (v # vs) = max (json_depth v) (elements_depth vs)"
| "members_depth [] = 0"
| "members_depth ((k, v) # ps) = max (json_depth v) (members_depth ps)"

lemma lex_string_prefix: "lex_string s = Some (x, r) \<Longrightarrow> lex_string (s @ t) = Some (x, r @ t)"
proof (induction s arbitrary: x r rule: lex_string.induct)
  case (2 c s)
  show ?case
  proof (cases "c = CHR 0x22 \<or> of_char c < (32 :: int)")
    case True
    then show ?thesis using "2.prems" by (auto split: if_splits)
  next
    case plain: False
    show ?thesis
    proof (cases "c = CHR 0x5C")
      case True
      then obtain e u y where e: "s = e # u" "lex_string u = Some (y, r)" "simple_escape e \<or> e = CHR ''u'' \<and> hex4 u" "x = c # e # y"
        using "2.prems" plain by (auto split: list.splits if_splits)
      then have "simple_escape e \<or> e = CHR ''u'' \<and> hex4 (u @ t)" by (auto simp: hex4_def)
      moreover have "lex_string (u @ t) = Some (y, r @ t)"
        using "2.IH"(1) [OF _ _ True e(1) e(3) e(2)] plain by blast
      ultimately show ?thesis using e plain True by simp
    next
      case False
      then obtain y where y: "lex_string s = Some (y, r)" "x = c # y" using "2.prems" plain by auto
      have "lex_string (s @ t) = Some (y, r @ t)" using "2.IH"(2) [OF _ _ False y(1)] plain by blast
      then show ?thesis using y plain False by simp
    qed
  qed
qed simp

lemma lex_raw: "raw_ok r \<Longrightarrow> lex_string (r @ CHR 0x22 # t) = Some (r, t)"
  using lex_string_prefix [of "r @ [CHR 0x22]" r "[]" t] by (simp add: raw_ok_def)

text \<open>What may follow a number.\<close>

definition number_end :: "string \<Rightarrow> bool" where
  "number_end t \<longleftrightarrow> t = [] \<or> hd t \<in> {CHR '','', CHR '']'', CHR ''}'', CHR 0x0A, CHR '' ''}"

lemma number_end_char: "number_end (c # t) \<Longrightarrow> \<not> is_digit c \<and> c \<noteq> CHR ''.'' \<and> lower_char c \<noteq> CHR ''e''"
  by (auto simp: number_end_def is_digit_def lower_char_def)

lemma lex_digits_prefix:
  assumes "lex_digits s = Some (x, r)" "r \<noteq> [] \<or> number_end t" shows "lex_digits (s @ t) = Some (x, r @ t)"
proof -
  have x: "x = takeWhile is_digit s" "r = dropWhile is_digit s" "x \<noteq> []" using assms(1) by (auto simp: lex_digits_def split: if_splits)
  have all: "\<forall>a \<in> set x. is_digit a" using x(1) by (auto dest: set_takeWhileD)
  have h: "r @ t = [] \<or> \<not> is_digit (hd (r @ t))"
  proof (cases r)
    case Nil
    then show ?thesis using assms(2) number_end_char by (cases t) auto
  next
    case (Cons c u)
    then show ?thesis using x(2) by (metis hd_append2 hd_dropWhile list.distinct(1))
  qed
  have "s @ t = x @ r @ t" using x by simp
  then show ?thesis using span_append [OF all h] x(3) by (simp add: lex_digits_def)
qed

lemma lex_whole_prefix:
  "lex_whole s = Some (x, r) \<Longrightarrow> r \<noteq> [] \<or> number_end t \<Longrightarrow> lex_whole (s @ t) = Some (x, r @ t)"
  using lex_digits_prefix [of s x r t] by (auto simp: lex_whole_def split: list.splits if_splits)

lemma lex_fraction_prefix:
  assumes "lex_fraction s = Some (x, r)" "r \<noteq> [] \<or> number_end t" shows "lex_fraction (s @ t) = Some (x, r @ t)"
proof (cases s)
  case Nil
  then have "x = []" "r = []" "number_end t" using assms by (auto simp: lex_fraction_def)
  then show ?thesis using Nil number_end_char by (auto simp: lex_fraction_def split: list.split)
next
  case (Cons c u)
  then show ?thesis using assms lex_digits_prefix [of u _ r t] by (auto simp: lex_fraction_def split: if_splits)
qed

lemma lex_exponent_prefix:
  assumes "lex_exponent s = Some (x, r)" "r \<noteq> [] \<or> number_end t" shows "lex_exponent (s @ t) = Some (x, r @ t)"
proof (cases s)
  case Nil
  then have "x = []" "r = []" "number_end t" using assms by (auto simp: lex_exponent_def)
  then show ?thesis using Nil number_end_char by (auto simp: lex_exponent_def split: list.split)
next
  case (Cons c u)
  then show ?thesis
    using assms lex_digits_prefix [of u _ r t] lex_digits_prefix [of "tl u" _ r t]
    by (cases u) (auto simp: lex_exponent_def split: if_splits)
qed

lemma lex_number_prefix:
  assumes "number_ok n" "number_end t" shows "lex_number (n @ t) = Some (n, t)"
proof -
  have minus: "lex_minus (n @ t) = (fst (lex_minus n), snd (lex_minus n) @ t)"
    using assms by (cases n) (auto simp: lex_minus_def number_ok_def lex_number_def lex_whole_def)
  obtain w r1 f r2 e where
    l: "lex_whole (snd (lex_minus n)) = Some (w, r1)" "lex_fraction r1 = Some (f, r2)" "lex_exponent r2 = Some (e, [])"
      "n = fst (lex_minus n) @ w @ f @ e"
    using assms(1) by (auto simp: number_ok_def lex_number_def split: bind_splits)
  have "lex_whole (snd (lex_minus n) @ t) = Some (w, r1 @ t)" "lex_fraction (r1 @ t) = Some (f, r2 @ t)"
      "lex_exponent (r2 @ t) = Some (e, t)"
    using lex_whole_prefix [OF l(1)] lex_fraction_prefix [OF l(2)] lex_exponent_prefix [OF l(3)] assms(2) by auto
  then show ?thesis using l(4) by (simp add: lex_number_def minus)
qed

text \<open>Steps of the scanner on rendered text, which has no white space.\<close>

lemma skip_none [simp]: "\<not> json_space c \<Longrightarrow> skip_space (c # s) = c # s"
  by (simp add: skip_space_def)

lemma not_space [simp]:
  "\<not> json_space CHR '',''" "\<not> json_space CHR '']''" "\<not> json_space CHR ''}''" "\<not> json_space CHR ''[''"
  "\<not> json_space CHR ''{''" "\<not> json_space CHR '':''" "\<not> json_space CHR 0x22" "\<not> json_space CHR ''n''"
  "\<not> json_space CHR ''t''" "\<not> json_space CHR ''f''"
  by (simp_all add: json_space_def)

lemma run_step:
  assumes "json_step m fs (skip_space s) = Some (m', gs, r)" "fs \<noteq> [] \<or> (\<forall>v. m \<noteq> Have v)"
  shows "json_run m fs s = json_run m' gs r"
  using assms by (subst json_run.simps) (auto split: mode.split list.split)

lemma number_head: "number_ok (c # r) \<Longrightarrow> c = CHR ''-'' \<or> is_digit c"
proof (rule ccontr)
  assume n: "number_ok (c # r)" and c: "\<not> (c = CHR ''-'' \<or> is_digit c)"
  then have "c \<noteq> CHR ''0''" by (auto simp: is_digit_def)
  then have "lex_number (c # r) = None" using c by (simp add: lex_number_def lex_minus_def lex_whole_def lex_digits_def)
  then show False using n by (simp add: number_ok_def)
qed

lemma render_head:
  assumes "json_ok j"
  shows "\<exists>c r. json_render j = c # r \<and> \<not> json_space c \<and> c \<noteq> CHR '']''"
proof (cases j)
  case (JNum n)
  have "n \<noteq> []" using assms JNum lex_number_append [of n n "[]"] by (simp add: number_ok_def)
  then obtain c r where n: "n = c # r" by (cases n) auto
  then have "c = CHR ''-'' \<or> is_digit c" using assms JNum number_head by simp
  then show ?thesis using JNum n by (auto simp: json_space_def is_digit_def)
qed auto

lemma run_scalar:
  assumes "json_render j = c # r" "\<not> json_space c" "c \<noteq> CHR ''{''" "c \<noteq> CHR ''[''" "lex_scalar (c # r @ t) = Some (j, t)"
  shows "json_run WantValue fs (json_render j @ t) = json_run (Have j) fs t"
  using assms by (intro run_step) (simp_all add: json_step_def open_value_def)

lemma element_or_end:
  assumes "json_ok j"
  shows "json_run WantElementOrEnd fs (json_render j @ t) = json_run WantValue fs (json_render j @ t)"
  using render_head [OF assms] by (auto simp: json_run.simps [of WantElementOrEnd] json_run.simps [of WantValue] json_step_def)

lemma key_or_end: "json_run WantKeyOrEnd fs (CHR 0x22 # s) = json_run WantKey fs (CHR 0x22 # s)"
  by (simp add: json_run.simps [of WantKeyOrEnd] json_run.simps [of WantKey] json_step_def)

lemma run_key:
  assumes "raw_ok k"
  shows "json_run WantKey (InObject ps x # fs) (CHR 0x22 # k @ CHR 0x22 # CHR '':'' # s) = json_run WantValue (InObject ps k # fs) s"
  using assms by (intro run_step) (simp_all add: json_step_def read_key_def expect_char_def lex_raw)

lemma run_comma_array: "json_run (Have v) (InArray vs # fs) (CHR '','' # s) = json_run WantValue (InArray (v # vs) # fs) s"
  by (intro run_step) (simp_all add: json_step_def)

lemma run_end_array: "json_run (Have v) (InArray vs # fs) (CHR '']'' # s) = json_run (Have (JArr (rev vs @ [v]))) fs s"
  by (intro run_step) (simp_all add: json_step_def)

lemma run_comma_object:
  "json_run (Have v) (InObject ps k # fs) (CHR '','' # s) = json_run WantKey (InObject ((k, v) # ps) [] # fs) s"
  by (intro run_step) (simp_all add: json_step_def)

lemma run_end_object:
  "json_run (Have v) (InObject ps k # fs) (CHR ''}'' # s) = json_run (Have (JObj (rev ps @ [(k, v)]))) fs s"
  by (intro run_step) (simp_all add: json_step_def)

lemma number_end_simps [simp]: "number_end []" "number_end (CHR '','' # s)" "number_end (CHR '']'' # s)" "number_end (CHR ''}'' # s)"
  "number_end (CHR 0x0A # s)"
  by (simp_all add: number_end_def)

lemma run_render:
  "json_ok j \<Longrightarrow> json_depth j + length fs \<le> max_depth \<Longrightarrow> number_end t \<Longrightarrow>
     json_run WantValue fs (json_render j @ t) = json_run (Have j) fs t"
  "vs \<noteq> [] \<Longrightarrow> elements_ok vs \<Longrightarrow> elements_depth vs + Suc (length fs) \<le> max_depth \<Longrightarrow>
     json_run WantValue (InArray acc # fs) (render_elements vs @ CHR '']'' # t) = json_run (Have (JArr (rev acc @ vs))) fs t"
  "ps \<noteq> [] \<Longrightarrow> members_ok ps \<Longrightarrow> members_depth ps + Suc (length fs) \<le> max_depth \<Longrightarrow>
     json_run WantKey (InObject pacc x # fs) (render_members ps @ CHR ''}'' # t) = json_run (Have (JObj (rev pacc @ ps))) fs t"
proof (induction j and vs and ps arbitrary: fs t and fs acc t and fs pacc x t
    rule: json_render_render_elements_render_members.induct)
  case 1
  show ?case
    by (intro run_scalar [of _ "CHR ''n''" "''ull''"]) (simp_all add: lex_scalar_def lex_literal_def starts_with_def is_digit_def)
next
  case (2 b)
  show ?case
  proof (cases b)
    case True
    then show ?thesis
      by (intro run_scalar [of _ "CHR ''t''" "''rue''"]) (simp_all add: lex_scalar_def lex_literal_def starts_with_def is_digit_def)
  next
    case False
    then show ?thesis
      by (intro run_scalar [of _ "CHR ''f''" "''alse''"]) (simp_all add: lex_scalar_def lex_literal_def starts_with_def is_digit_def)
  qed
next
  case (3 n)
  obtain c r where n: "n = c # r" "\<not> json_space c" using render_head [OF 3(1)] by auto
  then have "c = CHR ''-'' \<or> is_digit c" using 3(1) number_head by simp
  moreover have "lex_number (c # r @ t) = Some (c # r, t)" using lex_number_prefix [of n t] 3 n by simp
  ultimately show ?case
    using n by (intro run_scalar [of _ c r]) (auto simp: lex_scalar_def is_digit_def)
next
  case (4 r)
  then show ?case
    by (intro run_scalar [of _ "CHR 0x22" "r @ [CHR 0x22]"]) (simp_all add: lex_scalar_def lex_raw)
next
  case (5 vs)
  have "json_run WantValue fs (json_render (JArr vs) @ t) = json_run WantElementOrEnd (InArray [] # fs) (render_elements vs @ CHR '']'' # t)"
    using 5 by (intro run_step) (simp_all add: json_step_def open_value_def)
  also have "\<dots> = json_run (Have (JArr vs)) fs t"
  proof (cases vs)
    case Nil
    then show ?thesis by (intro run_step) (simp_all add: json_step_def)
  next
    case (Cons v us)
    then have "json_ok v" using 5 by simp
    then have "json_run WantElementOrEnd (InArray [] # fs) (render_elements vs @ CHR '']'' # t) =
        json_run WantValue (InArray [] # fs) (render_elements vs @ CHR '']'' # t)"
      using element_or_end [of v] Cons by simp
    then show ?thesis using 5 Cons by simp
  qed
  finally show ?case .
next
  case (6 ps)
  have "json_run WantValue fs (json_render (JObj ps) @ t) = json_run WantKeyOrEnd (InObject [] [] # fs) (render_members ps @ CHR ''}'' # t)"
    using 6 by (intro run_step) (simp_all add: json_step_def open_value_def)
  also have "\<dots> = json_run (Have (JObj ps)) fs t"
  proof (cases ps)
    case Nil
    then show ?thesis by (intro run_step) (simp_all add: json_step_def)
  next
    case (Cons p qs)
    have "json_run WantKeyOrEnd (InObject [] [] # fs) (render_members ps @ CHR ''}'' # t) =
        json_run WantKey (InObject [] [] # fs) (render_members ps @ CHR ''}'' # t)"
      using key_or_end Cons by (cases p) simp
    then show ?thesis using 6 Cons by simp
  qed
  finally show ?case .
next
  case (8 v vs)
  then show ?case by (cases vs) (simp_all add: run_comma_array run_end_array)
next
  case (10 k v ps)
  then show ?case by (cases ps) (simp_all add: run_key run_comma_object run_end_object)
qed simp_all

text \<open>What \<open>Marshal\<close> writes, a decoder reads back, as the first value of a stream too.\<close>

lemma json_first_render:
  assumes "json_ok j" "json_depth j \<le> max_depth" "number_end t"
  shows "json_first (json_render j @ t) = Some (j, t)"
  using run_render(1) [of j "[]" t] assms by (simp add: json_first_def json_run.simps [of "Have j"])

lemma json_parse_render: "json_ok j \<Longrightarrow> json_depth j \<le> max_depth \<Longrightarrow> json_parse (json_render j) = Some j"
  using json_first_render [of j "[]"] by (simp add: json_parse_def skip_space_def)

subsection \<open>Escaping and unquoting\<close>

function valid_utf8 :: "string \<Rightarrow> bool" where
  "valid_utf8 s = (if s = [] then True else if utf8_width s = 0 then False else valid_utf8 (drop (utf8_width s) s))"
  by pat_completeness auto
termination by (relation "measure length") auto

declare valid_utf8.simps [simp del]

lemma of_char_nonneg: "0 \<le> (of_char c :: int)"
  by (simp add: of_char_def horner_sum_nonnegative)

lemma all_ascii:
  assumes "list_all P (map char_of [0..127 :: int])" "of_char c < (128 :: int)" shows "P c"
proof -
  have "of_char c \<in> set [0..127 :: int]" using assms(2) of_char_nonneg [of c] by simp
  then have "char_of (of_char c :: int) \<in> set (map char_of [0..127 :: int])" unfolding set_map by (rule imageI)
  then have "c \<in> set (map char_of [0..127 :: int])" by (simp only: char_of_char)
  then show ?thesis using assms(1) unfolding list_all_iff by blast
qed

text \<open>Characters that stand for themselves.\<close>

definition plain_char :: "char \<Rightarrow> bool" where
  "plain_char c \<longleftrightarrow> c \<noteq> CHR 0x5C \<and> c \<noteq> CHR 0x22 \<and> \<not> of_char c < (32 :: int)"

text \<open>What holds of the escapes of all ASCII characters, by evaluation.\<close>

definition escape_check :: "char \<Rightarrow> bool" where
  "escape_check c \<longleftrightarrow>
     (case ascii_escape c of
        [] \<Rightarrow> False
      | b # e \<Rightarrow>
          if html_safe c then e = [] \<and> b = c \<and> plain_char c
          else b = CHR 0x5C \<and>
            (case e of
               [] \<Rightarrow> False
             | x # xs \<Rightarrow>
                 if x = CHR ''u'' then length xs = 4 \<and> hex4 xs \<and> list_all plain_char xs \<and> digits_val 16 xs = of_char c
                 else xs = [] \<and> simple_escape x \<and> unescape_char x = c))"

lemma escape_checks: "list_all escape_check (map char_of [0..127 :: int])"
  by code_simp

lemma ascii_escape_cases:
  assumes "of_char c < (128 :: int)"
  obtains "ascii_escape c = [c]" "plain_char c"
  | x where "ascii_escape c = [CHR 0x5C, x]" "simple_escape x" "x \<noteq> CHR ''u''" "unescape_char x = c"
  | xs where "ascii_escape c = CHR 0x5C # CHR ''u'' # xs" "length xs = 4" "hex4 xs" "list_all plain_char xs" "digits_val 16 xs = of_char c"
  using all_ascii [OF escape_checks assms] by (auto simp: escape_check_def split: list.splits if_splits)

text \<open>Text that the lexer of strings passes over.\<close>

definition passed :: "string \<Rightarrow> bool" where
  "passed u \<longleftrightarrow> (\<forall>t x r. lex_string t = Some (x, r) \<longrightarrow> lex_string (u @ t) = Some (u @ x, r))"

lemma passed_Nil: "passed []"
  by (simp add: passed_def)

lemma passed_append: "passed u \<Longrightarrow> passed v \<Longrightarrow> passed (u @ v)"
  by (simp add: passed_def)

lemma passed_plain: "list_all plain_char u \<Longrightarrow> passed u"
proof (induction u)
  case (Cons c u)
  then have "passed [c]" by (simp add: passed_def plain_char_def)
  then show ?case using Cons passed_append [of "[c]" u] by simp
qed (rule passed_Nil)

lemma passed_escape: "simple_escape e \<Longrightarrow> passed [CHR 0x5C, e]"
  by (simp add: passed_def)

lemma passed_unicode:
  assumes "length xs = 4" "hex4 xs" "list_all plain_char xs" shows "passed (CHR 0x5C # CHR ''u'' # xs)"
proof -
  have "hex4 (xs @ t)" for t using assms by (simp add: hex4_def)
  then show ?thesis using passed_plain [OF assms(3)] by (simp add: passed_def)
qed

lemma passed_raw: "passed u \<Longrightarrow> raw_ok u"
  by (simp add: passed_def raw_ok_def)

text \<open>Characters of more than one byte.\<close>

lemma width_cases:
  assumes "utf8_width s = w" "2 \<le> w"
  obtains c d u t where "s = c # d # u @ t" "lead_width (of_char c) = w" "second_byte (of_char c) d" "list_all (byte_in 0x80 0xBF) u" "w = 2 + length u"
proof -
  obtain c r where s: "s = c # r" using assms by (cases s) (auto simp: utf8_width_def)
  then have w: "lead_width (of_char c) = w" "w - 1 \<le> length r" "second_byte (of_char c) (hd r)" "list_all (byte_in 0x80 0xBF) (take (w - 2) (tl r))"
    using assms by (auto simp: utf8_width_def Let_def split: if_splits)
  then obtain d v where r: "r = d # v" using assms(2) by (cases r) auto
  show thesis
    using w r assms(2) that [of c d "take (w - 2) v" "drop (w - 2) v"] by (simp add: s)
qed

lemma second_byte_high: "second_byte a d \<Longrightarrow> 0x80 \<le> (of_char d :: int)"
  by (auto simp: second_byte_def byte_in_def split: if_splits)

lemma lead_high: "2 \<le> lead_width a \<Longrightarrow> 0x80 \<le> a"
  by (auto simp: lead_width_def split: if_splits)

lemma width_bytes:
  assumes "utf8_width s = w" "2 \<le> w" shows "\<forall>c \<in> set (take w s). 0x80 \<le> (of_char c :: int)"
  using assms
proof (cases rule: width_cases)
  case (1 c d u t)
  then show ?thesis using assms(2) second_byte_high lead_high by (auto simp: list_all_iff byte_in_def)
qed

lemma width_prefix:
  assumes "utf8_width s = w" "2 \<le> w" shows "length (take w s) = w \<and> utf8_width (take w s @ t) = w"
  using assms
proof (cases rule: width_cases)
  case (1 c d u v)
  then show ?thesis by (simp add: utf8_width_def)
qed

lemma plain_high: "0x80 \<le> (of_char c :: int) \<Longrightarrow> plain_char c"
  by (auto simp: plain_char_def)

lemma passed_ascii: "of_char c < (128 :: int) \<Longrightarrow> passed (ascii_escape c)"
  by (erule ascii_escape_cases) (simp_all add: passed_plain passed_escape passed_unicode)

lemma passed_fixed: "passed (CHR 0x5C # ''ufffd'')" "passed (CHR 0x5C # ''u2028'')" "passed (CHR 0x5C # ''u2029'')"
  by (rule passed_unicode; code_simp)+

lemma json_escape_passed: "passed (json_escape s)"
proof (induction s rule: json_escape.induct)
  case (1 s)
  show ?case
  proof (cases s)
    case Nil
    then show ?thesis by (simp add: json_escape.simps passed_Nil)
  next
    case (Cons c r)
    show ?thesis
    proof (cases "of_char c < (0x80 :: int)")
      case True
      then show ?thesis using 1(1) [OF Cons] Cons passed_append passed_ascii by (simp add: json_escape.simps [of "c # r"])
    next
      case False
      define w where "w = utf8_width s"
      show ?thesis
      proof (cases "w = 0")
        case True
        then have "json_escape s = (CHR 0x5C # ''ufffd'') @ json_escape r"
          using False Cons by (simp add: json_escape.simps [of "c # r"] w_def)
        moreover have "passed (json_escape r)" using 1(2) [OF Cons False w_def True] .
        ultimately show ?thesis using passed_append [OF passed_fixed(1)] by metis
      next
        case w0: False
        have "w \<noteq> 1" using False Cons by (auto simp: w_def utf8_width_def lead_width_def Let_def)
        then have "2 \<le> w" using w0 by simp
        then have "list_all plain_char (take w s)"
          using width_bytes [of s w] plain_high by (simp add: w_def list_all_iff)
        moreover have "passed (json_escape (drop w s))" using 1(3) [OF Cons] w0 False w_def by simp
        moreover have "CHR 0x5C # ''u202'' @ [if s ! 2 = CHR 0xA8 then CHR ''8'' else CHR ''9''] \<in> {CHR 0x5C # ''u2028'', CHR 0x5C # ''u2029''}"
          by simp
        moreover have "json_escape s =
            (if line_separator (take w s) then CHR 0x5C # ''u202'' @ [if s ! 2 = CHR 0xA8 then CHR ''8'' else CHR ''9''] else take w s) @ json_escape (drop w s)"
          using w0 False Cons by (simp add: json_escape.simps [of "c # r"] w_def Let_def)
        ultimately show ?thesis using passed_append passed_fixed passed_plain by auto
      qed
    qed
  qed
qed

lemma json_escape_raw: "raw_ok (json_escape s)"
  by (rule passed_raw) (rule json_escape_passed)

lemma unquote_plain: "c \<noteq> CHR 0x5C \<Longrightarrow> of_char c < (0x80 :: int) \<Longrightarrow> unquote (c # t) = c # unquote t"
  by (simp add: unquote.simps [of "c # t"])

lemma unquote_ascii:
  assumes "of_char c < (128 :: int)" shows "unquote (ascii_escape c @ t) = c # unquote t"
  using assms
proof (cases rule: ascii_escape_cases)
  case 1
  then show ?thesis using assms by (simp add: unquote_plain plain_char_def)
next
  case (2 x)
  then show ?thesis by (simp add: unquote.simps [of "CHR 0x5C # x # t"])
next
  case (3 xs)
  have "unicode_escape (xs @ t) = ([c], t)"
    using 3 assms by (simp add: unicode_escape_def Let_def utf8_encode_def)
  then show ?thesis using 3 by (simp add: unquote.simps [of "CHR 0x5C # CHR ''u'' # xs @ t"])
qed

lemma separator_bytes:
  "char_of (226 :: int) = CHR 0xE2" "char_of (128 :: int) = CHR 0x80" "char_of (168 :: int) = CHR 0xA8" "char_of (169 :: int) = CHR 0xA9"
  by code_simp+

lemma unquote_separator:
  "line_separator u \<Longrightarrow> unquote (CHR 0x5C # ''u202'' @ [if u ! 2 = CHR 0xA8 then CHR ''8'' else CHR ''9''] @ t) = u @ unquote t"
proof -
  assume "line_separator u"
  then consider "u = [CHR 0xE2, CHR 0x80, CHR 0xA8]" | "u = [CHR 0xE2, CHR 0x80, CHR 0xA9]" by (auto simp: line_separator_def)
  moreover have "unicode_escape (''2028'' @ t) = ([CHR 0xE2, CHR 0x80, CHR 0xA8], t)" "unicode_escape (''2029'' @ t) = ([CHR 0xE2, CHR 0x80, CHR 0xA9], t)"
    by (simp_all add: unicode_escape_def digits_val_def add_digit_def digit_val_def utf8_encode_def Let_def separator_bytes)
  ultimately show ?thesis
    by cases (simp_all add: unquote.simps [of "CHR 0x5C # _"])
qed

lemma unquote_escape: "valid_utf8 s \<Longrightarrow> unquote (json_escape s) = s"
proof (induction s rule: json_escape.induct)
  case (1 s)
  show ?case
  proof (cases s)
    case Nil
    then show ?thesis by (simp add: json_escape.simps unquote.simps)
  next
    case (Cons c r)
    have v: "utf8_width s \<noteq> 0" "valid_utf8 (drop (utf8_width s) s)"
      using 1(4) Cons by (auto simp: valid_utf8.simps [of "c # r"] split: if_splits)
    show ?thesis
    proof (cases "of_char c < (0x80 :: int)")
      case True
      then have "utf8_width s = 1" using Cons by (simp add: utf8_width_def lead_width_def)
      then have "valid_utf8 r" using v(2) Cons by simp
      then show ?thesis using 1(1) [OF Cons True] True Cons unquote_ascii by (simp add: json_escape.simps [of "c # r"])
    next
      case False
      define w where "w = utf8_width s"
      have "w \<noteq> 1" using False Cons by (auto simp: w_def utf8_width_def lead_width_def Let_def)
      then have w: "2 \<le> w" using v by (simp add: w_def)
      have rest: "unquote (json_escape (drop w s)) = drop w s" using 1(3) [OF Cons False w_def] v by (simp add: w_def)
      have e: "json_escape s =
          (if line_separator (take w s) then CHR 0x5C # ''u202'' @ [if s ! 2 = CHR 0xA8 then CHR ''8'' else CHR ''9''] else take w s) @ json_escape (drop w s)"
        using v False Cons by (simp add: json_escape.simps [of "c # r"] w_def Let_def)
      show ?thesis
      proof (cases "line_separator (take w s)")
        case True
        then have "2 < w" by (auto simp: line_separator_def min_def split: if_splits dest!: arg_cong [of _ _ length])
        then have "s ! 2 = take w s ! 2" by simp
        then show ?thesis using unquote_separator [OF True, of "json_escape (drop w s)"] rest True by (simp add: e)
      next
        case False
        define u where "u = take w s"
        define t where "t = json_escape (drop w s)"
        have u: "length u = w" "utf8_width (u @ t) = w" "\<forall>c \<in> set u. 0x80 \<le> (of_char c :: int)"
          using width_prefix [OF _ w, of s t] width_bytes [OF _ w, of s] by (simp_all add: u_def w_def)
        obtain d q where d: "u = d # q" using u(1) w by (cases u) auto
        then have "\<not> of_char d < (0x80 :: int)" "d \<noteq> CHR 0x5C" using u(3) by auto
        then have "unquote (u @ t) = take w (u @ t) @ unquote (drop w (u @ t))"
          using u w d by (simp add: unquote.simps [of "d # q @ t"])
        then show ?thesis using False rest u(1) by (simp add: e u_def [symmetric] t_def [symmetric]) (simp add: u_def)
      qed
    qed
  qed
qed

end
