(* ===== verification/JsonCodec.thy ===== *)
theory JsonCodec
  imports JsonText
begin

text \<open>
  The reflection of \<open>encoding/json\<close> as combinators. A decoder takes the old value of its
  destination, because \<open>null\<close> keeps it and nested structures are decoded in place; an
  encoder returns the text of Go's error or a document. A nil map or slice is not distinguished from
  an empty one, which is written as \<open>{}\<close> or \<open>[]\<close>.
\<close>

type_synonym 'a decoder = "'a \<Rightarrow> json \<Rightarrow> 'a option"
type_synonym encoded = "string + json"

subsection \<open>Decoding\<close>

definition dec_string :: "string decoder" where
  "dec_string old j = (case j of JNull \<Rightarrow> Some old | JStr r \<Rightarrow> Some (unquote r) | _ \<Rightarrow> None)"

definition dec_bool :: "bool decoder" where
  "dec_bool old j = (case j of JNull \<Rightarrow> Some old | JBool b \<Rightarrow> Some b | _ \<Rightarrow> None)"

definition dec_f64 :: "f64 decoder" where
  "dec_f64 old j = (case j of JNull \<Rightarrow> Some old | JNum n \<Rightarrow> parse_float n | _ \<Rightarrow> None)"

definition dec_u64 :: "u64 decoder" where
  "dec_u64 old j = (case j of JNull \<Rightarrow> Some old | JNum n \<Rightarrow> parse_uint n | _ \<Rightarrow> None)"

definition dec_u32 :: "u32 decoder" where
  "dec_u32 old j =
     (case j of
        JNull \<Rightarrow> Some old
      | JNum n \<Rightarrow> (case parse_uint n of Some w \<Rightarrow> if uint w < 4294967296 then Some (ucast w) else None | None \<Rightarrow> None)
      | _ \<Rightarrow> None)"

text \<open>\<open>Time.UnmarshalJSON\<close> reads the raw text between the quotes as \<open>time.Parse\<close> does.\<close>

definition dec_time :: "instant decoder" where
  "dec_time old j = (case j of JNull \<Rightarrow> Some old | JStr r \<Rightarrow> parse_rfc3339 r | _ \<Rightarrow> None)"

fun decode_items :: "'a decoder \<Rightarrow> 'a \<Rightarrow> 'a list \<Rightarrow> json list \<Rightarrow> 'a list option" where
  "decode_items dec z old [] = Some []"
| "decode_items dec z old (v # vs) =
     (case dec (case old of [] \<Rightarrow> z | x # _ \<Rightarrow> x) v of
        None \<Rightarrow> None
      | Some x \<Rightarrow> map_option ((#) x) (decode_items dec z (tl old) vs))"

definition dec_list :: "'a decoder \<Rightarrow> 'a \<Rightarrow> 'a list decoder" where
  "dec_list dec z old j = (case j of JNull \<Rightarrow> Some [] | JArr vs \<Rightarrow> decode_items dec z old vs | _ \<Rightarrow> None)"

fun decode_entries :: "'a decoder \<Rightarrow> 'a \<Rightarrow> 'a gomap \<Rightarrow> (string \<times> json) list \<Rightarrow> 'a gomap option" where
  "decode_entries dec z m [] = Some m"
| "decode_entries dec z m ((k, v) # ps) =
     (case dec z v of None \<Rightarrow> None | Some x \<Rightarrow> decode_entries dec z (AList.update (unquote k) x m) ps)"

definition dec_map :: "'a decoder \<Rightarrow> 'a \<Rightarrow> 'a gomap decoder" where
  "dec_map dec z old j = (case j of JNull \<Rightarrow> Some [] | JObj ps \<Rightarrow> decode_entries dec z old ps | _ \<Rightarrow> None)"

text \<open>Names up to case. Two characters beyond ASCII, the Kelvin sign and the long s, fold to ASCII
  letters.\<close>

function fold_name :: "string \<Rightarrow> string" where
  "fold_name s =
     (case s of
        [] \<Rightarrow> []
      | c # r \<Rightarrow>
          if starts_with [CHR 0xE2, CHR 0x84, CHR 0xAA] s then CHR ''k'' # fold_name (drop 2 r)
          else if starts_with [CHR 0xC5, CHR 0xBF] s then CHR ''s'' # fold_name (drop 1 r)
          else lower_char c # fold_name r)"
  by pat_completeness auto
termination by (relation "measure length") auto

declare fold_name.simps [simp del]

type_synonym 'r fields = "(string \<times> 'r decoder) list"

definition field :: "('r \<Rightarrow> 'a) \<Rightarrow> (('a \<Rightarrow> 'a) \<Rightarrow> 'r \<Rightarrow> 'r) \<Rightarrow> 'a decoder \<Rightarrow> 'r decoder" where
  "field get upd dec r j = (case dec (get r) j of None \<Rightarrow> None | Some x \<Rightarrow> Some (upd (\<lambda>_. x) r))"

definition find_field :: "'r fields \<Rightarrow> string \<Rightarrow> 'r decoder option" where
  "find_field fs k =
     (case map_of fs k of
        Some d \<Rightarrow> Some d
      | None \<Rightarrow> map_of (map (apfst fold_name) fs) (fold_name k))"

fun decode_members :: "bool \<Rightarrow> 'r fields \<Rightarrow> 'r \<Rightarrow> (string \<times> json) list \<Rightarrow> 'r option" where
  "decode_members strict fs r [] = Some r"
| "decode_members strict fs r ((k, v) # ps) =
     (case find_field fs (unquote k) of
        None \<Rightarrow> if strict then None else decode_members strict fs r ps
      | Some d \<Rightarrow> (case d r v of None \<Rightarrow> None | Some r' \<Rightarrow> decode_members strict fs r' ps))"

text \<open>\<open>strict\<close> is \<open>DisallowUnknownFields\<close>.\<close>

definition dec_struct :: "bool \<Rightarrow> 'r fields \<Rightarrow> 'r decoder" where
  "dec_struct strict fs r j = (case j of JNull \<Rightarrow> Some r | JObj ps \<Rightarrow> decode_members strict fs r ps | _ \<Rightarrow> None)"

subsection \<open>Encoding\<close>

definition float_name :: "f64 \<Rightarrow> string" where
  "float_name x = (if is_nan x then ''NaN'' else if signbit x then ''-Inf'' else ''+Inf'')"

definition enc_f64 :: "f64 \<Rightarrow> encoded" where
  "enc_f64 x = (if finite_f64 x then Inr (JNum (format_json_float x)) else Inl (''json: unsupported value: '' @ float_name x))"

definition enc_int :: "int \<Rightarrow> encoded" where
  "enc_int k = Inr (JNum (format_int k))"

definition enc_string :: "string \<Rightarrow> encoded" where
  "enc_string s = Inr (JStr (json_escape s))"

definition enc_bool :: "bool \<Rightarrow> encoded" where
  "enc_bool b = Inr (JBool b)"

definition year_of :: "instant \<Rightarrow> int" where
  "year_of t = fst (civil_from_days (t div day_ns))"

definition enc_time :: "instant \<Rightarrow> encoded" where
  "enc_time t =
     (if 0 \<le> year_of t \<and> year_of t \<le> 9999 then Inr (JStr (format_rfc3339nano t))
      else Inl ''json: error calling MarshalJSON for type time.Time: Time.MarshalJSON: year outside of range [0,9999]'')"

fun enc_members :: "(string \<times> encoded) list \<Rightarrow> string + (string \<times> json) list" where
  "enc_members [] = Inr []"
| "enc_members ((k, e) # ps) =
     (case e of
        Inl err \<Rightarrow> Inl err
      | Inr v \<Rightarrow> (case enc_members ps of Inl err \<Rightarrow> Inl err | Inr vs \<Rightarrow> Inr ((k, v) # vs)))"

definition enc_struct :: "(string \<times> encoded) list \<Rightarrow> encoded" where
  "enc_struct ps = (case enc_members ps of Inl err \<Rightarrow> Inl err | Inr vs \<Rightarrow> Inr (JObj vs))"

definition enc_list :: "('a \<Rightarrow> encoded) \<Rightarrow> 'a list \<Rightarrow> encoded" where
  "enc_list enc xs =
     (case enc_members (map (\<lambda>x. ([], enc x)) xs) of Inl err \<Rightarrow> Inl err | Inr vs \<Rightarrow> Inr (JArr (map snd vs)))"

text \<open>Maps are written in the order of their keys.\<close>

definition enc_map :: "('a \<Rightarrow> encoded) \<Rightarrow> 'a gomap \<Rightarrow> encoded" where
  "enc_map enc m = enc_struct (map (\<lambda>k. (json_escape k, enc (the (map_of m k)))) (sort (mkeys m)))"

text \<open>\<open>omitempty\<close>.\<close>

definition unless_empty :: "bool \<Rightarrow> string \<Rightarrow> encoded \<Rightarrow> (string \<times> encoded) list" where
  "unless_empty omit k e = (if omit then [] else [(k, e)])"

definition marshal :: "encoded \<Rightarrow> string + string" where
  "marshal e = (case e of Inl err \<Rightarrow> Inl err | Inr j \<Rightarrow> Inr (json_render j))"

end
