(* ===== verification/Events.thy ===== *)
theory Events
  imports JsonCodec
begin

text \<open>
  \<open>internal/events/events.go\<close>: topics, records and the JSON form of the three kinds of event.
  The value of a record is the JSON text of its event.
\<close>

definition topic_DeliveryTopic :: string where "topic_DeliveryTopic = ''cdn.delivery.v1''"
definition topic_RoutingTopic :: string where "topic_RoutingTopic = ''cdn.routing.v1''"
definition topic_PlayerTopic :: string where "topic_PlayerTopic = ''cdn.player.v1''"

record event_record =
  ev_Topic :: string
  ev_Key :: string
  ev_Value :: string
  ev_Duplicate :: bool
  ev_SchemaInvalid :: bool

record delivery_event =
  de_SchemaVersion :: int
  de_EventID :: string
  de_EventTime :: string
  de_IngestTime :: string
  de_RequestID :: string
  de_SessionIDHash :: string
  de_ContentID :: string
  de_ObjectType :: string
  de_PathTemplate :: string
  de_NodeID :: string
  de_Location :: string
  de_NetworkID :: string
  de_CacheStatus :: string
  de_HTTPStatus :: int
  de_BytesSent :: int
  de_TTFBMS :: f64
  de_TransferMS :: f64
  de_OriginMS :: f64
  de_SegmentDurationMS :: int
  de_BitrateBPS :: int
  de_SyntheticNodeRPS :: int
  de_SyntheticCapacityRPS :: int
  de_SyntheticLabels :: "string list"

record routing_event =
  re_SchemaVersion :: int
  re_EventID :: string
  re_EventTime :: string
  re_RequestID :: string
  re_CandidateNodes :: "string list"
  re_SelectedNode :: string
  re_Policy :: string
  re_QualitySnapshotAgeMS :: int
  re_SelectedWeight :: f64
  re_FallbackLevel :: int
  re_ReasonCodes :: "string list"

record player_event =
  pe_SchemaVersion :: int
  pe_EventID :: string
  pe_EventTime :: string
  pe_SessionIDHash :: string
  pe_ContentID :: string
  pe_EventType :: string
  pe_SegmentSequence :: int
  pe_SelectedBitrateBPS :: int
  pe_DownloadMS :: f64
  pe_BufferMS :: f64
  pe_RebufferMS :: "f64 option"

definition enc_delivery :: "delivery_event \<Rightarrow> encoded" where
  "enc_delivery d = enc_struct
     ([(''schema_version'', enc_int (de_SchemaVersion d)), (''event_id'', enc_string (de_EventID d)),
       (''event_time'', enc_string (de_EventTime d)), (''ingest_time'', enc_string (de_IngestTime d)),
       (''request_id'', enc_string (de_RequestID d)), (''session_id_hash'', enc_string (de_SessionIDHash d)),
       (''content_id'', enc_string (de_ContentID d)), (''object_type'', enc_string (de_ObjectType d)),
       (''path_template'', enc_string (de_PathTemplate d)), (''node_id'', enc_string (de_NodeID d)),
       (''location'', enc_string (de_Location d)), (''network_id'', enc_string (de_NetworkID d)),
       (''cache_status'', enc_string (de_CacheStatus d)), (''http_status'', enc_int (de_HTTPStatus d)),
       (''bytes_sent'', enc_int (de_BytesSent d)), (''ttfb_ms'', enc_f64 (de_TTFBMS d)),
       (''transfer_ms'', enc_f64 (de_TransferMS d))] @
      unless_empty (feq (de_OriginMS d) 0) ''origin_ms'' (enc_f64 (de_OriginMS d)) @
      unless_empty (de_SegmentDurationMS d = 0) ''segment_duration_ms'' (enc_int (de_SegmentDurationMS d)) @
      unless_empty (de_BitrateBPS d = 0) ''bitrate_bps'' (enc_int (de_BitrateBPS d)) @
      unless_empty (de_SyntheticNodeRPS d = 0) ''synthetic_node_rps'' (enc_int (de_SyntheticNodeRPS d)) @
      unless_empty (de_SyntheticCapacityRPS d = 0) ''synthetic_capacity_rps'' (enc_int (de_SyntheticCapacityRPS d)) @
      unless_empty (de_SyntheticLabels d = []) ''synthetic_labels'' (enc_list enc_string (de_SyntheticLabels d)))"

definition enc_routing :: "routing_event \<Rightarrow> encoded" where
  "enc_routing r = enc_struct
     [(''schema_version'', enc_int (re_SchemaVersion r)), (''event_id'', enc_string (re_EventID r)),
      (''event_time'', enc_string (re_EventTime r)), (''request_id'', enc_string (re_RequestID r)),
      (''candidate_nodes'', enc_list enc_string (re_CandidateNodes r)), (''selected_node'', enc_string (re_SelectedNode r)),
      (''policy'', enc_string (re_Policy r)), (''quality_snapshot_age_ms'', enc_int (re_QualitySnapshotAgeMS r)),
      (''selected_weight'', enc_f64 (re_SelectedWeight r)), (''fallback_level'', enc_int (re_FallbackLevel r)),
      (''reason_codes'', enc_list enc_string (re_ReasonCodes r))]"

definition enc_player :: "player_event \<Rightarrow> encoded" where
  "enc_player p = enc_struct
     ([(''schema_version'', enc_int (pe_SchemaVersion p)), (''event_id'', enc_string (pe_EventID p)),
       (''event_time'', enc_string (pe_EventTime p)), (''session_id_hash'', enc_string (pe_SessionIDHash p)),
       (''content_id'', enc_string (pe_ContentID p)), (''event_type'', enc_string (pe_EventType p)),
       (''segment_sequence'', enc_int (pe_SegmentSequence p)), (''selected_bitrate_bps'', enc_int (pe_SelectedBitrateBPS p)),
       (''download_ms'', enc_f64 (pe_DownloadMS p)), (''buffer_ms'', enc_f64 (pe_BufferMS p))] @
      (case pe_RebufferMS p of None \<Rightarrow> [] | Some v \<Rightarrow> [(''rebuffer_ms'', enc_f64 v)]))"

text \<open>\<open>Marshal\<close> and \<open>Timestamp\<close>.\<close>

definition events_Marshal :: "encoded \<Rightarrow> string + string" where
  "events_Marshal e = marshal e"

definition events_Timestamp :: "instant \<Rightarrow> string" where
  "events_Timestamp t = format_rfc3339nano t"

end
