(* ===== verification/Scenario.thy ===== *)
theory Scenario
  imports GenConfig Events Sha256 "HOL-Library.State_Monad"
begin

text \<open>
  \<open>internal/scenario/generator.go\<close>. The sequence of \<open>math/rand\<close> is a parameter: the methods the generator
  draws with, as computations on a random state \<open>'s\<close>, in the order in which the code draws. Counts are
  unbounded integers; durations and the products that make them are 64-bit words.
\<close>

subsection \<open>Random numbers\<close>

record 's rng =
  rn_Int63n :: "int \<Rightarrow> ('s, int) state"
  rn_Intn :: "int \<Rightarrow> ('s, int) state"
  rn_Float64 :: "('s, f64) state"
  rn_NormFloat64 :: "('s, f64) state"
  rn_Zipf :: "int \<Rightarrow> ('s, int) state"

subsection \<open>Helpers\<close>

definition hashText :: "string \<Rightarrow> string" where
  "hashText value = hex_encode (sha256 (string_bytes value))"

definition deterministicID :: "int \<Rightarrow> int \<Rightarrow> string \<Rightarrow> string" where
  "deterministicID seed index kind =
     kind @ ''-'' @ take 24 (hashText (format_int seed @ '':'' @ format_int index @ '':'' @ kind))"

definition stableBucket :: "string \<Rightarrow> int \<Rightarrow> int" where
  "stableBucket value buckets = uint (hd (sha256 (string_bytes value))) mod buckets"

definition maxFloat :: "f64 \<Rightarrow> f64 \<Rightarrow> f64" where
  "maxFloat a b = (if b < a then a else b)"

definition maxInt :: "int \<Rightarrow> int \<Rightarrow> int" where
  "maxInt a b = (if b < a then a else b)"

definition round3 :: "f64 \<Rightarrow> f64" where
  "round3 value = math_round (value * lit 1000 0) / lit 1000 0"

subsection \<open>The generator\<close>

record generator =
  ge_cfg :: gen_config
  ge_start :: instant
  ge_nodeIDs :: "string list"

definition scenario_New :: "gen_config \<Rightarrow> string + generator" where
  "scenario_New cfg =
     (case ParsedStartTime cfg of
        Inl err \<Rightarrow> Inl err
      | Inr start \<Rightarrow> Inr \<lparr>ge_cfg = cfg, ge_start = start, ge_nodeIDs = map no_ID (gc_Nodes cfg)\<rparr>)"

subsection \<open>Scenario effects\<close>

record effect =
  ef_labels :: "string list"
  ef_latencyDelta :: f64
  ef_errorRate :: f64
  ef_missRate :: f64
  ef_popularityShift :: bool
  ef_pressureRPS :: int

definition no_effect :: effect where
  "no_effect = \<lparr>ef_labels = [], ef_latencyDelta = 0, ef_errorRate = 0, ef_missRate = 0, ef_popularityShift = False, ef_pressureRPS = 0\<rparr>"

definition in_window :: "duration \<Rightarrow> scenario \<Rightarrow> bool" where
  "in_window elapsed item \<longleftrightarrow>
     \<not> (sint elapsed < sint (sn_At item) \<or> sint (sn_At item + sn_Duration item) \<le> sint elapsed)"

definition applies_to :: "string \<Rightarrow> string \<Rightarrow> scenario \<Rightarrow> bool" where
  "applies_to nodeID network item =
     (if sn_Type item = ''node_latency_spike'' \<or> sn_Type item = ''node_5xx_spike'' \<or> sn_Type item = ''capacity_pressure''
      then sn_Target item = nodeID
      else if sn_Type item = ''isp_node_degradation'' then sn_Target item = nodeID \<and> sn_Network item = network
      else sn_Type item = ''popularity_shift'')"

text \<open>The body of the loop for a scenario that applies.\<close>

definition apply_scenario :: "scenario \<Rightarrow> effect \<Rightarrow> effect" where
  "apply_scenario item e =
     (let e = e\<lparr>ef_labels := ef_labels e @ [sn_Type item]\<rparr>
      in if sn_Type item = ''node_latency_spike'' then e\<lparr>ef_latencyDelta := ef_latencyDelta e + sn_AddedLatencyMS item\<rparr>
         else if sn_Type item = ''node_5xx_spike'' then e\<lparr>ef_errorRate := maxFloat (ef_errorRate e) (sn_ErrorRate item)\<rparr>
         else if sn_Type item = ''isp_node_degradation'' then
           e\<lparr>ef_latencyDelta := ef_latencyDelta e + sn_AddedLatencyMS item,
             ef_errorRate := maxFloat (ef_errorRate e) (sn_ErrorRate item)\<rparr>
         else if sn_Type item = ''popularity_shift'' then
           e\<lparr>ef_popularityShift := True, ef_missRate := maxFloat (ef_missRate e) (sn_MissRate item)\<rparr>
         else if sn_Type item = ''capacity_pressure'' then
           e\<lparr>ef_latencyDelta := ef_latencyDelta e + maxFloat (sn_AddedLatencyMS item) (lit 60 0),
             ef_errorRate := maxFloat (ef_errorRate e) (sn_ErrorRate item),
             ef_pressureRPS := sn_TargetCapacityRPS item\<rparr>
         else e)"

definition effect_step :: "duration \<Rightarrow> string \<Rightarrow> string \<Rightarrow> scenario \<Rightarrow> effect \<Rightarrow> effect" where
  "effect_step elapsed nodeID network item e =
     (if in_window elapsed item \<and> applies_to nodeID network item then apply_scenario item e else e)"

definition effects :: "gen_config \<Rightarrow> duration \<Rightarrow> string \<Rightarrow> string \<Rightarrow> effect" where
  "effects cfg elapsed nodeID network =
     (let e = fold (effect_step elapsed nodeID network) (gc_Scenarios cfg) no_effect
      in e\<lparr>ef_labels := sort (ef_labels e)\<rparr>)"

record label_window =
  lw_Type :: string
  lw_Start :: string
  lw_End :: string
  lw_Target :: string
  lw_Network :: string

definition label_window_of :: "instant \<Rightarrow> scenario \<Rightarrow> label_window" where
  "label_window_of start item =
     \<lparr>lw_Type = sn_Type item,
      lw_Start = events_Timestamp (time_add start (sn_At item)),
      lw_End = events_Timestamp (time_add start (sn_At item + sn_Duration item)),
      lw_Target = sn_Target item, lw_Network = sn_Network item\<rparr>"

definition labelWindows :: "generator \<Rightarrow> label_window list" where
  "labelWindows g = map (label_window_of (ge_start g)) (gc_Scenarios (ge_cfg g))"

subsection \<open>One request\<close>

text \<open>What a request draws, in order, up to the first event.\<close>

record request =
  rq_scheduled :: instant
  rq_eventTime :: instant
  rq_location :: location
  rq_network :: string
  rq_node :: node
  rq_session :: string
  rq_requestID :: string
  rq_effect :: effect
  rq_contentID :: string
  rq_cacheStatus :: string
  rq_httpStatus :: int
  rq_ttfb :: f64
  rq_origin :: f64

definition request_step :: "gen_config \<Rightarrow> duration" where
  "request_step cfg = of_int (1000000000 div gc_RatePerSecond cfg)"

definition draw_jitter :: "'s rng \<Rightarrow> gen_config \<Rightarrow> ('s, int) state" where
  "draw_jitter r cfg =
     (let most = sint (gc_OutOfOrderMax cfg)
      in if 0 < most then rn_Int63n r (most + 1) else State_Monad.return 0)"

definition draw_element :: "'s rng \<Rightarrow> 'a list \<Rightarrow> ('s, 'a) state" where
  "draw_element r xs = do { i \<leftarrow> rn_Intn r (int (length xs)); State_Monad.return (xs ! nat i) }"

definition draw_content :: "'s rng \<Rightarrow> gen_config \<Rightarrow> int \<Rightarrow> bool \<Rightarrow> ('s, int) state" where
  "draw_content r cfg rank shift =
     (if shift then do { i \<leftarrow> rn_Intn r 10; State_Monad.return (co_Count (gc_Content cfg) + i) }
      else State_Monad.return rank)"

definition draw_origin :: "'s rng \<Rightarrow> string \<Rightarrow> f64 \<Rightarrow> ('s, f64) state" where
  "draw_origin r cacheStatus latencyDelta =
     (if cacheStatus = ''HIT'' then State_Monad.return 0
      else do { n \<leftarrow> rn_NormFloat64 r;
                State_Monad.return (math_max 1 (lit 35 0 + n * lit 5 0 + latencyDelta * lit 4 1)) })"

definition session_of :: "gen_config \<Rightarrow> int \<Rightarrow> string" where
  "session_of cfg index =
     ''sha256:'' @ hashText (''session:'' @ format_int (gc_Seed cfg) @ '':'' @ format_int (index div 8))"

definition draw_request :: "'s rng \<Rightarrow> generator \<Rightarrow> int \<Rightarrow> ('s, request) state" where
  "draw_request r g index =
     (let cfg = ge_cfg g;
          scheduled = time_add (ge_start g) (of_int index * request_step cfg);
          node = gc_Nodes cfg ! nat (index mod int (length (gc_Nodes cfg)))
      in do {
        jitter \<leftarrow> draw_jitter r cfg;
        let eventTime = time_add scheduled (- of_int jitter);
        location \<leftarrow> draw_element r (gc_Locations cfg);
        network \<leftarrow> draw_element r (lo_Networks location);
        rank \<leftarrow> rn_Zipf r (co_Count (gc_Content cfg) - 1);
        let e = effects cfg (time_sub eventTime (ge_start g)) (no_ID node) network;
        rank \<leftarrow> draw_content r cfg rank (ef_popularityShift e);
        cache \<leftarrow> rn_Float64 r;
        let cacheStatus = (if cache < maxFloat (lit 8 2) (ef_missRate e) then ''MISS'' else ''HIT'');
        http \<leftarrow> rn_Float64 r;
        let httpStatus = (if http < maxFloat (lit 2 3) (ef_errorRate e) then 503 else 200);
        noise \<leftarrow> rn_NormFloat64 r;
        let ttfb = math_max 0 (no_BaseTTFBMS node + noise * lit 3 0 + ef_latencyDelta e);
        origin \<leftarrow> draw_origin r cacheStatus (ef_latencyDelta e);
        State_Monad.return
          \<lparr>rq_scheduled = scheduled, rq_eventTime = eventTime, rq_location = location, rq_network = network,
           rq_node = node, rq_session = session_of cfg index,
           rq_requestID = deterministicID (gc_Seed cfg) index ''request'', rq_effect = e,
           rq_contentID = ''content-'' @ format_padded 6 rank, rq_cacheStatus = cacheStatus, rq_httpStatus = httpStatus,
           rq_ttfb = (if cacheStatus = ''HIT'' then ttfb else ttfb + origin), rq_origin = origin\<rparr>
      })"

definition routing_of :: "generator \<Rightarrow> int \<Rightarrow> request \<Rightarrow> int \<Rightarrow> routing_event" where
  "routing_of g index q age =
     \<lparr>re_SchemaVersion = 1, re_EventID = deterministicID (gc_Seed (ge_cfg g)) index ''routing'',
      re_EventTime = events_Timestamp (rq_eventTime q), re_RequestID = rq_requestID q, re_CandidateNodes = ge_nodeIDs g,
      re_SelectedNode = no_ID (rq_node q), re_Policy = ''static-rendezvous'', re_QualitySnapshotAgeMS = age,
      re_SelectedWeight = 1 / f64_of_int (int (length (gc_Nodes (ge_cfg g)))), re_FallbackLevel = 0,
      re_ReasonCodes = [''SYNTHETIC_BASELINE'']\<rparr>"

definition delivery_of :: "generator \<Rightarrow> int \<Rightarrow> request \<Rightarrow> int \<Rightarrow> f64 \<Rightarrow> int \<Rightarrow> delivery_event" where
  "delivery_of g index q bytes transfer bitrate =
     \<lparr>de_SchemaVersion = 1, de_EventID = deterministicID (gc_Seed (ge_cfg g)) index ''delivery'',
      de_EventTime = events_Timestamp (rq_eventTime q), de_IngestTime = events_Timestamp (rq_scheduled q),
      de_RequestID = rq_requestID q, de_SessionIDHash = rq_session q, de_ContentID = rq_contentID q,
      de_ObjectType = ''segment'', de_PathTemplate = ''/hls/{content_id}/{rendition}/{segment}.m4s'',
      de_NodeID = no_ID (rq_node q), de_Location = lo_Name (rq_location q), de_NetworkID = rq_network q,
      de_CacheStatus = rq_cacheStatus q, de_HTTPStatus = rq_httpStatus q, de_BytesSent = 180000 + bytes,
      de_TTFBMS = round3 (rq_ttfb q), de_TransferMS = round3 (math_max 1 (lit 30 0 + transfer * lit 5 0)),
      de_OriginMS = round3 (rq_origin q), de_SegmentDurationMS = 2000, de_BitrateBPS = bitrate,
      de_SyntheticNodeRPS =
        maxInt (gc_RatePerSecond (ge_cfg g) div int (length (gc_Nodes (ge_cfg g)))) (ef_pressureRPS (rq_effect q)),
      de_SyntheticCapacityRPS = no_CapacityRPS (rq_node q), de_SyntheticLabels = ef_labels (rq_effect q)\<rparr>"

definition player_of :: "generator \<Rightarrow> int \<Rightarrow> request \<Rightarrow> delivery_event \<Rightarrow> player_event" where
  "player_of g index q delivery =
     \<lparr>pe_SchemaVersion = 1, pe_EventID = deterministicID (gc_Seed (ge_cfg g)) index ''player'',
      pe_EventTime = events_Timestamp (rq_eventTime q), pe_SessionIDHash = rq_session q, pe_ContentID = rq_contentID q,
      pe_EventType = ''segment_complete'', pe_SegmentSequence = index div 4, pe_SelectedBitrateBPS = de_BitrateBPS delivery,
      pe_DownloadMS = round3 (rq_ttfb q + de_TransferMS delivery), pe_BufferMS = round3 (math_max 0 (lit 8000 0 - rq_ttfb q)),
      pe_RebufferMS = (if lit 120 0 < rq_ttfb q then Some (round3 (rq_ttfb q - lit 120 0)) else None)\<rparr>"

text \<open>\<open>Unmarshal\<close> into \<open>map[string]any\<close> and \<open>Marshal\<close> again: numbers go through \<open>float64\<close>, strings are
  unescaped and escaped, objects lose repeated keys and are sorted.\<close>

fun any_json :: "json \<Rightarrow> json option"
  and any_elements :: "json list \<Rightarrow> json list option"
  and any_members :: "(string \<times> json) list \<Rightarrow> json gomap option" where
  "any_json (JNum n) = map_option (\<lambda>x. JNum (format_json_float x)) (parse_float n)"
| "any_json (JStr r) = Some (JStr (json_escape (unquote r)))"
| "any_json (JArr vs) = map_option JArr (any_elements vs)"
| "any_json (JObj ps) =
     map_option (\<lambda>m. JObj (map (\<lambda>k. (json_escape k, the (map_of m k))) (sort (mkeys m)))) (any_members ps)"
| "any_json v = Some v"
| "any_elements [] = Some []"
| "any_elements (v # vs) =
     (case any_json v of None \<Rightarrow> None | Some x \<Rightarrow> map_option ((#) x) (any_elements vs))"
| "any_members [] = Some []"
| "any_members ((k, v) # ps) =
     (case any_members ps of
        None \<Rightarrow> None
      | Some m \<Rightarrow>
          (case any_json v of
             None \<Rightarrow> None
           | Some x \<Rightarrow> Some (if unquote k \<in> set (mkeys m) then m else (unquote k, x) # m)))"

text \<open>The corrupted delivery event, whose cache status is not one of the schema.\<close>

definition break_delivery :: "string \<Rightarrow> string + string" where
  "break_delivery text =
     (case json_parse text of
        Some (JObj ps) \<Rightarrow>
          (case any_members ps of
             None \<Rightarrow> Inl ''json: cannot unmarshal''
           | Some m \<Rightarrow> marshal (enc_map Inr (AList.update ''cache_status'' (JStr ''HOT'') m)))
      | _ \<Rightarrow> Inl ''json: cannot unmarshal'')"

definition delivery_key :: "gen_config \<Rightarrow> request \<Rightarrow> string" where
  "delivery_key cfg q =
     lo_Name (rq_location q) @ ''|'' @ rq_network q @ ''|'' @
     format_padded 2 (stableBucket (rq_session q) (DeliveryKeyBucketCount cfg))"

definition bitrates :: "int list" where "bitrates = [800000, 1500000, 3000000]"

definition player_records :: "generator \<Rightarrow> int \<Rightarrow> request \<Rightarrow> delivery_event \<Rightarrow> string + event_record list" where
  "player_records g index q delivery =
     (if index mod 4 \<noteq> 0 then Inr []
      else case events_Marshal (enc_player (player_of g index q delivery)) of
             Inl err \<Rightarrow> Inl err
           | Inr value \<Rightarrow> Inr [\<lparr>ev_Topic = topic_PlayerTopic, ev_Key = rq_session q, ev_Value = value,
               ev_Duplicate = False, ev_SchemaInvalid = False\<rparr>])"

text \<open>The records of a request once both events are marshalled, the corruption included.\<close>

definition assemble :: "'s rng \<Rightarrow> generator \<Rightarrow> int \<Rightarrow> request \<Rightarrow> delivery_event \<Rightarrow> string \<Rightarrow> string \<Rightarrow> ('s, string + event_record list) state" where
  "assemble r g index q delivery routingValue deliveryValue =
     do {
       x \<leftarrow> rn_Float64 r;
       let schemaInvalid = (x < gc_SchemaErrorRate (ge_cfg g));
       (case (if schemaInvalid then break_delivery deliveryValue else Inr deliveryValue) of
          Inl err \<Rightarrow> State_Monad.return (Inl err)
        | Inr value \<Rightarrow>
            (case player_records g index q delivery of
               Inl err \<Rightarrow> State_Monad.return (Inl err)
             | Inr players \<Rightarrow>
                 do {
                   y \<leftarrow> rn_Float64 r;
                   let main = \<lparr>ev_Topic = DeliveryTopicName (ge_cfg g), ev_Key = delivery_key (ge_cfg g) q, ev_Value = value,
                     ev_Duplicate = False, ev_SchemaInvalid = schemaInvalid\<rparr>;
                   State_Monad.return (Inr
                     (\<lparr>ev_Topic = topic_RoutingTopic, ev_Key = rq_requestID q, ev_Value = routingValue,
                       ev_Duplicate = False, ev_SchemaInvalid = False\<rparr> # main # players @
                      (if y < gc_DuplicateRate (ge_cfg g) then [main\<lparr>ev_Duplicate := True\<rparr>] else [])))
                 }))
     }"

definition generateRequest :: "'s rng \<Rightarrow> generator \<Rightarrow> int \<Rightarrow> ('s, string + event_record list) state" where
  "generateRequest r g index =
     do {
       q \<leftarrow> draw_request r g index;
       age \<leftarrow> rn_Intn r 1000;
       let routing = routing_of g index q age;
       bytes \<leftarrow> rn_Intn r 900000;
       transfer \<leftarrow> rn_NormFloat64 r;
       bitrate \<leftarrow> draw_element r bitrates;
       let delivery = delivery_of g index q bytes transfer bitrate;
       (case events_Marshal (enc_routing routing) of
          Inl err \<Rightarrow> State_Monad.return (Inl err)
        | Inr routingValue \<Rightarrow>
            (case events_Marshal (enc_delivery delivery) of
               Inl err \<Rightarrow> State_Monad.return (Inl err)
             | Inr deliveryValue \<Rightarrow> assemble r g index q delivery routingValue deliveryValue))
     }"

subsection \<open>The run\<close>

record manifest =
  mf_RunID :: string
  mf_Seed :: int
  mf_GitCommit :: string
  mf_SimulationStart :: string
  mf_SimulationEnd :: string
  mf_RatePerSecond :: int
  mf_BaseRequests :: int
  mf_RecordsByTopic :: "int gomap"
  mf_DeliveryRecordsByKey :: "int gomap"
  mf_DuplicateRecords :: int
  mf_SchemaErrorRecords :: int
  mf_ExpectedLabels :: "label_window list"
  mf_Versions :: "string gomap"

text \<open>\<open>Duration.Seconds\<close> and the number of requests.\<close>

definition duration_seconds :: "duration \<Rightarrow> f64" where
  "duration_seconds d =
     (let n = sint d; sec = sgn n * (\<bar>n\<bar> div 1000000000); ns = sgn n * (\<bar>n\<bar> mod 1000000000)
      in f64_of_int sec + f64_of_int ns / lit 1000000000 0)"

definition total_requests :: "gen_config \<Rightarrow> int" where
  "total_requests cfg =
     int64_of_f64 (math_round (duration_seconds (gc_Duration cfg) * f64_of_int (gc_RatePerSecond cfg)))"

definition initial_manifest :: "generator \<Rightarrow> string \<Rightarrow> string gomap \<Rightarrow> manifest" where
  "initial_manifest g gitCommit versions =
     (let cfg = ge_cfg g
      in \<lparr>mf_RunID = deterministicID (gc_Seed cfg) (total_requests cfg) ''run'', mf_Seed = gc_Seed cfg,
          mf_GitCommit = gitCommit, mf_SimulationStart = events_Timestamp (ge_start g),
          mf_SimulationEnd = events_Timestamp (time_add (ge_start g) (gc_Duration cfg)),
          mf_RatePerSecond = gc_RatePerSecond cfg, mf_BaseRequests = total_requests cfg, mf_RecordsByTopic = [],
          mf_DeliveryRecordsByKey = [], mf_DuplicateRecords = 0, mf_SchemaErrorRecords = 0,
          mf_ExpectedLabels = labelWindows g, mf_Versions = versions\<rparr>)"

definition increment :: "string \<Rightarrow> int gomap \<Rightarrow> int gomap" where
  "increment k m = AList.update k (mget 0 m k + 1) m"

definition count_record :: "gen_config \<Rightarrow> event_record \<Rightarrow> manifest \<Rightarrow> manifest" where
  "count_record cfg r m =
     m\<lparr>mf_RecordsByTopic := increment (ev_Topic r) (mf_RecordsByTopic m),
       mf_DeliveryRecordsByKey :=
         (if ev_Topic r = DeliveryTopicName cfg then increment (ev_Key r) (mf_DeliveryRecordsByKey m)
          else mf_DeliveryRecordsByKey m),
       mf_DuplicateRecords := (if ev_Duplicate r then mf_DuplicateRecords m + 1 else mf_DuplicateRecords m),
       mf_SchemaErrorRecords := (if ev_SchemaInvalid r then mf_SchemaErrorRecords m + 1 else mf_SchemaErrorRecords m)\<rparr>"

type_synonym 'w emit = "event_record \<Rightarrow> 'w \<Rightarrow> string option \<times> 'w"

fun emit_records :: "gen_config \<Rightarrow> 'w emit \<Rightarrow> event_record list \<Rightarrow> manifest \<Rightarrow> 'w \<Rightarrow> manifest \<times> string option \<times> 'w" where
  "emit_records cfg emit [] m w = (m, None, w)"
| "emit_records cfg emit (r # rs) m w =
     (case emit r w of
        (Some err, w') \<Rightarrow> (m, Some err, w')
      | (None, w') \<Rightarrow> emit_records cfg emit rs (count_record cfg r m) w')"

text \<open>\<open>cancelled i\<close> is what \<open>ctx.Err\<close> answers before request \<open>i\<close>.\<close>

function run_loop ::
    "'s rng \<Rightarrow> (int \<Rightarrow> string option) \<Rightarrow> generator \<Rightarrow> 'w emit \<Rightarrow> int \<Rightarrow> int \<Rightarrow> manifest \<Rightarrow> 's \<Rightarrow> 'w \<Rightarrow> manifest \<times> string option \<times> 's \<times> 'w" where
  "run_loop r cancelled g emit requests index m s w =
     (if requests \<le> index then (m, None, s, w)
      else case cancelled index of
        Some err \<Rightarrow> (m, Some err, s, w)
      | None \<Rightarrow>
          (case run_state (generateRequest r g index) s of
             (Inl err, s') \<Rightarrow> (m, Some err, s', w)
           | (Inr records, s') \<Rightarrow>
               (case emit_records (ge_cfg g) emit records m w of
                  (m', Some err, w') \<Rightarrow> (m', Some err, s', w')
                | (m', None, w') \<Rightarrow> run_loop r cancelled g emit requests (index + 1) m' s' w')))"
  by pat_completeness auto
termination by (relation "measure (\<lambda>(r, c, g, emit, requests, index, m, s, w). nat (requests - index))") auto

declare run_loop.simps [simp del]

definition generator_Run ::
    "'s rng \<Rightarrow> (int \<Rightarrow> string option) \<Rightarrow> generator \<Rightarrow> string \<Rightarrow> string gomap \<Rightarrow> 'w emit \<Rightarrow> 's \<Rightarrow> 'w \<Rightarrow> manifest \<times> string option \<times> 's \<times> 'w" where
  "generator_Run r cancelled g gitCommit versions emit s w =
     run_loop r cancelled g emit (total_requests (ge_cfg g)) 0 (initial_manifest g gitCommit versions) s w"

end
