(* ===== verification/Scenario_Props.thy ===== *)
theory Scenario_Props
  imports Scenario Domain
begin

text \<open>
  Facts about the event generator: the records of a request, what a run emits and what its manifest
  counts, the effects of scenarios, and the buckets of the delivery keys.
\<close>

subsection \<open>Emitting records\<close>

text \<open>The world after all of \<open>rs\<close> were accepted, in order.\<close>

fun accepted :: "'w emit \<Rightarrow> event_record list \<Rightarrow> 'w \<Rightarrow> 'w option" where
  "accepted emit [] w = Some w"
| "accepted emit (r # rs) w =
     (case emit r w of (Some err, _) \<Rightarrow> None | (None, w') \<Rightarrow> accepted emit rs w')"

lemma accepted_append:
  "accepted emit (rs @ qs) w = (case accepted emit rs w of None \<Rightarrow> None | Some w' \<Rightarrow> accepted emit qs w')"
  by (induction rs arbitrary: w) (auto split: prod.split option.split)

text \<open>What \<open>emit_records\<close> did: it had a prefix accepted and counted it, all of it if there was no error.\<close>

lemma emit_records_result:
  assumes "emit_records cfg emit rs m w = (m', e, w')"
  shows "\<exists>as bs. rs = as @ bs \<and> m' = fold (count_record cfg) as m \<and>
    (e = None \<longrightarrow> bs = [] \<and> accepted emit as w = Some w') \<and> (\<exists>u. accepted emit as w = Some u)"
  using assms
proof (induction rs arbitrary: m w)
  case Nil
  then show ?case by auto
next
  case (Cons r rs)
  show ?case
  proof (cases "emit r w")
    case (Pair x u)
    show ?thesis
    proof (cases x)
      case None
      then have "emit_records cfg emit rs (count_record cfg r m) u = (m', e, w')" using Cons.prems Pair by simp
      from Cons.IH [OF this] obtain as bs where ab: "rs = as @ bs" "m' = fold (count_record cfg) as (count_record cfg r m)"
          "e = None \<longrightarrow> bs = [] \<and> accepted emit as u = Some w'" "\<exists>v. accepted emit as u = Some v"
        by blast
      then show ?thesis using None Pair by (intro exI [of _ "r # as"] exI [of _ bs]) auto
    next
      case (Some err)
      then show ?thesis using Cons.prems Pair by (intro exI [of _ "[]"] exI [of _ "r # rs"]) auto
    qed
  qed
qed

text \<open>The records of the requests from \<open>index\<close> on, one list per request, and the random state after
  them.\<close>

inductive generated :: "'s rng \<Rightarrow> generator \<Rightarrow> int \<Rightarrow> 's \<Rightarrow> event_record list list \<Rightarrow> 's \<Rightarrow> bool" for r g where
  none: "generated r g index s [] s"
| one_more: "run_state (generateRequest r g index) s = (Inr rs, s') \<Longrightarrow> generated r g (index + 1) s' rss s'' \<Longrightarrow>
    generated r g index s (rs # rss) s''"

text \<open>A run: complete requests, then at most one that is cut short by the sink.\<close>

lemma run_loop_result:
  assumes "run_loop r cancelled g emit requests index m s w = (m', e, s', w')"
  shows "\<exists>rss part. fold (count_record (ge_cfg g)) (concat rss @ part) m = m' \<and>
    (\<exists>v. generated r g index s rss v) \<and> int (length rss) \<le> max 0 (requests - index) \<and>
    (e = None \<longrightarrow> part = [] \<and> generated r g index s rss s' \<and> int (length rss) = max 0 (requests - index) \<and>
       accepted emit (concat rss) w = Some w') \<and>
    (e \<noteq> None \<longrightarrow> (\<exists>v. accepted emit (concat rss @ part) w = Some v))"
  using assms
proof (induction r cancelled g emit requests index m s w rule: run_loop.induct)
  case (1 r cancelled g emit requests index m s w)
  note eq = "1.prems" [unfolded run_loop.simps [of r cancelled g emit requests index m s w]]
  have stop: ?case if "m' = m" "e = None \<longrightarrow> requests \<le> index \<and> s' = s \<and> w' = w"
    using that by (intro exI [of _ "[]"] exI conjI) (auto intro: generated.none)
  show ?case
  proof (cases "requests \<le> index \<or> cancelled index \<noteq> None")
    case True
    then consider "requests \<le> index" | err where "\<not> requests \<le> index" "cancelled index = Some err" by auto
    then show ?thesis
    proof cases
      case 1
      then show ?thesis using eq by (intro stop) auto
    next
      case 2
      then have "m' = m" "e = Some err" using eq by simp_all
      then show ?thesis by (intro stop) simp_all
    qed
  next
    case False
    then have go: "\<not> requests \<le> index" "cancelled index = None" by auto
    obtain x u where x: "run_state (generateRequest r g index) s = (x, u)" by fastforce
    show ?thesis
    proof (cases x)
      case (Inl err)
      then show ?thesis using eq go x by (intro stop) auto
    next
      case (Inr rs)
      obtain m1 e1 w1 where em: "emit_records (ge_cfg g) emit rs m w = (m1, e1, w1)" by (metis prod_cases3)
      from emit_records_result [OF em] obtain as bs where
        as: "rs = as @ bs" "m1 = fold (count_record (ge_cfg g)) as m" "e1 = None \<longrightarrow> bs = [] \<and> accepted emit as w = Some w1"
          "\<exists>v. accepted emit as w = Some v"
        by blast
      show ?thesis
      proof (cases e1)
        case (Some err)
        then have "m' = m1" "e = Some err" using eq go x Inr em by auto
        moreover have "\<exists>v. generated r g index s [] v" by (rule exI) (rule generated.none)
        ultimately show ?thesis using as(2,4) by (intro exI [of _ "[]"] exI [of _ as]) simp
      next
        case None
        then have rest: "run_loop r cancelled g emit requests (index + 1) m1 u w1 = (m', e, s', w')"
          using eq go x Inr em by simp
        have rs: "rs = as" "accepted emit rs w = Some w1" using as None by auto
        from "1.IH" [OF go x [symmetric] Inr em [symmetric] refl None rest] obtain rss part where
          ih: "fold (count_record (ge_cfg g)) (concat rss @ part) m1 = m' \<and> (\<exists>v. generated r g (index + 1) u rss v) \<and>
            int (length rss) \<le> max 0 (requests - (index + 1)) \<and>
            (e = None \<longrightarrow> part = [] \<and> generated r g (index + 1) u rss s' \<and> int (length rss) = max 0 (requests - (index + 1)) \<and>
               accepted emit (concat rss) w1 = Some w') \<and>
            (e \<noteq> None \<longrightarrow> (\<exists>v. accepted emit (concat rss @ part) w1 = Some v))"
          by (elim exE) (rule that)
        have more: "generated r g index s (rs # rss) v" if "generated r g (index + 1) u rss v" for v
          using generated.one_more [OF x [unfolded Inr] that] .
        show ?thesis
        proof (rule exI [of _ "rs # rss"], rule exI [of _ part], intro conjI)
          show "fold (count_record (ge_cfg g)) (concat (rs # rss) @ part) m = m'" using ih as(2) rs by simp
          show "\<exists>v. generated r g index s (rs # rss) v" using ih more by auto
          show "int (length (rs # rss)) \<le> max 0 (requests - index)" using ih go by simp
          show "e = None \<longrightarrow> part = [] \<and> generated r g index s (rs # rss) s' \<and> int (length (rs # rss)) = max 0 (requests - index) \<and>
              accepted emit (concat (rs # rss)) w = Some w'"
            using ih more rs go by (auto simp: accepted_append)
          show "e \<noteq> None \<longrightarrow> (\<exists>v. accepted emit (concat (rs # rss) @ part) w = Some v)"
            using ih rs by (auto simp: accepted_append)
        qed
      qed
    qed
  qed
qed

subsection \<open>Counting\<close>

definition of_topic :: "string \<Rightarrow> event_record list \<Rightarrow> event_record list" where
  "of_topic t rs = filter (\<lambda>r. ev_Topic r = t) rs"

lemma count_fold:
  "mget 0 (mf_RecordsByTopic (fold (count_record cfg) rs m)) t =
     mget 0 (mf_RecordsByTopic m) t + int (length (filter (\<lambda>r. ev_Topic r = t) rs))"
  "mget 0 (mf_DeliveryRecordsByKey (fold (count_record cfg) rs m)) k =
     mget 0 (mf_DeliveryRecordsByKey m) k + int (length (filter (\<lambda>r. ev_Topic r = DeliveryTopicName cfg \<and> ev_Key r = k) rs))"
  "mf_DuplicateRecords (fold (count_record cfg) rs m) = mf_DuplicateRecords m + int (length (filter ev_Duplicate rs))"
  "mf_SchemaErrorRecords (fold (count_record cfg) rs m) = mf_SchemaErrorRecords m + int (length (filter ev_SchemaInvalid rs))"
  by (induction rs arbitrary: m) (auto simp: count_record_def increment_def mget_update)

subsection \<open>The records of a request\<close>

text \<open>The shape of what one request emits: routing, delivery, every fourth time a player event, and a
  duplicate of the delivery record if one was drawn.\<close>

definition request_shape :: "gen_config \<Rightarrow> int \<Rightarrow> event_record list \<Rightarrow> bool" where
  "request_shape cfg index rs \<longleftrightarrow>
     (\<exists>routing delivery players duplicates. rs = routing # delivery # players @ duplicates \<and>
        ev_Topic routing = topic_RoutingTopic \<and> \<not> ev_Duplicate routing \<and> \<not> ev_SchemaInvalid routing \<and>
        ev_Topic delivery = DeliveryTopicName cfg \<and> \<not> ev_Duplicate delivery \<and>
        length players = (if index mod 4 = 0 then 1 else 0) \<and>
        (\<forall>p \<in> set players. ev_Topic p = topic_PlayerTopic \<and> \<not> ev_Duplicate p \<and> \<not> ev_SchemaInvalid p) \<and>
        (duplicates = [] \<or> duplicates = [delivery\<lparr>ev_Duplicate := True\<rparr>]))"

lemma run_bind: "run_state (State_Monad.bind m f) s = (case run_state m s of (x, s') \<Rightarrow> run_state (f x) s')"
  by (cases m) (simp add: State_Monad.bind_def)

lemma player_records_shape:
  assumes "player_records g index q d = Inr ps"
  shows "length ps = (if index mod 4 = 0 then 1 else 0) \<and>
    (\<forall>p \<in> set ps. ev_Topic p = topic_PlayerTopic \<and> \<not> ev_Duplicate p \<and> \<not> ev_SchemaInvalid p)"
  using assms by (auto simp: player_records_def split: if_splits sum.splits)

lemma assemble_shape:
  assumes "run_state (assemble r g index q d rv dv) s = (Inr rs, s')"
  shows "request_shape (ge_cfg g) index rs"
proof -
  obtain x u where x: "run_state (rn_Float64 r) s = (x, u)" by fastforce
  define bad where "bad = (x < gc_SchemaErrorRate (ge_cfg g))"
  obtain body where v: "(if bad then break_delivery dv else Inr dv) = Inr body"
    using assms x by (auto simp: assemble_def run_bind bad_def Let_def split: sum.splits)
  obtain ps where ps: "player_records g index q d = Inr ps"
    using assms x v by (auto simp: assemble_def run_bind bad_def Let_def split: sum.splits)
  obtain y w where y: "run_state (rn_Float64 r) u = (y, w)" by fastforce
  define routing where "routing = \<lparr>ev_Topic = topic_RoutingTopic, ev_Key = rq_requestID q, ev_Value = rv,
    ev_Duplicate = False, ev_SchemaInvalid = False\<rparr>"
  define delivery where "delivery = \<lparr>ev_Topic = DeliveryTopicName (ge_cfg g), ev_Key = delivery_key (ge_cfg g) q, ev_Value = body,
    ev_Duplicate = False, ev_SchemaInvalid = bad\<rparr>"
  define dups where "dups = (if y < gc_DuplicateRate (ge_cfg g) then [delivery\<lparr>ev_Duplicate := True\<rparr>] else [])"
  have "rs = routing # delivery # ps @ dups"
    using assms x y v ps by (auto simp: assemble_def run_bind bad_def [symmetric] Let_def routing_def delivery_def dups_def)
  then show ?thesis
    using player_records_shape [OF ps] unfolding request_shape_def
    by (intro exI [of _ routing] exI [of _ delivery] exI [of _ ps] exI [of _ dups]) (simp add: routing_def delivery_def dups_def)
qed

lemma generateRequest_shape:
  assumes "run_state (generateRequest r g index) s = (Inr rs, s')"
  shows "request_shape (ge_cfg g) index rs"
proof -
  from assms obtain q d rv dv u where "run_state (assemble r g index q d rv dv) u = (Inr rs, s')"
    by (auto simp: generateRequest_def run_bind Let_def split: prod.splits sum.splits)
  then show ?thesis by (rule assemble_shape)
qed

subsection \<open>Counts of a run\<close>

definition count_of :: "(event_record \<Rightarrow> bool) \<Rightarrow> event_record list \<Rightarrow> int" where
  "count_of P rs = int (length (filter P rs))"

lemma count_of_simps [simp]:
  "count_of P [] = 0" "count_of P (r # rs) = (if P r then 1 else 0) + count_of P rs"
  "count_of P (rs @ qs) = count_of P rs + count_of P qs"
  by (simp_all add: count_of_def)

lemma count_of_none: "\<forall>r \<in> set rs. \<not> P r \<Longrightarrow> count_of P rs = 0"
  by (simp add: count_of_def)

lemma count_of_all: "\<forall>r \<in> set rs. P r \<Longrightarrow> count_of P rs = int (length rs)"
  by (simp add: count_of_def)

lemma mget_empty: "mget z [] k = z"
  by (simp add: mget_def)

text \<open>The delivery topic is not one of the other two.\<close>

definition own_delivery_topic :: "gen_config \<Rightarrow> bool" where
  "own_delivery_topic cfg \<longleftrightarrow> DeliveryTopicName cfg \<noteq> topic_RoutingTopic \<and> DeliveryTopicName cfg \<noteq> topic_PlayerTopic"

lemma topics_distinct: "topic_RoutingTopic \<noteq> topic_PlayerTopic"
  by (simp add: topic_RoutingTopic_def topic_PlayerTopic_def)

lemma request_counts:
  assumes "request_shape cfg index rs" "own_delivery_topic cfg"
  shows "count_of (\<lambda>r. ev_Topic r = topic_RoutingTopic) rs = 1"
    "count_of (\<lambda>r. ev_Topic r = topic_PlayerTopic) rs = (if index mod 4 = 0 then 1 else 0)"
    "count_of (\<lambda>r. ev_Topic r = DeliveryTopicName cfg) rs = 1 + count_of ev_Duplicate rs"
proof -
  obtain routing delivery players dups where rs: "rs = routing # delivery # players @ dups"
    and r: "ev_Topic routing = topic_RoutingTopic" "\<not> ev_Duplicate routing"
    and d: "ev_Topic delivery = DeliveryTopicName cfg" "\<not> ev_Duplicate delivery"
    and p: "length players = (if index mod 4 = 0 then 1 else 0)" "\<forall>q \<in> set players. ev_Topic q = topic_PlayerTopic \<and> \<not> ev_Duplicate q"
    and du: "dups = [] \<or> dups = [delivery\<lparr>ev_Duplicate := True\<rparr>]"
    using assms(1) unfolding request_shape_def by blast
  have n: "DeliveryTopicName cfg \<noteq> topic_RoutingTopic" "DeliveryTopicName cfg \<noteq> topic_PlayerTopic"
    using assms(2) by (simp_all add: own_delivery_topic_def)
  have pc: "count_of (\<lambda>r. ev_Topic r = topic_RoutingTopic) players = 0" "count_of (\<lambda>r. ev_Topic r = DeliveryTopicName cfg) players = 0"
      "count_of ev_Duplicate players = 0" "count_of (\<lambda>r. ev_Topic r = topic_PlayerTopic) players = int (length players)"
    using p n topics_distinct by (simp_all add: count_of_none count_of_all)
  show "count_of (\<lambda>r. ev_Topic r = topic_RoutingTopic) rs = 1"
    using rs r d pc du n topics_distinct by auto
  show "count_of (\<lambda>r. ev_Topic r = topic_PlayerTopic) rs = (if index mod 4 = 0 then 1 else 0)"
    using rs r d pc du n topics_distinct p(1) by auto
  show "count_of (\<lambda>r. ev_Topic r = DeliveryTopicName cfg) rs = 1 + count_of ev_Duplicate rs"
    using rs r d pc du n by auto
qed

lemma generated_counts:
  assumes "generated r g index s rss s'" "own_delivery_topic (ge_cfg g)"
  shows "count_of (\<lambda>r. ev_Topic r = topic_RoutingTopic) (concat rss) = int (length rss) \<and>
    count_of (\<lambda>r. ev_Topic r = topic_PlayerTopic) (concat rss) = (index + int (length rss) + 3) div 4 - (index + 3) div 4 \<and>
    count_of (\<lambda>r. ev_Topic r = DeliveryTopicName (ge_cfg g)) (concat rss) = int (length rss) + count_of ev_Duplicate (concat rss)"
  using assms(1)
proof (induction rule: generated.induct)
  case (one_more index s rs s' rss s'')
  note c = request_counts [OF generateRequest_shape [OF one_more.hyps(1)] assms(2)]
  have "(index + 1 + int (length rss) + 3) div 4 - (index + 1 + 3) div 4 + (if index mod 4 = 0 then 1 else 0) =
      (index + (1 + int (length rss)) + 3) div 4 - (index + 3) div 4"
    by presburger
  then show ?case using c one_more.IH by simp
qed simp

end
