(* ===== verification/Float_Small.thy ===== *)
theory Float_Small
  imports Float_Facts
begin

text \<open>
  Floats of bounded magnitude: \<open>small b x\<close> bounds the number \<open>x\<close> by \<open>2^b\<close>. Every operation on such
  floats gives one again, with a larger bound, so a computation of a known depth stays finite.
\<close>

definition small :: "int \<Rightarrow> f64 \<Rightarrow> bool" where
  "small b x \<longleftrightarrow> finite_f64 x \<and> canonical x \<and> \<bar>val x\<bar> \<le> p2 b"

lemma smallD: "small b x \<Longrightarrow> finite_f64 x" "small b x \<Longrightarrow> canonical x" "small b x \<Longrightarrow> \<bar>val x\<bar> \<le> p2 b"
  by (simp_all add: small_def)

lemma small_mono: "small a x \<Longrightarrow> a \<le> b \<Longrightarrow> small b x"
  unfolding small_def using order_trans [of "\<bar>val x\<bar>" "p2 a" "p2 b"] by simp

lemma rnd_small: "\<bar>y\<bar> \<le> p2 b \<Longrightarrow> -1074 \<le> b \<Longrightarrow> b \<le> 1023 \<Longrightarrow> \<bar>rnd y\<bar> \<le> p2 b \<and> \<bar>rnd y\<bar> < ovf"
  using rnd_abs_le [of y "p2 b"] representable_p2 [of b] rnd_less_ovf [of y] order_trans [of "\<bar>y\<bar>" "p2 b" "p2 1023"] by simp

lemma small_plus:
  assumes "small b x" "small b y" "0 \<le> b" "b \<le> 1000" shows "small (b + 1) (x + y)"
proof -
  have "\<bar>val x + val y\<bar> \<le> p2 (b + 1)"
    using smallD(3) [OF assms(1)] smallD(3) [OF assms(2)] p2_add [of b 1] by simp
  from rnd_small [OF this] plus_f64_val [of x y] show ?thesis
    using assms smallD(1) by (simp add: small_def)
qed

lemma small_uminus: "small b x \<Longrightarrow> small b (- x)"
  by (simp add: small_def)

lemma small_minus: "small b x \<Longrightarrow> small b y \<Longrightarrow> 0 \<le> b \<Longrightarrow> b \<le> 1000 \<Longrightarrow> small (b + 1) (x - y)"
  using small_plus [of b x "- y"] small_uminus [of b y] by (simp add: minus_f64_def)

lemma small_times:
  assumes "small a x" "small b y" "0 \<le> a" "0 \<le> b" "a + b \<le> 1000" shows "small (a + b) (x * y)"
proof -
  have "\<bar>val x * val y\<bar> \<le> p2 a * p2 b"
    unfolding abs_mult using smallD(3) [OF assms(1)] smallD(3) [OF assms(2)] by (intro mult_mono) simp_all
  then have "\<bar>val x * val y\<bar> \<le> p2 (a + b)" by (simp add: p2_add)
  from rnd_small [OF this] times_f64_val [of x y] show ?thesis
    using assms smallD(1) by (simp add: small_def)
qed

lemma small_divide:
  assumes "small b x" "finite_f64 y" "1 \<le> val y" "0 \<le> b" "b \<le> 1000" shows "small b (x / y)"
proof -
  have "\<bar>val x\<bar> / val y \<le> \<bar>val x\<bar> / 1" using assms(3) by (intro divide_left_mono) simp_all
  then have "\<bar>val x / val y\<bar> \<le> p2 b" using smallD(3) [OF assms(1)] assms(3) by (simp add: abs_divide)
  from rnd_small [OF this] divide_f64_val [of x y] show ?thesis
    using assms smallD(1) by (simp add: small_def)
qed

lemma small_max: "small b x \<Longrightarrow> small b y \<Longrightarrow> small b (math_max x y)"
  using math_max_val [of x y] by (auto simp: small_def max_def)

lemma small_lit: "0 \<le> n \<Longrightarrow> of_int n / 10 ^ k \<le> p2 b \<Longrightarrow> 0 \<le> b \<Longrightarrow> b \<le> 1000 \<Longrightarrow> small b (lit n k)"
  using rnd_small [of "of_int n / 10 ^ k" b] lit_val [of n k] by (auto simp: small_def abs_less_iff)

lemma small_of_int: "\<bar>of_int k\<bar> \<le> p2 b \<Longrightarrow> 0 \<le> b \<Longrightarrow> b \<le> 1000 \<Longrightarrow> small b (f64_of_int k)"
  using rnd_small [of "of_int k" b] f64_of_int_val [of k] by (simp add: small_def)

lemma small_0: "0 \<le> b \<Longrightarrow> small b 0" and small_1: "0 \<le> b \<Longrightarrow> small b 1"
  using p2_le_iff [of 0 b] by (simp_all add: small_def)

lemma div_less_bound:
  fixes n d c :: int
  assumes "0 < d" "n < c * d" shows "n div d < c"
proof (rule ccontr)
  assume "\<not> n div d < c"
  then have "c * d \<le> n div d * d" using assms(1) by (intro mult_right_mono) simp_all
  also have "\<dots> \<le> n" using div_mult_mod_eq [of n d] pos_mod_sign [OF assms(1), of n] by linarith
  finally show False using assms(2) by simp
qed

lemma small_round:
  assumes "small b x" "53 \<le> b" "b \<le> 1000" shows "small b (math_round x)"
proof (cases "0 \<le> expo x")
  case True
  then show ?thesis using assms by (simp add: math_round_def)
next
  case False
  define k where "k = (2::int) ^ nat (- expo x)"
  define q where "q = (2 * \<bar>mant x\<bar> + k) div (2 * k)"
  have k: "1 \<le> k" by (simp add: k_def)
  have "2 * \<bar>mant x\<bar> + k < (\<bar>mant x\<bar> + 1) * (2 * k)"
  proof -
    have "\<bar>mant x\<bar> * 1 \<le> \<bar>mant x\<bar> * k" using k by (intro mult_left_mono) simp_all
    then show ?thesis using k by (simp add: algebra_simps)
  qed
  then have "q < \<bar>mant x\<bar> + 1" unfolding q_def using k by (intro div_less_bound) simp_all
  moreover have "\<bar>mant x\<bar> \<le> 2 ^ 53" using smallD(2) [OF assms(1)] by (cases x) auto
  moreover have "0 \<le> q" unfolding q_def using k by (simp add: pos_imp_zdiv_nonneg_iff)
  ultimately have q: "0 \<le> q" "q \<le> 2 ^ 53" by simp_all
  have "(of_int q :: real) \<le> of_int (2 ^ 53)" using q(2) by (simp only: of_int_le_iff)
  also have "\<dots> = p2 53" using p2_nat [of 53] by simp
  finally have v: "\<bar>of_int q / 1 * p2 0\<bar> \<le> p2 53" using q(1) by simp
  have r: "math_round x = round_f64 (signbit x) q 1 0"
    using False smallD(1) [OF assms(1)] by (simp add: math_round_def q_def k_def Let_def)
  have "small 53 (math_round x)"
    using rnd_small [OF v] round_f64_val [of q 1 0 "signbit x"] q(1) unfolding r
    by (auto simp: small_def round_f64_canonical abs_mult sgnr_def abs_less_iff)
  then show ?thesis using small_mono assms(2) by blast
qed

end
