(* ===== verification/EncodeFacts.thy ===== *)
theory EncodeFacts
  imports JsonCodec
begin

text \<open>
  When \<open>Marshal\<close> succeeds: a document is built unless one of its floats is not finite or one of its
  times lies outside the years that JSON allows. \<open>encodes\<close> says so of an encoder's result.
\<close>

definition encodes :: "encoded \<Rightarrow> bool" where
  "encodes e \<longleftrightarrow> (\<exists>j. e = Inr j)"

lemma encodes_code [code]: "encodes e = (case e of Inl err \<Rightarrow> False | Inr j \<Rightarrow> True)"
  by (simp add: encodes_def split: sum.split)

lemma encodes_enc_members: "(\<exists>vs. enc_members ps = Inr vs) \<longleftrightarrow> list_all (\<lambda>p. encodes (snd p)) ps"
  by (induction ps rule: enc_members.induct) (auto simp: encodes_def split: sum.splits)

lemma encodes_iff [simp]:
  "encodes (enc_string s)" "encodes (enc_int k)" "encodes (enc_bool b)" "encodes (Inr v)" "\<not> encodes (Inl err)"
  "encodes (enc_f64 x) \<longleftrightarrow> finite_f64 x"
  "encodes (enc_time t) \<longleftrightarrow> 0 \<le> year_of t \<and> year_of t \<le> 9999"
  by (simp_all add: encodes_def enc_string_def enc_int_def enc_bool_def enc_f64_def enc_time_def)

lemma encodes_struct [simp]: "encodes (enc_struct ps) \<longleftrightarrow> list_all (\<lambda>p. encodes (snd p)) ps"
  unfolding encodes_enc_members [symmetric] by (auto simp: enc_struct_def encodes_def split: sum.splits)

lemma encodes_list [simp]: "encodes (enc_list enc xs) \<longleftrightarrow> list_all (\<lambda>x. encodes (enc x)) xs"
proof -
  have "encodes (enc_list enc xs) \<longleftrightarrow> (\<exists>vs. enc_members (map (\<lambda>x. ([], enc x)) xs) = Inr vs)"
    by (auto simp: enc_list_def encodes_def split: sum.splits)
  then show ?thesis unfolding encodes_enc_members by (simp add: list_all_iff)
qed

lemma encodes_map [simp]: "encodes (enc_map enc m) \<longleftrightarrow> (\<forall>k \<in> set (mkeys m). encodes (enc (the (map_of m k))))"
  by (simp add: enc_map_def list_all_iff)

lemma encodes_unless [simp]: "list_all (\<lambda>p. encodes (snd p)) (unless_empty omit k e) \<longleftrightarrow> omit \<or> encodes e"
  by (simp add: unless_empty_def)

lemma marshal_ok: "(\<exists>x. marshal e = Inr x) \<longleftrightarrow> encodes e"
  by (cases e) (simp_all add: marshal_def encodes_def)

lemma encodes_marshal: "encodes e \<Longrightarrow> \<exists>j. e = Inr j \<and> marshal e = Inr (json_render j)"
  by (auto simp: encodes_def marshal_def)

end
