(* ===== verification/Scenario_Progress.thy ===== *)
theory Scenario_Progress
  imports Scenario_Props Float_Small EncodeFacts
begin

text \<open>
  A run comes to its end. On moderate numbers the float arithmetic of a request stays finite, so
  every request can be marshalled, and a run that nobody stops emits every request of it. The
  counts of a finished run follow.
\<close>

subsection \<open>Moderate numbers\<close>

text \<open>Latencies below \<open>2^60\<close> milliseconds and at most 500 scenarios; a random source whose normal
  deviates stay below \<open>2^20\<close>, and whose uniform draws lie in the unit interval.\<close>

definition moderate_config :: "gen_config \<Rightarrow> bool" where
  "moderate_config cfg \<longleftrightarrow>
     list_all (\<lambda>n. small 60 (no_BaseTTFBMS n)) (gc_Nodes cfg) \<and>
     list_all (\<lambda>i. small 60 (sn_AddedLatencyMS i)) (gc_Scenarios cfg) \<and>
     gc_Nodes cfg \<noteq> [] \<and> length (gc_Nodes cfg) \<le> 1048576 \<and> length (gc_Scenarios cfg) \<le> 500"

definition moderate_rng :: "'s rng \<Rightarrow> bool" where
  "moderate_rng r \<longleftrightarrow>
     (\<forall>s. small 20 (fst (run_state (rn_NormFloat64 r) s))) \<and> (\<forall>s. between 0 1 (fst (run_state (rn_Float64 r) s)))"

lemma small_maxFloat: "small b x \<Longrightarrow> small b y \<Longrightarrow> small b (maxFloat x y)"
  by (simp add: maxFloat_def)

lemma small_round3:
  assumes "small b x" "43 \<le> b" "b \<le> 900" shows "small (b + 10) (round3 x)"
proof -
  have "small 10 (lit 1000 0)" by (rule small_lit) (simp_all add: p2_nat)
  from small_times [OF assms(1) this] assms have "small (b + 10) (x * lit 1000 0)" by simp
  then have r: "small (b + 10) (math_round (x * lit 1000 0))" using assms by (intro small_round) simp_all
  have "rnd 1000 = 1000" using rnd_representable [OF representable_numeral] by simp
  then have "finite_f64 (lit 1000 0) \<and> val (lit 1000 0) = 1000"
    using lit_val [of 1000 0] ovf_big [of 1000] by simp
  then show ?thesis unfolding round3_def using small_divide [OF r] assms by simp
qed

lemma small_effect_step:
  assumes "small b (ef_latencyDelta e)" "small 60 (sn_AddedLatencyMS i)" "60 \<le> b" "b \<le> 999"
  shows "small (b + 1) (ef_latencyDelta (effect_step elapsed n w i e))"
proof -
  have l: "small b (lit 60 0)" using assms(3,4)
    by (intro small_mono [OF small_lit [of 60 0 6]]) (simp_all add: p2_nat)
  have a: "small b (sn_AddedLatencyMS i)" using small_mono [OF assms(2,3)] .
  have keep: "small (b + 1) (ef_latencyDelta e)" using small_mono [OF assms(1)] by simp
  have add: "small (b + 1) (ef_latencyDelta e + x)" if "small b x" for x
    using small_plus [OF assms(1) that] assms(3,4) by simp
  show ?thesis
    using keep add [OF a] add [OF small_maxFloat [OF a l]]
    by (simp add: effect_step_def apply_scenario_def Let_def)
qed

lemma small_effects_fold:
  "small b (ef_latencyDelta e) \<Longrightarrow> list_all (\<lambda>i. small 60 (sn_AddedLatencyMS i)) is \<Longrightarrow> 60 \<le> b \<Longrightarrow> b + int (length is) \<le> 999 \<Longrightarrow>
   small (b + int (length is)) (ef_latencyDelta (fold (effect_step elapsed n w) is e))"
proof (induction "is" arbitrary: b e)
  case (Cons i "is")
  have "small (b + 1) (ef_latencyDelta (effect_step elapsed n w i e))"
    using Cons.prems by (intro small_effect_step) simp_all
  from Cons.IH [OF this] Cons.prems show ?case by (simp add: algebra_simps)
qed simp

lemma small_effects:
  assumes "moderate_config cfg" shows "small 560 (ef_latencyDelta (effects cfg elapsed n w))"
proof -
  have "small 60 (ef_latencyDelta no_effect)" by (simp add: no_effect_def small_0)
  have "small (60 + int (length (gc_Scenarios cfg))) (ef_latencyDelta (fold (effect_step elapsed n w) (gc_Scenarios cfg) no_effect))"
    using assms by (intro small_effects_fold [OF \<open>small 60 (ef_latencyDelta no_effect)\<close>]) (simp_all add: moderate_config_def)
  then have "small 560 (ef_latencyDelta (fold (effect_step elapsed n w) (gc_Scenarios cfg) no_effect))"
    by (rule small_mono) (use assms in \<open>simp add: moderate_config_def\<close>)
  then show ?thesis by (simp add: effects_def Let_def)
qed

subsection \<open>A request\<close>

lemma small_ttfb:
  assumes "small 60 base" "small 20 noise" "small 560 delta"
  shows "small 562 (math_max 0 (base + noise * lit 3 0 + delta))"
proof -
  have "small 2 (lit 3 0)" by (rule small_lit) (simp_all add: p2_nat)
  from small_times [OF assms(2) this] have "small 22 (noise * lit 3 0)" by simp
  from small_plus [OF assms(1) small_mono [OF this]] have "small 61 (base + noise * lit 3 0)" by simp
  from small_plus [OF small_mono [OF this, of 560] assms(3)] have "small 561 (base + noise * lit 3 0 + delta)" by simp
  from small_max [OF small_0 small_mono [OF this]] show ?thesis by simp
qed

lemma small_origin:
  assumes "small 20 noise" "small 560 delta"
  shows "small 562 (math_max 1 (lit 35 0 + noise * lit 5 0 + delta * lit 4 1))"
proof -
  have l: "small 3 (lit 5 0)" "small 6 (lit 35 0)" "small 0 (lit 4 1)" by (rule small_lit; simp add: p2_nat)+
  have "small 23 (noise * lit 5 0)" "small 560 (delta * lit 4 1)"
    using small_times [OF assms(1) l(1)] small_times [OF assms(2) l(3)] by simp_all
  from small_plus [OF small_mono [OF l(2), of 23] this(1)] this(2)
  have "small 24 (lit 35 0 + noise * lit 5 0)" "small 560 (delta * lit 4 1)" by simp_all
  from small_plus [OF small_mono [OF this(1), of 560] this(2)]
  have "small 561 (lit 35 0 + noise * lit 5 0 + delta * lit 4 1)" by simp
  from small_max [OF small_1 small_mono [OF this]] show ?thesis by simp
qed

lemma small_draw_origin:
  assumes "moderate_rng r" "small 560 delta" "run_state (draw_origin r c delta) s = (x, s')"
  shows "small 562 x"
proof (cases "c = ''HIT''")
  case True
  then show ?thesis using assms(3) by (simp add: draw_origin_def small_0)
next
  case False
  obtain noise u where n: "run_state (rn_NormFloat64 r) s = (noise, u)" by fastforce
  then have "small 20 noise" using assms(1) unfolding moderate_rng_def by (metis fst_conv)
  moreover have "x = math_max 1 (lit 35 0 + noise * lit 5 0 + delta * lit 4 1)"
    using False assms(3) n by (simp add: draw_origin_def run_bind)
  ultimately show ?thesis using small_origin [OF _ assms(2)] by blast
qed

lemma small_request:
  assumes r: "moderate_rng r" and c: "moderate_config (ge_cfg g)"
    and q: "run_state (draw_request r g index) s = (q, s')"
  shows "small 600 (rq_ttfb q) \<and> small 600 (rq_origin q)"
proof -
  let ?node = "gc_Nodes (ge_cfg g) ! nat (index mod int (length (gc_Nodes (ge_cfg g))))"
  have len: "0 < int (length (gc_Nodes (ge_cfg g)))" using c by (simp add: moderate_config_def)
  have "?node \<in> set (gc_Nodes (ge_cfg g))"
    using pos_mod_bound [OF len, of index] pos_mod_sign [OF len, of index] by (intro nth_mem) linarith
  then have base: "small 60 (no_BaseTTFBMS ?node)" using c by (auto simp: moderate_config_def list_all_iff)
  have noise: "small 20 x" if "run_state (rn_NormFloat64 r) u = (x, v)" for x u v
    using r that unfolding moderate_rng_def by (metis fst_conv)
  have t: "small 599 (math_max 0 (no_BaseTTFBMS ?node + x * lit 3 0 + ef_latencyDelta (effects (ge_cfg g) el n w)))"
    if "small 20 x" for x el n w
    using small_mono [OF small_ttfb [OF base that small_effects [OF c]]] by simp
  have o: "small 599 x" if "run_state (draw_origin r k (ef_latencyDelta (effects (ge_cfg g) el n w))) u = (x, v)" for x k u v el n w
    using small_mono [OF small_draw_origin [OF r small_effects [OF c] that]] by simp
  have up: "small 600 x" if "small 599 x" for x using small_mono [OF that] by simp
  note t' = up [OF t]
  have plus: "small 600 (x + y)" if "small 599 x" "small 599 y" for x y using small_plus [OF that] by simp
  show ?thesis
    using q unfolding draw_request_def Let_def run_bind
    by (auto split: prod.splits dest!: noise o intro!: plus t t' intro: up)
qed

lemma finite_round3: "small b x \<Longrightarrow> 43 \<le> b \<Longrightarrow> b \<le> 900 \<Longrightarrow> finite_f64 (round3 x)"
  using small_round3 smallD(1) by blast

lemma small_transfer: "small 20 x \<Longrightarrow> small 43 (math_max 1 (lit 30 0 + x * lit 5 0))"
proof -
  assume x: "small 20 x"
  have l: "small 3 (lit 5 0)" "small 6 (lit 30 0)" by (rule small_lit; simp add: p2_nat)+
  have "small 23 (x * lit 5 0)" using small_times [OF x l(1)] by simp
  from small_plus [OF small_mono [OF l(2), of 23] this] have "small 24 (lit 30 0 + x * lit 5 0)" by simp
  from small_max [OF small_1 small_mono [OF this, of 43]] show ?thesis by simp
qed

lemma request_marshals:
  assumes "moderate_config (ge_cfg g)" "small 600 (rq_ttfb q)" "small 600 (rq_origin q)" "small 20 transfer"
  shows "encodes (enc_routing (routing_of g index q age))"
    "encodes (enc_delivery (delivery_of g index q bytes transfer bitrate))"
    "encodes (enc_player (player_of g index q (delivery_of g index q bytes transfer bitrate)))"
proof -
  let ?n = "int (length (gc_Nodes (ge_cfg g)))"
  have n: "1 \<le> ?n" "?n \<le> 1048576" using assms(1) by (auto simp: moderate_config_def Suc_le_eq)
  then have "bound (of_int 1) (of_int 1048576)" by (intro bound_int) simp_all
  from bound_rnd [OF this, of "of_int ?n"] n f64_of_int_val [of ?n]
  have "finite_f64 (f64_of_int ?n) \<and> 1 \<le> val (f64_of_int ?n)" by auto
  then have "finite_f64 (1 / f64_of_int ?n)" using small_divide [OF small_1, of 0 "f64_of_int ?n"] smallD(1) by auto
  then show "encodes (enc_routing (routing_of g index q age))" by (simp add: enc_routing_def routing_of_def list_all_iff)
  have t: "small 53 (round3 (math_max 1 (lit 30 0 + transfer * lit 5 0)))"
    using small_round3 [OF small_transfer [OF assms(4)]] by simp
  have l: "small 13 (lit 8000 0)" "small 7 (lit 120 0)" by (rule small_lit; simp add: p2_nat)+
  have "finite_f64 (round3 (rq_ttfb q))" "finite_f64 (round3 (rq_origin q))"
    using assms(2,3) by (simp_all add: finite_round3)
  then show "encodes (enc_delivery (delivery_of g index q bytes transfer bitrate))"
    using smallD(1) [OF t] by (simp add: enc_delivery_def delivery_of_def list_all_iff unless_empty_def)
  have "finite_f64 (round3 (rq_ttfb q + round3 (math_max 1 (lit 30 0 + transfer * lit 5 0))))"
    using small_plus [OF assms(2) small_mono [OF t]] by (intro finite_round3 [of 601]) simp_all
  moreover have "finite_f64 (round3 (math_max 0 (lit 8000 0 - rq_ttfb q)))"
    using small_minus [OF small_mono [OF l(1), of 600] assms(2)] by (intro finite_round3 [of 601] small_max small_0) simp_all
  moreover have "finite_f64 (round3 (rq_ttfb q - lit 120 0))"
    using small_minus [OF assms(2) small_mono [OF l(2), of 600]] by (intro finite_round3 [of 601]) simp_all
  ultimately show "encodes (enc_player (player_of g index q (delivery_of g index q bytes transfer bitrate)))"
    by (simp add: enc_player_def player_of_def delivery_of_def list_all_iff)
qed

lemma events_Marshal_ok: "encodes e \<Longrightarrow> \<exists>x. events_Marshal e = Inr x"
  by (simp add: events_Marshal_def marshal_ok)

lemma generateRequest_ok:
  assumes r: "moderate_rng r" and c: "moderate_config (ge_cfg g)" and z: "gc_SchemaErrorRate (ge_cfg g) = 0"
  shows "\<exists>rs s'. run_state (generateRequest r g index) s = (Inr rs, s')"
proof -
  obtain q s1 where q: "run_state (draw_request r g index) s = (q, s1)" by fastforce
  obtain age s2 where age: "run_state (rn_Intn r 1000) s1 = (age, s2)" by fastforce
  obtain bytes s3 where bytes: "run_state (rn_Intn r 900000) s2 = (bytes, s3)" by fastforce
  obtain x s4 where x: "run_state (rn_NormFloat64 r) s3 = (x, s4)" by fastforce
  obtain rate s5 where rate: "run_state (draw_element r bitrates) s4 = (rate, s5)" by fastforce
  obtain y s6 where y: "run_state (rn_Float64 r) s5 = (y, s6)" by fastforce
  obtain d s7 where d: "run_state (rn_Float64 r) s6 = (d, s7)" by fastforce
  have "between 0 1 y" using r y unfolding moderate_rng_def by (metis fst_conv)
  then have y0: "\<not> y < 0" by (simp add: between_def fval)
  have "small 20 x" using r x unfolding moderate_rng_def by (metis fst_conv)
  note ok = request_marshals [OF c conjunct1 [OF small_request [OF r c q]] conjunct2 [OF small_request [OF r c q]] this, of index]
  obtain rv where rv: "events_Marshal (enc_routing (routing_of g index q age)) = Inr rv"
    using events_Marshal_ok [OF ok(1)] by blast
  obtain dv where dv: "events_Marshal (enc_delivery (delivery_of g index q bytes x rate)) = Inr dv"
    using events_Marshal_ok [OF ok(2)] by blast
  obtain body where "events_Marshal (enc_player (player_of g index q (delivery_of g index q bytes x rate))) = Inr body"
    using events_Marshal_ok [OF ok(3)] by blast
  then have "\<exists>pv. player_records g index q (delivery_of g index q bytes x rate) = Inr pv"
    by (simp add: player_records_def)
  then obtain pv where pv: "player_records g index q (delivery_of g index q bytes x rate) = Inr pv" ..
  have "\<exists>rs. run_state (assemble r g index q (delivery_of g index q bytes x rate) rv dv) s5 = (Inr rs, s7)"
    unfolding assemble_def run_bind y z prod.case Let_def if_not_P [OF y0] sum.case pv d by simp
  then show ?thesis
    unfolding generateRequest_def run_bind q age bytes x rate prod.case Let_def rv dv sum.case by blast
qed

subsection \<open>A run\<close>

lemma emit_records_ok:
  "(\<And>r w. fst (emit r w) = None) \<Longrightarrow> \<exists>m' w'. emit_records cfg emit rs m w = (m', None, w')"
proof (induction rs arbitrary: m w)
  case (Cons r rs)
  obtain w1 where "emit r w = (None, w1)" using Cons.prems [of r w] by (cases "emit r w") simp
  then show ?case using Cons by simp
qed simp

lemma run_loop_ok:
  assumes ok: "\<And>index s. \<exists>rs s'. run_state (generateRequest r g index) s = (Inr rs, s')"
    and go: "\<And>i. cancelled i = None" and acc: "\<And>r w. fst (emit r w) = None"
  shows "\<exists>m' s' w'. run_loop r cancelled g emit requests index m s w = (m', None, s', w')"
proof (induction "nat (requests - index)" arbitrary: index m s w)
  case 0
  then show ?case by (simp add: run_loop.simps [of r cancelled g emit requests index m s w])
next
  case (Suc n)
  obtain rs s1 where rs: "run_state (generateRequest r g index) s = (Inr rs, s1)" using ok by blast
  obtain m1 w1 where em: "emit_records (ge_cfg g) emit rs m w = (m1, None, w1)" using emit_records_ok [where emit = emit] acc by blast
  have "n = nat (requests - (index + 1))" using Suc.hyps(2) by simp
  from Suc.hyps(1) [OF this] show ?case
    using Suc.hyps(2) by (simp add: run_loop.simps [of r cancelled g emit requests index m s w] go rs em)
qed

subsection \<open>A sample run\<close>

definition sample_config :: gen_config where
  "sample_config =
     \<lparr>gc_Seed = 42, gc_StartTime = ''2026-01-01T00:00:00Z'', gc_Duration = 5 * second, gc_RatePerSecond = 1,
      gc_OutOfOrderMax = second, gc_DuplicateRate = lit 1 2, gc_SchemaErrorRate = 0, gc_DeliveryBuckets = 0,
      gc_DeliveryTopic = [], gc_Locations = [\<lparr>lo_Name = ''sydney'', lo_Networks = [''as-synthetic-a'']\<rparr>],
      gc_Nodes = [\<lparr>no_ID = ''edge-1'', no_BaseTTFBMS = lit 25 0, no_CapacityRPS = 100\<rparr>],
      gc_Content = \<lparr>co_Count = 2, co_Popularity = ''zipf''\<rparr>,
      gc_Scenarios = [\<lparr>sn_At = second, sn_Type = ''node_latency_spike'', sn_Target = ''edge-1'', sn_Network = [],
        sn_Duration = 2 * second, sn_AddedLatencyMS = lit 150 0, sn_ErrorRate = 0, sn_MissRate = 0, sn_TargetCapacityRPS = 0\<rparr>]\<rparr>"

definition sample_generator :: generator where
  "sample_generator =
     \<lparr>ge_cfg = sample_config, ge_start = the (parse_rfc3339 (gc_StartTime sample_config)), ge_nodeIDs = [''edge-1'']\<rparr>"

definition sample_rng :: "unit rng" where
  "sample_rng = \<lparr>rn_Int63n = (\<lambda>n. State_Monad.return 0), rn_Intn = (\<lambda>n. State_Monad.return 0),
     rn_Float64 = State_Monad.return 1, rn_NormFloat64 = State_Monad.return 0, rn_Zipf = (\<lambda>n. State_Monad.return 0)\<rparr>"

definition keep_record :: "event_record list emit" where
  "keep_record r w = (None, w @ [r])"

lemma keep_record_ok: "fst (keep_record r w) = None"
  by (simp add: keep_record_def)

lemma sample_total: "total_requests sample_config = 5"
  by code_simp

lemma sample_config_valid: "config_Validate sample_config = None"
  by code_simp

lemma sample_New: "scenario_New sample_config = Inr sample_generator"
  by code_simp

lemma sample_topics: "own_delivery_topic sample_config"
  by code_simp

lemma sample_config_moderate: "moderate_rng sample_rng" "moderate_config (ge_cfg sample_generator)"
    "gc_SchemaErrorRate (ge_cfg sample_generator) = 0" "ge_cfg sample_generator = sample_config"
proof -
  have l: "small 60 (lit 25 0)" "small 60 (lit 150 0)"
    by (rule small_mono [OF small_lit [where b = 8]]; simp add: p2_nat)+
  show "moderate_rng sample_rng" by (simp add: moderate_rng_def sample_rng_def small_0 between_def)
  show "moderate_config (ge_cfg sample_generator)"
    using l by (simp add: moderate_config_def sample_generator_def sample_config_def)
  show "gc_SchemaErrorRate (ge_cfg sample_generator) = 0" "ge_cfg sample_generator = sample_config"
    by (simp_all add: sample_generator_def sample_config_def)
qed

lemma sample_requests_ok: "\<exists>rs s'. run_state (generateRequest sample_rng sample_generator index) s = (Inr rs, s')"
  by (rule generateRequest_ok [OF sample_config_moderate(1-3)])

lemma sample_run_ok:
  "(\<And>r w. fst (emit r w) = None) \<Longrightarrow>
   \<exists>m s' w'. generator_Run sample_rng (\<lambda>i. None) sample_generator c versions emit s w = (m, None, s', w')"
  unfolding generator_Run_def by (rule run_loop_ok [OF sample_requests_ok]) simp_all



subsection \<open>The counts of a finished run\<close>

lemma total_increment: "sum_list (map snd (increment k m)) = sum_list (map snd m) + (1 :: int)"
proof -
  have "sum_list (map snd (AList.update k v m)) = sum_list (map snd m) - mget 0 m k + v" for v :: int
    by (induction m) (auto simp: mget_def)
  then show ?thesis by (simp add: increment_def)
qed

lemma count_fold_keys:
  "sum_list (map snd (mf_DeliveryRecordsByKey (fold (count_record cfg) rs m))) =
     sum_list (map snd (mf_DeliveryRecordsByKey m)) + count_of (\<lambda>r. ev_Topic r = DeliveryTopicName cfg) rs"
  by (induction rs arbitrary: m) (auto simp: count_record_def total_increment)

lemma count_fold_base: "mf_BaseRequests (fold (count_record cfg) rs m) = mf_BaseRequests m"
  by (induction rs arbitrary: m) (simp_all add: count_record_def)





end
