(* ===== verification/Config_Props.thy ===== *)
theory Config_Props
  imports Scenario_Progress
begin

text \<open>
  What validation of a scenario file is worth: nothing that a request divides by or draws from is
  empty, the rates are rates, and the labels of a request are those of the windows that the
  manifest announces. And what validation lets through.
\<close>

subsection \<open>Validated configurations\<close>

lemma first_error_None: "first_error f xs = None \<longleftrightarrow> (\<forall>x \<in> set xs. f x = None)"
  by (induction xs) (auto split: option.split)

definition valid_scenario :: "duration \<Rightarrow> scenario \<Rightarrow> bool" where
  "valid_scenario run i \<longleftrightarrow> sn_Type i \<in> set allowed_types \<and> 0 < sint (sn_Duration i) \<and> 0 \<le> sint (sn_At i) \<and>
     sint (sn_At i + sn_Duration i) \<le> sint run \<and> validRate (sn_ErrorRate i) \<and> validRate (sn_MissRate i)"

lemma scenario_error_None: "scenario_error run i = None \<longleftrightarrow> valid_scenario run i"
  by (auto simp: scenario_error_def valid_scenario_def)

lemma Validate_None:
  assumes "config_Validate c = None"
  shows "\<exists>t. ParsedStartTime c = Inr t" "0 < sint (gc_Duration c)" "0 < gc_RatePerSecond c"
    "0 \<le> sint (gc_OutOfOrderMax c)" "sint (gc_OutOfOrderMax c) \<le> 30000000000"
    "validRate (gc_DuplicateRate c)" "validRate (gc_SchemaErrorRate c)"
    "0 \<le> gc_DeliveryBuckets c" "gc_DeliveryBuckets c \<le> 1024" "gc_Locations c \<noteq> []" "gc_Nodes c \<noteq> []"
    "2 \<le> co_Count (gc_Content c)" "\<forall>l \<in> set (gc_Locations c). lo_Name l \<noteq> [] \<and> lo_Networks l \<noteq> []"
    "\<forall>n \<in> set (gc_Nodes c). no_ID n \<noteq> [] \<and> \<not> no_BaseTTFBMS n < 0 \<and> 0 < no_CapacityRPS n"
    "\<forall>i \<in> set (gc_Scenarios c). valid_scenario (gc_Duration c) i"
  using assms
  by (auto simp: config_Validate_def first_error_None location_error_def node_error_def scenario_error_None
      split: sum.splits if_splits option.splits)

text \<open>The exact end of a scenario, which the code compares as a 64-bit sum.\<close>

definition scenario_end :: "scenario \<Rightarrow> int" where
  "scenario_end i = sint (sn_At i) + sint (sn_Duration i)"

lemma sint_end: "scenario_end i \<le> max_duration \<Longrightarrow> 0 \<le> sint (sn_At i) \<Longrightarrow> 0 < sint (sn_Duration i) \<Longrightarrow>
    sint (sn_At i + sn_Duration i) = scenario_end i"
proof -
  assume a: "scenario_end i \<le> max_duration" "0 \<le> sint (sn_At i)" "0 < sint (sn_Duration i)"
  have "sn_At i + sn_Duration i = of_int (scenario_end i)" by (simp add: scenario_end_def)
  then show ?thesis using a sint_of_int_range [of "scenario_end i"] by (simp add: scenario_end_def min_duration_def)
qed



text \<open>A scenario that starts in the run and lasts for centuries is accepted: the sum wraps around.\<close>

lemma scenario_overflow_accepted:
  "\<exists>i. scenario_error (5 * second) i = None \<and> sint (5 * second :: duration) < scenario_end i"
proof -
  define i where "i = \<lparr>sn_At = second, sn_Type = ''popularity_shift'', sn_Target = [], sn_Network = [],
    sn_Duration = of_int max_duration, sn_AddedLatencyMS = 0, sn_ErrorRate = 0, sn_MissRate = 0, sn_TargetCapacityRPS = 0\<rparr>"
  have "scenario_error (5 * second) i = None \<and> sint (5 * second :: duration) < scenario_end i"
    unfolding i_def by code_simp
  then show ?thesis by blast
qed

subsection \<open>Effects\<close>

text \<open>The scenarios that act on a request for a node and a network at a time.\<close>

definition active :: "generator \<Rightarrow> instant \<Rightarrow> string \<Rightarrow> string \<Rightarrow> scenario list" where
  "active g t n w = filter (\<lambda>i. ge_start g + sint (sn_At i) \<le> t \<and> t < ge_start g + scenario_end i \<and> applies_to n w i)
     (gc_Scenarios (ge_cfg g))"

lemma in_window_iff:
  assumes "0 \<le> sint (sn_At i)" "0 < sint (sn_Duration i)" "scenario_end i \<le> max_duration"
  shows "in_window (time_sub t u) i \<longleftrightarrow> u + sint (sn_At i) \<le> t \<and> t < u + scenario_end i"
proof -
  have e: "sint (sn_At i + sn_Duration i) = scenario_end i" using sint_end [OF assms(3,1,2)] .
  have "0 < scenario_end i" using assms by (simp add: scenario_end_def)
  then show ?thesis
    using assms(1,3) unfolding in_window_def e sint_time_sub by (auto simp: max_def min_def max_duration_def min_duration_def)
qed

lemma effects_fold:
  "fold (effect_step el n w) is e = fold apply_scenario (filter (\<lambda>i. in_window el i \<and> applies_to n w i) is) e"
  by (induction "is" arbitrary: e) (auto simp: effect_step_def)

lemma validRate_maxFloat: "validRate a \<Longrightarrow> validRate b \<Longrightarrow> validRate (maxFloat a b)"
  by (simp add: maxFloat_def)

lemma fold_apply_labels: "ef_labels (fold apply_scenario is e) = ef_labels e @ map sn_Type is"
  by (induction "is" arbitrary: e) (auto simp: apply_scenario_def Let_def)

lemma fold_apply_rates:
  "validRate (ef_errorRate e) \<Longrightarrow> validRate (ef_missRate e) \<Longrightarrow> \<forall>i \<in> set is. validRate (sn_ErrorRate i) \<and> validRate (sn_MissRate i) \<Longrightarrow>
   validRate (ef_errorRate (fold apply_scenario is e)) \<and> validRate (ef_missRate (fold apply_scenario is e))"
  by (induction "is" arbitrary: e) (auto simp: apply_scenario_def Let_def validRate_maxFloat)

lemma fold_apply_shift:
  "ef_popularityShift (fold apply_scenario is e) \<longleftrightarrow> ef_popularityShift e \<or> (\<exists>i \<in> set is. sn_Type i = ''popularity_shift'')"
  by (induction "is" arbitrary: e) (auto simp: apply_scenario_def Let_def)

lemma window_of_active:
  assumes "config_Validate (ge_cfg g) = None" "\<forall>i \<in> set (gc_Scenarios (ge_cfg g)). scenario_end i \<le> max_duration"
  shows "filter (\<lambda>i. in_window (time_sub t (ge_start g)) i \<and> applies_to n w i) (gc_Scenarios (ge_cfg g)) = active g t n w"
  unfolding active_def
proof (rule filter_cong [OF refl])
  fix i assume i: "i \<in> set (gc_Scenarios (ge_cfg g))"
  then have "valid_scenario (gc_Duration (ge_cfg g)) i" using Validate_None(15) [OF assms(1)] by blast
  then have "in_window (time_sub t (ge_start g)) i \<longleftrightarrow> ge_start g + sint (sn_At i) \<le> t \<and> t < ge_start g + scenario_end i"
    using assms(2) i by (intro in_window_iff) (auto simp: valid_scenario_def)
  then show "(in_window (time_sub t (ge_start g)) i \<and> applies_to n w i) =
      (ge_start g + sint (sn_At i) \<le> t \<and> t < ge_start g + scenario_end i \<and> applies_to n w i)" by blast
qed

text \<open>C37: The effects on a request, under a validated configuration whose scenarios end at representable
  times: its labels are the sorted types of exactly the scenarios whose announced window contains the
  event time and that apply to its node and network; the popularity shifts when one of them says so;
  error rate and miss rate stay rates.\<close>

theorem effects_of_active_scenarios:
  assumes "config_Validate (ge_cfg g) = None" "\<forall>i \<in> set (gc_Scenarios (ge_cfg g)). scenario_end i \<le> max_duration"
  defines "e \<equiv> \<lambda>t n w. effects (ge_cfg g) (time_sub t (ge_start g)) n w"
  shows "ef_labels (e t n w) = sort (map sn_Type (active g t n w)) \<and>
    (ef_popularityShift (e t n w) \<longleftrightarrow> ''popularity_shift'' \<in> set (ef_labels (e t n w))) \<and>
    validRate (ef_errorRate (e t n w)) \<and> validRate (ef_missRate (e t n w))"
proof -
  let ?f = "fold apply_scenario (active g t n w) no_effect"
  have e: "e t n w = ?f\<lparr>ef_labels := sort (ef_labels ?f)\<rparr>"
    unfolding e_def effects_def Let_def effects_fold window_of_active [OF assms(1,2)] ..
  have "validRate (sn_ErrorRate i) \<and> validRate (sn_MissRate i)" if "i \<in> set (active g t n w)" for i
    using that Validate_None(15) [OF assms(1)] by (auto simp: active_def valid_scenario_def)
  then have "validRate (ef_errorRate ?f) \<and> validRate (ef_missRate ?f)"
    by (intro fold_apply_rates) (auto simp: no_effect_def validRate_def fval)
  moreover have "(\<exists>i \<in> set is. sn_Type i = k) \<longleftrightarrow> k \<in> sn_Type ` set is" for k "is" by force
  moreover have "ef_labels no_effect = []" "\<not> ef_popularityShift no_effect" by (simp_all add: no_effect_def)
  ultimately show ?thesis unfolding e by (simp add: fold_apply_labels fold_apply_shift)
qed

lemma effects_of_active_scenarios_witness:
  "\<exists>e. e = effects sample_config (1500 * 1000000) ''edge-1'' ''as-synthetic-a'' \<and> validRate (ef_errorRate e) \<and>
     ef_labels e = sort (map sn_Type (active sample_generator (ge_start sample_generator + 1500000000) ''edge-1'' ''as-synthetic-a''))"
proof -
  let ?t = "ge_start sample_generator + 1500000000"
  have v: "config_Validate (ge_cfg sample_generator) = None" using sample_config_valid sample_config_moderate(4) by simp
  have w: "\<forall>i \<in> set (gc_Scenarios (ge_cfg sample_generator)). scenario_end i \<le> max_duration"
    unfolding sample_config_moderate(4) by code_simp
  have t: "time_sub ?t (ge_start sample_generator) = 1500 * 1000000"
    by (simp add: time_sub_def Let_def max_duration_def min_duration_def)
  show ?thesis
    using effects_of_active_scenarios [OF v w, of ?t "''edge-1''" "''as-synthetic-a''"]
    unfolding t sample_config_moderate(4) by blast
qed

subsection \<open>Keys\<close>

text \<open>The bucket in the key of a delivery record is below the configured count, and below 256 whatever
  the count, because it is taken from one byte of the hash.\<close>

lemma delivery_key_buckets:
  assumes "config_Validate cfg = None"
  shows "\<exists>b. delivery_key cfg q = lo_Name (rq_location q) @ ''|'' @ rq_network q @ ''|'' @ format_padded 2 b \<and>
    0 \<le> b \<and> b < DeliveryKeyBucketCount cfg \<and> b < 256"
proof -
  let ?h = "uint (hd (sha256 (string_bytes (rq_session q))))"
  have n: "0 < DeliveryKeyBucketCount cfg" using Validate_None(8) [OF assms] by (simp add: DeliveryKeyBucketCount_def)
  have h: "0 \<le> ?h" "?h < 256" using uint_range_size [of "hd (sha256 (string_bytes (rq_session q)))"] by (simp_all add: word_size)
  have "?h mod DeliveryKeyBucketCount cfg \<le> ?h" using h n by (intro zmod_le_nonneg_dividend) simp
  then show ?thesis using n h by (intro exI [of _ "stableBucket (rq_session q) (DeliveryKeyBucketCount cfg)"])
    (simp add: delivery_key_def stableBucket_def)
qed

lemma delivery_key_buckets_witness:
  "\<forall>q. \<exists>b. delivery_key sample_config q = lo_Name (rq_location q) @ ''|'' @ rq_network q @ ''|'' @ format_padded 2 b \<and> 0 \<le> b \<and> b < 16"
  using delivery_key_buckets [OF sample_config_valid] by (force simp: sample_config_def DeliveryKeyBucketCount_def)

subsection \<open>A base latency that is not a number\<close>

lemma nan_ops: "NaN + x = NaN" "NaN * x = NaN" "NaN / x = NaN" "math_max 0 NaN = NaN" "math_round NaN = NaN"
  by (simp_all add: plus_f64_def times_f64_def divide_f64_def math_max_def math_round_def zero_f64_def)

lemma nan_ttfb:
  assumes "no_BaseTTFBMS (gc_Nodes (ge_cfg g) ! nat (index mod int (length (gc_Nodes (ge_cfg g))))) = NaN"
    "run_state (draw_request r g index) s = (q, s')"
  shows "rq_ttfb q = NaN"
  using assms(2) unfolding draw_request_def Let_def run_bind assms(1)
  by (auto simp: nan_ops split: prod.splits)

text \<open>C40: Validation lets a node through whose base latency is not a number, and then every request for
  the node fails: its delivery event cannot be marshalled, and \<open>Run\<close> stops there.\<close>

theorem nan_latency_stops_run:
  assumes "no_BaseTTFBMS (gc_Nodes (ge_cfg g) ! nat (index mod int (length (gc_Nodes (ge_cfg g))))) = NaN"
  shows "(\<forall>n. no_BaseTTFBMS n = NaN \<and> no_ID n \<noteq> [] \<and> 0 < no_CapacityRPS n \<longrightarrow> node_error n = None) \<and>
    (\<exists>err s'. run_state (generateRequest r g index) s = (Inl err, s'))"
proof
  show "\<forall>n. no_BaseTTFBMS n = NaN \<and> no_ID n \<noteq> [] \<and> 0 < no_CapacityRPS n \<longrightarrow> node_error n = None"
    by (simp add: node_error_def)
  obtain q s1 where q: "run_state (draw_request r g index) s = (q, s1)" by fastforce
  obtain age s2 where age: "run_state (rn_Intn r 1000) s1 = (age, s2)" by fastforce
  obtain bytes s3 where bytes: "run_state (rn_Intn r 900000) s2 = (bytes, s3)" by fastforce
  obtain x s4 where x: "run_state (rn_NormFloat64 r) s3 = (x, s4)" by fastforce
  obtain rate s5 where rate: "run_state (draw_element r bitrates) s4 = (rate, s5)" by fastforce
  have "\<not> encodes (enc_delivery (delivery_of g index q bytes x rate))"
    using nan_ttfb [OF assms q] by (simp add: enc_delivery_def delivery_of_def round3_def nan_ops)
  then obtain err where err: "events_Marshal (enc_delivery (delivery_of g index q bytes x rate)) = Inl err"
    by (cases "enc_delivery (delivery_of g index q bytes x rate)") (simp_all add: encodes_def events_Marshal_def marshal_def)
  show "\<exists>err s'. run_state (generateRequest r g index) s = (Inl err, s')"
  proof (cases "events_Marshal (enc_routing (routing_of g index q age))")
    case (Inl e)
    then show ?thesis unfolding generateRequest_def run_bind q age bytes x rate prod.case Let_def Inl sum.case by simp
  next
    case (Inr v)
    then show ?thesis unfolding generateRequest_def run_bind q age bytes x rate prod.case Let_def Inr err sum.case by simp
  qed
qed

definition nan_generator :: generator where
  "nan_generator = sample_generator
     \<lparr>ge_cfg := sample_config\<lparr>gc_Nodes := [\<lparr>no_ID = ''edge-1'', no_BaseTTFBMS = NaN, no_CapacityRPS = 100\<rparr>]\<rparr>\<rparr>"

lemma nan_latency_stops_run_witness:
  "config_Validate (ge_cfg nan_generator) = None \<and> (\<exists>err s'. run_state (generateRequest sample_rng nan_generator 0) () = (Inl err, s'))"
proof
  show "config_Validate (ge_cfg nan_generator) = None" by code_simp
  have "no_BaseTTFBMS (gc_Nodes (ge_cfg nan_generator) ! nat (0 mod int (length (gc_Nodes (ge_cfg nan_generator))))) = NaN"
    by (simp add: nan_generator_def)
  from nan_latency_stops_run [OF this, where r = sample_rng and s = "()"] show "\<exists>err s'. run_state (generateRequest sample_rng nan_generator 0) () = (Inl err, s')" by blast
qed

end
