(* ===== verification/Sink.thy ===== *)
theory Sink
  imports Events
begin

text \<open>
  \<open>internal/sink/sink.go\<close>: where generated records go. The Kafka sink collects records and hands them
  to the writer in batches; the JSON lines sink encodes each record as it comes. The writer of
  kafka-go, the file and the buffered writer in front of it are parameters.
\<close>

subsection \<open>Kafka\<close>

record sink_message =
  sm_Topic :: string
  sm_Key :: string
  sm_Value :: string

definition message_of :: "event_record \<Rightarrow> sink_message" where
  "message_of r = \<lparr>sm_Topic = ev_Topic r, sm_Key = ev_Key r, sm_Value = ev_Value r\<rparr>"

definition kafkaBatchSize :: nat where "kafkaBatchSize = 500"

text \<open>The sink with the world its writer works on.\<close>

record 'w kafka_sink =
  sk_messages :: "sink_message list"
  sk_world :: 'w

record 'w message_writer =
  mw_write :: "sink_message list \<Rightarrow> 'w \<Rightarrow> string option \<times> 'w"
  mw_close :: "'w \<Rightarrow> string option \<times> 'w"

definition sink_NewKafka :: "string \<Rightarrow> 'w \<Rightarrow> string + string list \<times> 'w kafka_sink" where
  "sink_NewKafka brokersCSV w =
     (let brokers = split_on CHR '','' brokersCSV
      in if brokers = [] \<or> trim_space (hd brokers) = [] then Inl ''at least one Kafka broker is required''
         else Inr (map trim_space brokers, \<lparr>sk_messages = [], sk_world = w\<rparr>))"

definition kafka_flush :: "'w message_writer \<Rightarrow> 'w kafka_sink \<Rightarrow> string option \<times> 'w kafka_sink" where
  "kafka_flush k s =
     (if sk_messages s = [] then (None, s)
      else case mw_write k (sk_messages s) (sk_world s) of
             (Some err, w) \<Rightarrow> (Some err, s\<lparr>sk_world := w\<rparr>)
           | (None, w) \<Rightarrow> (None, \<lparr>sk_messages = [], sk_world = w\<rparr>))"

definition kafka_Write :: "'w message_writer \<Rightarrow> event_record \<Rightarrow> 'w kafka_sink \<Rightarrow> string option \<times> 'w kafka_sink" where
  "kafka_Write k r s =
     (let s' = s\<lparr>sk_messages := sk_messages s @ [message_of r]\<rparr>
      in if length (sk_messages s') < kafkaBatchSize then (None, s') else kafka_flush k s')"

definition kafka_sink_Close :: "'w message_writer \<Rightarrow> 'w kafka_sink \<Rightarrow> string option \<times> 'w kafka_sink" where
  "kafka_sink_Close k s =
     (case kafka_flush k s of
        (flushErr, s1) \<Rightarrow>
          (case mw_close k (sk_world s1) of
             (closeErr, w) \<Rightarrow> (case flushErr of Some e \<Rightarrow> Some e | None \<Rightarrow> closeErr, s1\<lparr>sk_world := w\<rparr>)))"

subsection \<open>JSON lines\<close>

text \<open>The buffered writer: appending text, flushing, and closing the file if there is one. A
  \<open>bufio.Writer\<close> that failed once fails from then on.\<close>

record 'w text_writer =
  tw_write :: "string \<Rightarrow> 'w \<Rightarrow> string option \<times> 'w"
  tw_flush :: "'w \<Rightarrow> string option \<times> 'w"
  tw_close :: "('w \<Rightarrow> string option \<times> 'w) option"

text \<open>Whether a file is created, and which one; otherwise the lines go to standard output.\<close>

definition lines_path :: "string \<Rightarrow> string option" where
  "lines_path path = (if path \<noteq> [] \<and> path \<noteq> ''-'' then Some path else None)"

definition NewJSONLines :: "(string \<Rightarrow> 'w \<Rightarrow> (string + 'w text_writer) \<times> 'w) \<Rightarrow> 'w text_writer \<Rightarrow> string \<Rightarrow> 'w \<Rightarrow> (string + 'w text_writer) \<times> 'w" where
  "NewJSONLines create stdout path w =
     (case lines_path path of None \<Rightarrow> (Inr stdout, w) | Some file \<Rightarrow> create file w)"

text \<open>The envelope of a record. Its value is JSON text that is copied in; text that is not JSON is an
  error.\<close>

definition enc_envelope :: "event_record \<Rightarrow> encoded" where
  "enc_envelope r =
     (case json_parse (ev_Value r) of
        None \<Rightarrow> Inl ''json: error calling MarshalJSON for type json.RawMessage''
      | Some v \<Rightarrow> enc_struct
          ([(''topic'', enc_string (ev_Topic r)), (''key'', enc_string (ev_Key r)), (''value'', Inr v)] @
           unless_empty (\<not> ev_Duplicate r) ''duplicate'' (enc_bool (ev_Duplicate r)) @
           unless_empty (\<not> ev_SchemaInvalid r) ''schema_invalid'' (enc_bool (ev_SchemaInvalid r))))"

definition lines_Write :: "'w text_writer \<Rightarrow> event_record \<Rightarrow> 'w \<Rightarrow> string option \<times> 'w" where
  "lines_Write t r w =
     (case marshal (enc_envelope r) of
        Inl err \<Rightarrow> (Some err, w)
      | Inr text \<Rightarrow> tw_write t (text @ [CHR 0x0A]) w)"

definition lines_Close :: "'w text_writer \<Rightarrow> 'w \<Rightarrow> string option \<times> 'w" where
  "lines_Close t w =
     (case tw_flush t w of
        (flushErr, w1) \<Rightarrow>
          (case tw_close t of
             None \<Rightarrow> (flushErr, w1)
           | Some close \<Rightarrow>
               (case close w1 of
                  (closeErr, w2) \<Rightarrow> (case flushErr of Some e \<Rightarrow> Some e | None \<Rightarrow> closeErr, w2))))"

subsection \<open>The interface\<close>

text \<open>The two implementations of \<open>Sink\<close>, over one kind of state: a JSON lines sink keeps nothing in
  it beyond its world.\<close>

datatype 'w target = Lines "'w text_writer" | Topics "'w message_writer"

definition on_world :: "('w \<Rightarrow> string option \<times> 'w) \<Rightarrow> 'w kafka_sink \<Rightarrow> string option \<times> 'w kafka_sink" where
  "on_world f s = (case f (sk_world s) of (err, w) \<Rightarrow> (err, s\<lparr>sk_world := w\<rparr>))"

fun target_Write :: "'w target \<Rightarrow> event_record \<Rightarrow> 'w kafka_sink \<Rightarrow> string option \<times> 'w kafka_sink" where
  "target_Write (Lines t) r s = on_world (lines_Write t r) s"
| "target_Write (Topics k) r s = kafka_Write k r s"

fun target_Close :: "'w target \<Rightarrow> 'w kafka_sink \<Rightarrow> string option \<times> 'w kafka_sink" where
  "target_Close (Lines t) s = on_world (lines_Close t) s"
| "target_Close (Topics k) s = kafka_sink_Close k s"

end
