(* ===== verification/GenMain.thy ===== *)
theory GenMain
  imports Scenario Sink
begin

text \<open>
  \<open>cmd/generator/main.go\<close>: the flags override the scenario file, the result is validated again, the
  generator runs into the chosen sink, and the manifest is written only when the run and the closing
  of the sink succeeded. \<open>check\<close> prints an error and exits with 1.
\<close>

record flags =
  fl_config :: string
  fl_output :: string
  fl_outputPath :: string
  fl_brokers :: string
  fl_manifestPath :: string
  fl_gitCommit :: string
  fl_startTime :: string
  fl_seed :: string
  fl_deliveryTopic :: string

definition envOr :: "(string \<Rightarrow> string) \<Rightarrow> string \<Rightarrow> string \<Rightarrow> string" where
  "envOr getenv key fallback = (if getenv key \<noteq> [] then getenv key else fallback)"

definition default_flags :: "(string \<Rightarrow> string) \<Rightarrow> flags" where
  "default_flags getenv =
     \<lparr>fl_config = ''../../experiments/scenarios/baseline.yaml'', fl_output = ''jsonl'', fl_outputPath = ''-'',
      fl_brokers = ''localhost:9092'', fl_manifestPath = ''run-manifest.json'',
      fl_gitCommit = envOr getenv ''GIT_COMMIT'' ''uncommitted-or-unknown'',
      fl_startTime = [], fl_seed = [], fl_deliveryTopic = []\<rparr>"

definition version_keys :: "string list" where
  "version_keys = [''FLINK_VERSION'', ''KAFKA_VERSION'', ''CLICKHOUSE_VERSION'', ''GRAFANA_VERSION'', ''VECTOR_VERSION'']"

definition componentVersions :: "(string \<Rightarrow> string) \<Rightarrow> string gomap" where
  "componentVersions getenv = map (\<lambda>k. (k, getenv k)) (filter (\<lambda>k. getenv k \<noteq> []) version_keys)"

text \<open>The overrides; any of them has the configuration validated again. \<open>None\<close> is success.\<close>

definition apply_seed :: "string \<Rightarrow> gen_config \<Rightarrow> string + gen_config" where
  "apply_seed seed cfg =
     (if seed = [] then Inr cfg
      else case parse_int seed of
             None \<Rightarrow> Inl (''strconv.ParseInt: parsing '' @ quoted seed)
           | Some k \<Rightarrow> Inr (cfg\<lparr>gc_Seed := k\<rparr>))"

definition overridden :: "flags \<Rightarrow> bool" where
  "overridden f \<longleftrightarrow> fl_startTime f \<noteq> [] \<or> fl_seed f \<noteq> [] \<or> fl_deliveryTopic f \<noteq> []"

definition apply_overrides :: "flags \<Rightarrow> gen_config \<Rightarrow> string + gen_config" where
  "apply_overrides f cfg =
     (let cfg1 = (if fl_startTime f \<noteq> [] then cfg\<lparr>gc_StartTime := fl_startTime f\<rparr> else cfg)
      in case apply_seed (fl_seed f) cfg1 of
           Inl err \<Rightarrow> Inl err
         | Inr cfg2 \<Rightarrow>
             let cfg3 = (if fl_deliveryTopic f \<noteq> [] then cfg2\<lparr>gc_DeliveryTopic := fl_deliveryTopic f\<rparr> else cfg2)
             in if overridden f
                then (case config_Validate cfg3 of Some err \<Rightarrow> Inl err | None \<Rightarrow> Inr cfg3)
                else Inr cfg3)"

subsection \<open>The manifest file\<close>

definition enc_label_window :: "label_window \<Rightarrow> encoded" where
  "enc_label_window l = enc_struct
     ([(''type'', enc_string (lw_Type l)), (''start'', enc_string (lw_Start l)), (''end'', enc_string (lw_End l))] @
      unless_empty (lw_Target l = []) ''target'' (enc_string (lw_Target l)) @
      unless_empty (lw_Network l = []) ''network'' (enc_string (lw_Network l)))"

definition enc_manifest :: "manifest \<Rightarrow> encoded" where
  "enc_manifest m = enc_struct
     [(''run_id'', enc_string (mf_RunID m)), (''seed'', enc_int (mf_Seed m)), (''git_commit'', enc_string (mf_GitCommit m)),
      (''simulation_start_utc'', enc_string (mf_SimulationStart m)), (''simulation_end_utc'', enc_string (mf_SimulationEnd m)),
      (''rate_per_second'', enc_int (mf_RatePerSecond m)), (''base_requests'', enc_int (mf_BaseRequests m)),
      (''records_by_topic'', enc_map enc_int (mf_RecordsByTopic m)),
      (''delivery_records_by_key'', enc_map enc_int (mf_DeliveryRecordsByKey m)),
      (''duplicate_records'', enc_int (mf_DuplicateRecords m)), (''schema_error_records'', enc_int (mf_SchemaErrorRecords m)),
      (''expected_label_windows'', enc_list enc_label_window (mf_ExpectedLabels m)),
      (''versions'', enc_map enc_string (mf_Versions m))]"

text \<open>\<open>MarshalIndent\<close> with two spaces: empty containers stay on one line.\<close>

definition new_line :: "nat \<Rightarrow> string" where
  "new_line depth = CHR 0x0A # replicate (2 * depth) CHR '' ''"

fun render_indent :: "nat \<Rightarrow> json \<Rightarrow> string"
  and indent_elements :: "nat \<Rightarrow> json list \<Rightarrow> string"
  and indent_members :: "nat \<Rightarrow> (string \<times> json) list \<Rightarrow> string" where
  "render_indent n (JArr vs) =
     (if vs = [] then ''[]'' else ''['' @ indent_elements (Suc n) vs @ new_line n @ '']'')"
| "render_indent n (JObj ps) =
     (if ps = [] then ''{}'' else ''{'' @ indent_members (Suc n) ps @ new_line n @ ''}'')"
| "render_indent n v = json_render v"
| "indent_elements n [] = []"
| "indent_elements n (v # vs) = new_line n @ render_indent n v @ (if vs = [] then [] else CHR '','' # indent_elements n vs)"
| "indent_members n [] = []"
| "indent_members n ((k, v) # ps) =
     new_line n @ CHR 0x22 # k @ CHR 0x22 # '': '' @ render_indent n v @ (if ps = [] then [] else CHR '','' # indent_members n ps)"

text \<open>\<open>filepath.Dir\<close> of a clean path, and \<open>writeJSON\<close> over the two file operations.\<close>

definition path_dir :: "string \<Rightarrow> string" where
  "path_dir path =
     (let d = rev (dropWhile (\<lambda>c. c \<noteq> CHR ''/'') (rev path))
      in if d = [] then ''.'' else if d = ''/'' then ''/'' else butlast d)"

definition gen_writeJSON ::
    "(string \<Rightarrow> 'w \<Rightarrow> string option \<times> 'w) \<Rightarrow> (string \<Rightarrow> string \<Rightarrow> 'w \<Rightarrow> string option \<times> 'w) \<Rightarrow> string \<Rightarrow> encoded \<Rightarrow> 'w \<Rightarrow> string option \<times> 'w" where
  "gen_writeJSON mkdir writefile path value w =
     (case mkdir (path_dir path) w of
        (Some err, w1) \<Rightarrow>
          if path_dir path \<noteq> ''.'' then (Some err, w1)
          else (case value of
             Inl e \<Rightarrow> (Some e, w1)
           | Inr j \<Rightarrow> writefile path (render_indent 0 j @ [CHR 0x0A]) w1)
      | (None, w1) \<Rightarrow>
          (case value of
             Inl e \<Rightarrow> (Some e, w1)
           | Inr j \<Rightarrow> writefile path (render_indent 0 j @ [CHR 0x0A]) w1))"

subsection \<open>The program\<close>

text \<open>What the program relies on: files, YAML, random numbers seeded by the configuration, cancellation
  by a signal, standard output and the Kafka writer for a list of brokers, over the world \<open>'w\<close> they
  act on.\<close>

record ('s, 'w) gen_platform =
  gp_readfile :: "string \<Rightarrow> string + string"
  gp_yaml :: "string \<Rightarrow> string + gen_config"
  gp_rng :: "'s rng"
  gp_seeded :: "int \<Rightarrow> 's"
  gp_cancelled :: "int \<Rightarrow> string option"
  gp_create :: "string \<Rightarrow> 'w \<Rightarrow> (string + 'w text_writer) \<times> 'w"
  gp_stdout :: "'w text_writer"
  gp_kafka :: "string list \<Rightarrow> 'w message_writer"
  gp_mkdir :: "string \<Rightarrow> 'w \<Rightarrow> string option \<times> 'w"
  gp_writefile :: "string \<Rightarrow> string \<Rightarrow> 'w \<Rightarrow> string option \<times> 'w"

definition gen_config_of :: "('s, 'w) gen_platform \<Rightarrow> flags \<Rightarrow> string + gen_config" where
  "gen_config_of p f =
     (case config_Load (gp_readfile p) (gp_yaml p) (fl_config f) of
        Inl err \<Rightarrow> Inl err
      | Inr (cfg, raw) \<Rightarrow> apply_overrides f cfg)"

text \<open>The switch over the kind of output.\<close>

definition open_target :: "('s, 'w) gen_platform \<Rightarrow> flags \<Rightarrow> 'w \<Rightarrow> (string + 'w target \<times> 'w kafka_sink) \<times> 'w" where
  "open_target p f w =
     (if fl_output f = ''jsonl'' then
        (case NewJSONLines (gp_create p) (gp_stdout p) (fl_outputPath f) w of
           (Inl err, w1) \<Rightarrow> (Inl err, w1)
         | (Inr t, w1) \<Rightarrow> (Inr (Lines t, \<lparr>sk_messages = [], sk_world = w1\<rparr>), w1))
      else if fl_output f = ''kafka'' then
        (case sink_NewKafka (fl_brokers f) w of
           Inl err \<Rightarrow> (Inl err, w)
         | Inr (brokers, s) \<Rightarrow> (Inr (Topics (gp_kafka p brokers), s), w))
      else (Inl (''unsupported output '' @ quoted (fl_output f)), w))"

text \<open>The run into an open sink, which is closed whatever happened; the manifest is written last.\<close>

definition run_into ::
    "('s, 'w) gen_platform \<Rightarrow> (string \<Rightarrow> string) \<Rightarrow> flags \<Rightarrow> generator \<Rightarrow> 'w target \<Rightarrow> 'w kafka_sink \<Rightarrow> string option \<times> 'w" where
  "run_into p getenv f g t s =
     (case generator_Run (gp_rng p) (gp_cancelled p) g (fl_gitCommit f) (componentVersions getenv)
             (target_Write t) (gp_seeded p (gc_Seed (ge_cfg g))) s of
        (manifest, runErr, _, s1) \<Rightarrow>
          (case target_Close t s1 of
             (closeErr, s2) \<Rightarrow>
               (case runErr of
                  Some err \<Rightarrow> (Some err, sk_world s2)
                | None \<Rightarrow>
                    (case closeErr of
                       Some err \<Rightarrow> (Some err, sk_world s2)
                     | None \<Rightarrow>
                         gen_writeJSON (gp_mkdir p) (gp_writefile p) (fl_manifestPath f) (enc_manifest manifest) (sk_world s2)))))"

text \<open>\<open>main\<close>: the error it exits with, if any, and the world it leaves.\<close>

definition generator_main :: "('s, 'w) gen_platform \<Rightarrow> (string \<Rightarrow> string) \<Rightarrow> flags \<Rightarrow> 'w \<Rightarrow> string option \<times> 'w" where
  "generator_main p getenv f w =
     (case gen_config_of p f of
        Inl err \<Rightarrow> (Some err, w)
      | Inr cfg \<Rightarrow>
          (case scenario_New cfg of
             Inl err \<Rightarrow> (Some err, w)
           | Inr g \<Rightarrow>
               (case open_target p f w of
                  (Inl err, w1) \<Rightarrow> (Some err, w1)
                | (Inr (t, s), w1) \<Rightarrow> run_into p getenv f g t s)))"

end
