(* ===== verification/Sink_Props.thy ===== *)
theory Sink_Props
  imports Scenario_Progress GenMain
begin

text \<open>
  What reaches a sink. A sink holds a sequence, and writing a record appends what stands for the
  record; both sinks of the generator are such sinks over writers that append, and a run into one
  delivers the records it generated, in order and nothing else.
\<close>

subsection \<open>Sinks as sequences\<close>

text \<open>\<open>put\<close> writes a record, \<open>contents\<close> is the sequence that the sink holds, \<open>view\<close> what it holds of a
  record.\<close>

locale record_sink =
  fixes put :: "'s emit" and contents :: "'s \<Rightarrow> 'a list" and view :: "event_record \<Rightarrow> 'a list"
  assumes put_appends: "put r s = (None, s') \<Longrightarrow> contents s' = contents s @ view r"
begin

lemma accepted_contents:
  "accepted put rs s = Some s' \<Longrightarrow> contents s' = contents s @ concat (map view rs)"
  by (induction rs arbitrary: s) (auto split: prod.splits option.splits dest: put_appends)

lemma run_contents:
  assumes "generator_Run r cancelled g gitCommit versions put s w = (m, None, s', w')"
  shows "\<exists>rss. generated r g 0 s rss s' \<and> int (length rss) = max 0 (total_requests (ge_cfg g)) \<and>
    accepted put (concat rss) w = Some w' \<and> contents w' = contents w @ concat (map view (concat rss))"
proof -
  obtain rss where "generated r g 0 s rss s'" "int (length rss) = max 0 (total_requests (ge_cfg g))"
      "accepted put (concat rss) w = Some w'"
    using run_loop_result [OF assms [unfolded generator_Run_def]] by auto
  then show ?thesis using accepted_contents by blast
qed

end

subsection \<open>The Kafka sink\<close>

text \<open>A writer that appends to a log of batches, which is what \<open>WriteMessages\<close> promises when it reports
  success, and whose \<open>Close\<close> adds nothing.\<close>

definition batch_log :: "'w message_writer \<Rightarrow> ('w \<Rightarrow> sink_message list list) \<Rightarrow> bool" where
  "batch_log k batches \<longleftrightarrow>
     (\<forall>ms w w'. mw_write k ms w = (None, w') \<longrightarrow> batches w' = batches w @ [ms]) \<and>
     (\<forall>w e w'. mw_close k w = (e, w') \<longrightarrow> batches w' = batches w)"

text \<open>What was delivered and what is still buffered.\<close>

definition queued :: "('w \<Rightarrow> sink_message list list) \<Rightarrow> 'w kafka_sink \<Rightarrow> sink_message list" where
  "queued batches s = concat (batches (sk_world s)) @ sk_messages s"

lemma flush_result:
  assumes "batch_log k batches" "kafka_flush k s = (None, s')"
  shows "sk_messages s' = []"
    "batches (sk_world s') = batches (sk_world s) @ (if sk_messages s = [] then [] else [sk_messages s])"
  using assms by (auto simp: kafka_flush_def batch_log_def split: if_splits prod.splits option.splits)

lemma flush_error: "kafka_flush k s = (Some err, s') \<Longrightarrow> sk_messages s' = sk_messages s"
  by (auto simp: kafka_flush_def split: if_splits prod.splits option.splits)

lemma queued_flush:
  "batch_log k batches \<Longrightarrow> kafka_flush k s = (None, s') \<Longrightarrow> queued batches s' = queued batches s"
  using flush_result [of k batches s s'] by (simp add: queued_def)

lemma queued_Write:
  assumes "batch_log k batches" "kafka_Write k r s = (None, s')"
  shows "queued batches s' = queued batches s @ [message_of r]"
  using assms queued_flush [OF assms(1), of "s\<lparr>sk_messages := sk_messages s @ [message_of r]\<rparr>" s']
  by (auto simp: kafka_Write_def Let_def queued_def split: if_splits)

lemma kafka_record_sink:
  "batch_log k batches \<Longrightarrow> record_sink (kafka_Write k) (queued batches) (\<lambda>r. [message_of r])"
  by unfold_locales (simp add: queued_Write)

text \<open>Full batches but for the one in the buffer.\<close>

definition full_batches :: "sink_message list list \<Rightarrow> bool" where
  "full_batches bs \<longleftrightarrow> (\<forall>b \<in> set bs. length b = kafkaBatchSize)"

lemma Write_batches:
  assumes "batch_log k batches" "kafka_Write k r s = (None, s')" "length (sk_messages s) < kafkaBatchSize"
  shows "length (sk_messages s') < kafkaBatchSize \<and>
    (\<exists>bs. batches (sk_world s') = batches (sk_world s) @ bs \<and> full_batches bs)"
proof (cases "length (sk_messages s) + 1 < kafkaBatchSize")
  case True
  then show ?thesis using assms(2)
    by (auto simp: kafka_Write_def Let_def full_batches_def intro: exI [of _ "[]"])
next
  case False
  let ?s = "s\<lparr>sk_messages := sk_messages s @ [message_of r]\<rparr>"
  have "length (sk_messages ?s) = kafkaBatchSize" using False assms(3) by simp
  moreover have "kafka_flush k ?s = (None, s')" using False assms(2) by (simp add: kafka_Write_def)
  note flush_result [OF assms(1) this]
  ultimately show ?thesis by (auto simp: full_batches_def kafkaBatchSize_def)
qed

lemma accepted_batches:
  assumes "batch_log k batches" "accepted (kafka_Write k) rs s = Some s'" "length (sk_messages s) < kafkaBatchSize"
  shows "length (sk_messages s') < kafkaBatchSize \<and>
    (\<exists>bs. batches (sk_world s') = batches (sk_world s) @ bs \<and> full_batches bs)"
  using assms(2,3)
proof (induction rs arbitrary: s)
  case Nil
  then show ?case by (auto simp: full_batches_def)
next
  case (Cons r rs)
  then obtain u where u: "kafka_Write k r s = (None, u)" "accepted (kafka_Write k) rs u = Some s'"
    by (auto split: prod.splits option.splits)
  from Write_batches [OF assms(1) u(1) Cons.prems(2)] obtain bs where
    bs: "length (sk_messages u) < kafkaBatchSize" "batches (sk_world u) = batches (sk_world s) @ bs" "full_batches bs"
    by auto
  from Cons.IH [OF u(2) bs(1)] obtain cs where
    "length (sk_messages s') < kafkaBatchSize" "batches (sk_world s') = batches (sk_world u) @ cs" "full_batches cs"
    by auto
  then show ?case using bs by (auto simp: full_batches_def)
qed

lemma Close_result:
  assumes "batch_log k batches" "kafka_sink_Close k s = (None, s')"
  shows "batches (sk_world s') = batches (sk_world s) @ (if sk_messages s = [] then [] else [sk_messages s])"
proof -
  obtain e s1 where f: "kafka_flush k s = (e, s1)" by fastforce
  obtain c w where w: "mw_close k (sk_world s1) = (c, w)" by fastforce
  have "e = None" "sk_world s' = w" using assms(2) f w by (auto simp: kafka_sink_Close_def split: option.splits)
  moreover have "batches w = batches (sk_world s1)" using assms(1) w by (auto simp: batch_log_def)
  ultimately show ?thesis using flush_result [OF assms(1)] f by simp
qed

text \<open>C28: The Kafka sink delivers what was written to it. If every write and the final close succeed,
  the writer got the messages of exactly the records written, in order, in batches of 500 and a last
  one that is not larger; a write that fails keeps its message in the buffer, for the close to try
  again.\<close>

theorem kafka_sink_delivers:
  assumes "batch_log k batches" "sk_messages s = []"
    "accepted (kafka_Write k) rs s = Some s1" "kafka_sink_Close k s1 = (None, s2)"
  shows "(\<exists>bs rest. batches (sk_world s2) = batches (sk_world s) @ bs @ rest \<and> concat (bs @ rest) = map message_of rs \<and>
      (\<forall>b \<in> set bs. length b = 500) \<and> (rest = [] \<or> (\<exists>b. rest = [b] \<and> 0 < length b \<and> length b < 500))) \<and>
    (\<forall>r q err q'. kafka_Write k r q = (Some err, q') \<longrightarrow> sk_messages q' = sk_messages q @ [message_of r])"
proof (rule conjI)
  show "\<forall>r q err q'. kafka_Write k r q = (Some err, q') \<longrightarrow> sk_messages q' = sk_messages q @ [message_of r]"
    using flush_error by (fastforce simp: kafka_Write_def Let_def split: if_splits)
  have "length (sk_messages s) < kafkaBatchSize" using assms(2) by (simp add: kafkaBatchSize_def)
  from accepted_batches [OF assms(1,3) this] obtain bs where
    bs: "length (sk_messages s1) < 500" "batches (sk_world s1) = batches (sk_world s) @ bs" "\<forall>b \<in> set bs. length b = 500"
    by (auto simp: full_batches_def kafkaBatchSize_def)
  have "queued batches s1 = queued batches s @ map message_of rs"
    using record_sink.accepted_contents [OF kafka_record_sink [OF assms(1)] assms(3)] by (simp add: concat_map_singleton)
  then have "concat bs @ sk_messages s1 = map message_of rs" using bs assms(2) by (simp add: queued_def)
  then show "\<exists>bs rest. batches (sk_world s2) = batches (sk_world s) @ bs @ rest \<and> concat (bs @ rest) = map message_of rs \<and>
      (\<forall>b \<in> set bs. length b = 500) \<and> (rest = [] \<or> (\<exists>b. rest = [b] \<and> 0 < length b \<and> length b < 500))"
    using Close_result [OF assms(1,4)] bs
    by - (rule exI [where x = bs], rule exI [where x = "if sk_messages s1 = [] then [] else [sk_messages s1]"], auto)
qed

text \<open>A writer that keeps every batch.\<close>

definition log_writer :: "sink_message list list message_writer" where
  "log_writer = \<lparr>mw_write = (\<lambda>ms w. (None, w @ [ms])), mw_close = (\<lambda>w. (None, w))\<rparr>"

lemma log_writer_logs: "batch_log log_writer id"
  by (simp add: batch_log_def log_writer_def)

interpretation kafka_log: record_sink "kafka_Write log_writer" "queued id" "\<lambda>r. [message_of r]"
  by (rule kafka_record_sink [OF log_writer_logs])

definition sample_record :: event_record where
  "sample_record = \<lparr>ev_Topic = ''cdn.player.v1'', ev_Key = ''k'', ev_Value = ''{}'', ev_Duplicate = False, ev_SchemaInvalid = False\<rparr>"

lemma kafka_sink_delivers_witness:
  "\<exists>bs rest. [[message_of sample_record, message_of sample_record]] = [] @ bs @ rest \<and>
     concat (bs @ rest) = map message_of [sample_record, sample_record]"
proof -
  let ?s = "\<lparr>sk_messages = [], sk_world = []\<rparr>"
  let ?s1 = "\<lparr>sk_messages = [message_of sample_record, message_of sample_record], sk_world = []\<rparr>"
  have "accepted (kafka_Write log_writer) [sample_record, sample_record] ?s = Some ?s1"
    by (simp add: kafka_Write_def kafkaBatchSize_def)
  moreover have "kafka_sink_Close log_writer ?s1 = (None, \<lparr>sk_messages = [], sk_world = [sk_messages ?s1]\<rparr>)"
    by (simp add: kafka_sink_Close_def kafka_flush_def log_writer_def)
  ultimately show ?thesis
    using kafka_sink_delivers [OF log_writer_logs, of ?s "[sample_record, sample_record]" ?s1] by auto
qed

subsection \<open>The JSON lines sink\<close>

text \<open>A text writer that appends what it accepts.\<close>

definition text_log :: "'w text_writer \<Rightarrow> ('w \<Rightarrow> string) \<Rightarrow> bool" where
  "text_log t written \<longleftrightarrow> (\<forall>x w w'. tw_write t x w = (None, w') \<longrightarrow> written w' = written w @ x)"

text \<open>The line of a record.\<close>

definition line_of :: "event_record \<Rightarrow> string" where
  "line_of r = (case marshal (enc_envelope r) of Inl err \<Rightarrow> [] | Inr x \<Rightarrow> x @ [CHR 0x0A])"

lemma lines_record_sink:
  assumes "text_log t written"
  shows "record_sink (target_Write (Lines t)) (\<lambda>s. written (sk_world s)) line_of"
proof
  fix r and s s' :: "'a kafka_sink"
  assume "target_Write (Lines t) r s = (None, s')"
  then obtain x w where "marshal (enc_envelope r) = Inr x" "tw_write t (x @ [CHR 0x0A]) (sk_world s) = (None, w)" "sk_world s' = w"
    by (auto simp: on_world_def lines_Write_def split: sum.splits prod.splits)
  then show "written (sk_world s') = written (sk_world s) @ line_of r"
    using assms by (simp add: text_log_def line_of_def)
qed

definition memory_text :: "string text_writer" where
  "memory_text = \<lparr>tw_write = (\<lambda>x w. (None, w @ x)), tw_flush = (\<lambda>w. (None, w)), tw_close = None\<rparr>"

interpretation lines_log: record_sink "target_Write (Lines memory_text)" sk_world line_of
  by (rule lines_record_sink) (simp add: text_log_def memory_text_def)

subsection \<open>The program\<close>

lemma gen_config_valid:
  assumes "gen_config_of p f = Inr cfg" shows "config_Validate cfg = None"
proof -
  obtain c raw where c: "config_Load (gp_readfile p) (gp_yaml p) (fl_config f) = Inr (c, raw)" "apply_overrides f c = Inr cfg"
    using assms by (auto simp: gen_config_of_def split: sum.splits)
  have v: "config_Validate c = None" using c(1) by (auto simp: config_Load_def split: sum.splits option.splits)
  show ?thesis
  proof (cases "overridden f")
    case True
    then show ?thesis using c(2) by (auto simp: apply_overrides_def Let_def split: sum.splits option.splits)
  next
    case False
    then have "cfg = c" using c(2) by (auto simp: apply_overrides_def overridden_def apply_seed_def Let_def)
    then show ?thesis using v by simp
  qed
qed

text \<open>A file system that keeps what is written to a file, and leaves the broker alone.\<close>

definition file_log :: "('s, 'w) gen_platform \<Rightarrow> ('w \<Rightarrow> string \<Rightarrow> string option) \<Rightarrow> ('w \<Rightarrow> 'b) \<Rightarrow> bool" where
  "file_log p files batches \<longleftrightarrow>
     (\<forall>d w. batches (snd (gp_mkdir p d w)) = batches w) \<and>
     (\<forall>path x w e w'. gp_writefile p path x w = (e, w') \<longrightarrow> batches w' = batches w \<and> (e = None \<longrightarrow> files w' path = Some x))"

lemma writeJSON_result:
  assumes "file_log p files batches" "gen_writeJSON (gp_mkdir p) (gp_writefile p) path v w = (None, w')"
  shows "\<exists>j. v = Inr j \<and> files w' path = Some (render_indent 0 j @ [CHR 0x0A]) \<and> batches w' = batches w"
proof -
  obtain e u where u: "gp_mkdir p (path_dir path) w = (e, u)" by fastforce
  have b: "batches u = batches w" using assms(1) u unfolding file_log_def by (metis snd_conv)
  obtain j where j: "v = Inr j" "gp_writefile p path (render_indent 0 j @ [CHR 0x0A]) u = (None, w')"
    using assms(2) u by (auto simp: gen_writeJSON_def split: option.splits if_splits sum.splits)
  then show ?thesis using assms(1) b by (auto simp: file_log_def)
qed

lemma open_topics:
  assumes "open_target p f w = (Inr (t, s), w1)" "fl_output f = ''kafka''"
  shows "\<exists>brokers. t = Topics (gp_kafka p brokers) \<and> s = \<lparr>sk_messages = [], sk_world = w\<rparr>"
  using assms by (auto simp: open_target_def sink_NewKafka_def Let_def split: sum.splits if_splits)

text \<open>C27: A run of the program into Kafka that exits without an error had a valid configuration,
  generated every request of it, and delivered exactly the records of these requests, in order; the
  manifest file counts them by topic.\<close>

theorem generator_delivers:
  assumes "\<And>brokers. batch_log (gp_kafka p brokers) batches" "file_log p files batches" "fl_output f = ''kafka''"
    "generator_main p getenv f w = (None, w')"
  shows "\<exists>cfg g rss s m j bs. gen_config_of p f = Inr cfg \<and> config_Validate cfg = None \<and> scenario_New cfg = Inr g \<and>
    generated (gp_rng p) g 0 (gp_seeded p (gc_Seed cfg)) rss s \<and> int (length rss) = max 0 (total_requests cfg) \<and>
    batches w' = batches w @ bs \<and> concat bs = map message_of (concat rss) \<and>
    enc_manifest m = Inr j \<and> files w' (fl_manifestPath f) = Some (render_indent 0 j @ [CHR 0x0A]) \<and>
    (\<forall>t. mget 0 (mf_RecordsByTopic m) t = count_of (\<lambda>r. ev_Topic r = t) (concat rss))"
proof -
  obtain cfg g t s w1 where c: "gen_config_of p f = Inr cfg" "scenario_New cfg = Inr g" "open_target p f w = (Inr (t, s), w1)"
      "run_into p getenv f g t s = (None, w')"
    using assms(4) by (auto simp: generator_main_def split: sum.splits prod.splits)
  have g: "ge_cfg g = cfg" using c(2) by (auto simp: scenario_New_def split: sum.splits)
  obtain brokers where t: "t = Topics (gp_kafka p brokers)" "s = \<lparr>sk_messages = [], sk_world = w\<rparr>"
    using open_topics [OF c(3) assms(3)] by blast
  define k where "k = gp_kafka p brokers"
  have k: "batch_log k batches" using assms(1) by (simp add: k_def)
  have put: "target_Write t = kafka_Write k" by (intro ext) (simp add: t k_def)
  obtain m e rs s1 where run: "generator_Run (gp_rng p) (gp_cancelled p) g (fl_gitCommit f) (componentVersions getenv) (kafka_Write k)
      (gp_seeded p (gc_Seed (ge_cfg g))) s = (m, e, rs, s1)" by (metis prod_cases4)
  obtain ce s2 where cl: "kafka_sink_Close k s1 = (ce, s2)" by fastforce
  have ok: "e = None" "ce = None" "gen_writeJSON (gp_mkdir p) (gp_writefile p) (fl_manifestPath f) (enc_manifest m) (sk_world s2) = (None, w')"
    using c(4) cl unfolding run_into_def put run by (auto simp: t k_def split: option.splits)
  obtain j where j: "enc_manifest m = Inr j" "files w' (fl_manifestPath f) = Some (render_indent 0 j @ [CHR 0x0A])"
      "batches w' = batches (sk_world s2)"
    using writeJSON_result [OF assms(2) ok(3)] by blast
  obtain rss part where "fold (count_record (ge_cfg g)) (concat rss @ part) (initial_manifest g (fl_gitCommit f) (componentVersions getenv)) = m"
      "part = [] \<and> generated (gp_rng p) g 0 (gp_seeded p (gc_Seed (ge_cfg g))) rss rs \<and> int (length rss) = max 0 (total_requests (ge_cfg g)) \<and>
       accepted (kafka_Write k) (concat rss) s = Some s1"
    using run_loop_result [OF run [unfolded generator_Run_def]] ok(1) by auto
  then have m: "fold (count_record (ge_cfg g)) (concat rss) (initial_manifest g (fl_gitCommit f) (componentVersions getenv)) = m"
      and r: "generated (gp_rng p) g 0 (gp_seeded p (gc_Seed cfg)) rss rs" "int (length rss) = max 0 (total_requests cfg)"
      "accepted (kafka_Write k) (concat rss) s = Some s1"
    using g by auto
  have count: "mget 0 (mf_RecordsByTopic m) t = count_of (\<lambda>r. ev_Topic r = t) (concat rss)" for t
    unfolding m [symmetric] count_fold(1) by (simp add: initial_manifest_def Let_def mget_empty count_of_def)
  obtain bs where bs: "batches (sk_world s1) = batches (sk_world s) @ bs"
    using accepted_batches [OF k r(3)] t(2) by (auto simp: kafkaBatchSize_def)
  have "queued batches s1 = queued batches s @ map message_of (concat rss)"
    using record_sink.accepted_contents [OF kafka_record_sink [OF k] r(3)] by (simp add: concat_map_singleton)
  then have "concat bs @ sk_messages s1 = map message_of (concat rss)" using bs t(2) by (simp add: queued_def)
  moreover have "batches (sk_world s2) = batches w @ bs @ (if sk_messages s1 = [] then [] else [sk_messages s1])"
    using Close_result [OF k cl [unfolded ok(2)]] bs t(2) by simp
  ultimately have "\<exists>bs. batches w' = batches w @ bs \<and> concat bs = map message_of (concat rss)"
    using j(3) by (intro exI [of _ "bs @ (if sk_messages s1 = [] then [] else [sk_messages s1])"]) auto
  then show ?thesis using c(1,2) gen_config_valid [OF c(1)] r(1,2) j(1,2) count by blast
qed

subsection \<open>A sample of the program\<close>

type_synonym memory = "sink_message list list \<times> (string \<times> string) list"

definition memory_kafka :: "memory message_writer" where
  "memory_kafka = \<lparr>mw_write = (\<lambda>ms w. (None, apfst (\<lambda>l. l @ [ms]) w)), mw_close = (\<lambda>w. (None, w))\<rparr>"

definition memory_stdout :: "memory text_writer" where
  "memory_stdout = \<lparr>tw_write = (\<lambda>x w. (None, w)), tw_flush = (\<lambda>w. (None, w)), tw_close = None\<rparr>"

definition memory_platform :: "(unit, memory) gen_platform" where
  "memory_platform =
     \<lparr>gp_readfile = (\<lambda>path. Inr []), gp_yaml = (\<lambda>raw. Inr sample_config), gp_rng = sample_rng, gp_seeded = (\<lambda>seed. ()),
      gp_cancelled = (\<lambda>i. None), gp_create = (\<lambda>path w. (Inr memory_stdout, w)), gp_stdout = memory_stdout,
      gp_kafka = (\<lambda>brokers. memory_kafka), gp_mkdir = (\<lambda>d w. (None, w)),
      gp_writefile = (\<lambda>path x w. (None, apsnd ((#) (path, x)) w))\<rparr>"

definition memory_file :: "memory \<Rightarrow> string \<Rightarrow> string option" where
  "memory_file w = map_of (snd w)"

definition kafka_flags :: flags where
  "kafka_flags = (default_flags (\<lambda>k. []))\<lparr>fl_output := ''kafka''\<rparr>"

lemma memory_logs: "batch_log (gp_kafka memory_platform brokers) fst" "file_log memory_platform memory_file fst"
  by (auto simp: batch_log_def file_log_def memory_platform_def memory_kafka_def memory_file_def)

lemma memory_Write: "fst (kafka_Write memory_kafka r s) = None"
  by (simp add: kafka_Write_def kafka_flush_def memory_kafka_def Let_def)

lemma memory_Close: "fst (kafka_sink_Close memory_kafka s) = None"
  by (simp add: kafka_sink_Close_def kafka_flush_def memory_kafka_def split: prod.split)

lemma enc_manifest_ok: "encodes (enc_manifest m)"
  by (simp add: enc_manifest_def enc_label_window_def list_all_iff unless_empty_def)

lemma sample_load: "gen_config_of memory_platform kafka_flags = Inr sample_config"
  by (simp add: gen_config_of_def config_Load_def memory_platform_def sample_config_valid apply_overrides_def apply_seed_def
      overridden_def kafka_flags_def default_flags_def Let_def)

lemma sample_main: "\<exists>w'. generator_main memory_platform (\<lambda>k. []) kafka_flags w = (None, w')"
proof -
  have put: "target_Write (Topics memory_kafka) = kafka_Write memory_kafka" by (intro ext) simp
  define s0 where "s0 = \<lparr>sk_messages = [], sk_world = w\<rparr>"
  obtain m s' s1 where run: "generator_Run sample_rng (\<lambda>i. None) sample_generator (fl_gitCommit kafka_flags) (componentVersions (\<lambda>k. []))
      (kafka_Write memory_kafka) () s0 = (m, None, s', s1)"
    using sample_run_ok [of "kafka_Write memory_kafka"] memory_Write by blast
  obtain s2 where cl: "kafka_sink_Close memory_kafka s1 = (None, s2)"
    using memory_Close [of s1] by (cases "kafka_sink_Close memory_kafka s1") simp
  obtain j where j: "enc_manifest m = Inr j" using enc_manifest_ok [of m] by (auto simp: encodes_def)
  have main: "\<exists>w'. run_into memory_platform (\<lambda>k. []) kafka_flags sample_generator (Topics memory_kafka) s0 = (None, w')"
    unfolding run_into_def put using run cl j
    by (simp add: memory_platform_def gen_writeJSON_def)
  have "fl_brokers kafka_flags = ''localhost:9092''" "fl_output kafka_flags = ''kafka''"
    by (simp_all add: kafka_flags_def default_flags_def)
  moreover have "sink_NewKafka ''localhost:9092'' w = Inr ([''localhost:9092''], s0)"
    unfolding s0_def sink_NewKafka_def by (simp add: Let_def trim_space_def trim_right_def is_space_def)
  ultimately have "open_target memory_platform kafka_flags w = (Inr (Topics memory_kafka, s0), w)"
    by (simp add: open_target_def memory_platform_def)
  then show ?thesis using main sample_load by (simp add: generator_main_def sample_New)
qed

lemma generator_delivers_witness:
  "\<exists>w' bs rss. generator_main memory_platform (\<lambda>k. []) kafka_flags ([], []) = (None, w') \<and> length rss = 5 \<and>
     fst w' = bs \<and> concat bs = map message_of (concat rss)"
proof -
  obtain w' where main: "generator_main memory_platform (\<lambda>k. []) kafka_flags ([], []) = (None, w')"
    using sample_main by blast
  have out: "fl_output kafka_flags = ''kafka''" by (simp add: kafka_flags_def)
  obtain cfg rss bs where "gen_config_of memory_platform kafka_flags = Inr cfg" "int (length rss) = max 0 (total_requests cfg)"
      "fst w' = bs" "concat bs = map message_of (concat rss)"
    using generator_delivers [OF memory_logs(1) memory_logs(2) out main] by auto
  then show ?thesis using main sample_load sample_total by auto
qed

end
