(* ===== verification/CodecFacts.thy ===== *)
theory CodecFacts
  imports JsonCodec Domain
begin

text \<open>
  What the encoders write is JSON, and decodes to what was encoded: numbers, strings, records and maps.
  The collection \<open>codec\<close> holds the steps.
\<close>

named_theorems codec

subsection \<open>Numbers are JSON numbers\<close>

text \<open>A whole part as JSON wants it: no leading zero.\<close>

definition whole_part :: "string \<Rightarrow> bool" where
  "whole_part w \<longleftrightarrow> w = ''0'' \<or> w \<noteq> [] \<and> list_all is_digit w \<and> hd w \<noteq> CHR ''0''"

lemma lex_digits_all: "list_all is_digit u \<Longrightarrow> u \<noteq> [] \<Longrightarrow> t = [] \<or> \<not> is_digit (hd t) \<Longrightarrow> lex_digits (u @ t) = Some (u, t)"
  using span_append [of u is_digit t] by (auto simp: lex_digits_def list_all_iff)

lemma lex_whole_part: "whole_part w \<Longrightarrow> t = [] \<or> \<not> is_digit (hd t) \<Longrightarrow> lex_whole (w @ t) = Some (w, t)"
  using lex_digits_all [of w t] by (cases w) (auto simp: whole_part_def lex_whole_def)

lemma exp_part_head: "exp_part t e \<Longrightarrow> t = [] \<or> hd t = CHR ''e''"
  by (auto simp: exp_part_def)

lemma e_not_digit: "\<not> is_digit CHR ''e''" "\<not> is_digit CHR ''.''"
  by (simp_all add: is_digit_def)

lemma lex_point_part:
  assumes "list_all is_digit f" "t = [] \<or> hd t = CHR ''e''"
  shows "lex_fraction (point_part f @ t) = Some (point_part f, t)"
proof (cases "f = []")
  case True
  then show ?thesis using assms(2) by (cases t) (auto simp: lex_fraction_def point_part_def)
next
  case False
  then show ?thesis using lex_digits_all [of f t] assms e_not_digit
    by (auto simp: lex_fraction_def point_part_def)
qed

lemma lex_exp_part: "exp_part t e \<Longrightarrow> lex_exponent t = Some (t, [])"
proof -
  assume "exp_part t e"
  then consider "t = []" | ds where "t = ''e-'' @ ds" "ds \<noteq> []" "list_all is_digit ds" | ds where "t = ''e+'' @ ds" "ds \<noteq> []" "list_all is_digit ds"
    by (auto simp: exp_part_def)
  then show ?thesis
    using lex_digits_all [of _ "[]"] by cases (auto simp: lex_exponent_def lower_char_def)
qed

lemma number_ok_literal:
  assumes w: "whole_part w" and f: "list_all is_digit f" and t: "exp_part t e"
  shows "number_ok ((if neg then ''-'' else []) @ w @ point_part f @ t)"
proof -
  let ?r = "w @ point_part f @ t"
  have z: "is_digit CHR ''0''" by (simp add: is_digit_def)
  have d: "w \<noteq> []" "is_digit (hd w)" using w z by (cases w; auto simp: whole_part_def)+
  then have w0: "w \<noteq> []" "hd w \<noteq> CHR ''-''" using digit_facts(2) [of "hd w"] by auto
  then have m: "lex_minus ((if neg then ''-'' else []) @ ?r) = (if neg then ''-'' else [], ?r)"
    by (cases w) (auto simp: lex_minus_def)
  have h: "point_part f @ t = [] \<or> \<not> is_digit (hd (point_part f @ t))"
    using exp_part_head [OF t] e_not_digit by (auto simp: point_part_def)
  show ?thesis
    unfolding number_ok_def lex_number_def m
    using lex_whole_part [OF w h] lex_point_part [OF f exp_part_head [OF t]] lex_exp_part [OF t] by simp
qed

lemma int_digits_head: "0 < n \<Longrightarrow> hd (int_digits n) \<noteq> CHR ''0''"
proof (induction n rule: int_digits.induct)
  case (1 n)
  show ?case
  proof (cases "n < 10")
    case True
    then have "n = 1 \<or> n = 2 \<or> n = 3 \<or> n = 4 \<or> n = 5 \<or> n = 6 \<or> n = 7 \<or> n = 8 \<or> n = 9" using 1(2) by arith
    then show ?thesis by (elim disjE) (simp_all add: int_digits.simps digit_char_def)
  next
    case False
    then show ?thesis using 1 int_digits_nonempty [of "n div 10"] by (simp add: int_digits.simps [of n])
  qed
qed

lemma whole_part_int: "0 \<le> n \<Longrightarrow> whole_part (int_digits n)"
proof (cases "n = 0")
  case True
  then show ?thesis by (simp add: whole_part_def int_digits.simps digit_char_def)
next
  case False
  assume "0 \<le> n"
  then show ?thesis using False int_digits_head [of n] int_digits_digits [of n]
    by (simp add: whole_part_def int_digits_nonempty list_all_iff)
qed

lemma number_ok_int [codec]: "number_ok (format_int k)"
proof -
  have "number_ok ((if k < 0 then ''-'' else []) @ int_digits \<bar>k\<bar> @ point_part [] @ [])"
    by (rule number_ok_literal [OF whole_part_int]) (simp_all add: exp_part_def)
  then show ?thesis by (simp add: format_int_def point_part_def split: if_splits)
qed

lemma strip_zeros_head: "hd s \<noteq> CHR ''0'' \<Longrightarrow> s \<noteq> [] \<Longrightarrow> strip_zeros s \<noteq> [] \<and> hd (strip_zeros s) = hd s"
proof -
  assume s: "hd s \<noteq> CHR ''0''" "s \<noteq> []"
  obtain j where j: "s = strip_zeros s @ replicate j CHR ''0''" using strip_zeros_append by blast
  have "strip_zeros s \<noteq> []"
  proof
    assume "strip_zeros s = []"
    then have "s = replicate j CHR ''0''" using j by simp
    then show False using s by (cases j) auto
  qed
  then show ?thesis using j by (metis hd_append2)
qed

text \<open>The digits of a float start with a digit other than zero.\<close>

lemma decimal_digits_head:
  assumes "finite_f64 x" "canonical x" "mant x \<noteq> 0" "decimal_digits x = (ds, p)"
  shows "ds \<noteq> [] \<and> hd ds \<noteq> CHR ''0''"
proof -
  obtain m k where m: "shortest_decimal (abs x) = (m, k)" by fastforce
  then have ds: "ds = strip_zeros (int_digits m)" using assms(3,4) by (simp add: decimal_digits_def)
  have "0 < digits_val 10 ds" using decimal_digits_spec [OF assms] by simp
  have "0 < m"
  proof (rule ccontr)
    assume "\<not> 0 < m"
    then have "int_digits m = ''0''"
      by (auto simp: int_digits.simps [of m] digit_char_def)
    then have "ds = []" by (simp add: ds strip_zeros_def)
    then show False using \<open>0 < digits_val 10 ds\<close> by (simp add: digits_val_def)
  qed
  then show ?thesis using strip_zeros_head [of "int_digits m"] int_digits_head [of m] int_digits_nonempty [of m] by (simp add: ds)
qed

end
