(* ===== verification/Calendar.thy ===== *)
theory Calendar
  imports GoText
begin

text \<open>
  Timestamps survive the round trip through text: \<open>parse_rfc3339\<close> reads what \<open>RFC3339Nano\<close> writes, for
  the years 0 to 9999. The calendar part compares the closed formula for the year with the days
  before each of the 400 years of an era; the formula grows with the day, so the ends of the years decide.
\<close>

subsection \<open>Years and days of an era\<close>

text \<open>The days before the year \<open>y\<close> of an era, years counted from March.\<close>

definition days_before :: "int \<Rightarrow> int" where
  "days_before y = 365 * y + y div 4 - y div 100 + (if y = 400 then 1 else 0)"

definition year_num :: "int \<Rightarrow> int" where
  "year_num doe = doe - doe div 1460 + doe div 36524 - doe div 146096"

definition leap :: "int \<Rightarrow> bool" where
  "leap y \<longleftrightarrow> y mod 4 = 0 \<and> (y mod 100 \<noteq> 0 \<or> y mod 400 = 0)"

lemma div_growth: "0 < n \<Longrightarrow> a \<le> b \<Longrightarrow> b div n - a div n \<le> b - a" for a b n :: int
proof -
  assume n: "0 < n" and ab: "a \<le> b"
  have "b - a \<le> n * (b - a)" using n ab by (simp add: mult_le_cancel_right1)
  then have "b div n \<le> (a + n * (b - a)) div n" using n by (intro zdiv_mono1) simp_all
  also have "\<dots> = a div n + (b - a)" using n by simp
  finally show ?thesis by simp
qed

lemma year_num_mono: assumes "a \<le> b" shows "year_num a \<le> year_num b"
proof -
  have q: "a div 146096 = a div 36524 div 4" "b div 146096 = b div 36524 div 4"
    by (simp_all add: zdiv_zmult2_eq)
  have "a div 36524 \<le> b div 36524" using assms by (intro zdiv_mono1) simp_all
  then show ?thesis
    using div_growth [of 1460 a b] div_growth [of 4 "a div 36524" "b div 36524"] assms by (simp add: year_num_def q)
qed

lemma year_checks:
  "list_all (\<lambda>y. year_num (days_before y) div 365 = y \<and> year_num (days_before (y + 1) - 1) div 365 = y \<and>
     days_before (y + 1) - days_before y = (if leap (y + 1) then 366 else 365)) [0..399]"
  by code_simp

lemma year_check:
  assumes "0 \<le> y" "y < 400"
  shows "year_num (days_before y) div 365 = y \<and> year_num (days_before (y + 1) - 1) div 365 = y \<and>
     days_before (y + 1) - days_before y = (if leap (y + 1) then 366 else 365)"
  using year_checks assms unfolding list_all_iff by simp

text \<open>Every day of an era is in the year that the formula gives.\<close>

lemma year_exists:
  assumes "0 \<le> doe" "doe < 146097" obtains y where "0 \<le> y" "y < 400" "days_before y \<le> doe" "doe < days_before (y + 1)"
proof -
  have "\<exists>y. 0 \<le> y \<and> y < int n \<and> days_before y \<le> doe \<and> doe < days_before (y + 1)" if "n \<le> 400" "doe < days_before (int n)" for n
    using that
  proof (induction n)
    case 0
    then show ?case using assms by (simp add: days_before_def)
  next
    case (Suc n)
    show ?case
    proof (cases "doe < days_before (int n)")
      case True
      then obtain y where "0 \<le> y" "y < int n" "days_before y \<le> doe" "doe < days_before (y + 1)" using Suc by auto
      then show ?thesis by (intro exI [of _ y]) simp
    next
      case False
      then show ?thesis using Suc.prems by (intro exI [of _ "int n"]) (simp add: add.commute)
    qed
  qed
  from this [of 400] show thesis using assms that by (auto simp: days_before_def)
qed

lemma year_formula:
  assumes "0 \<le> y" "y < 400" "days_before y \<le> doe" "doe < days_before (y + 1)"
  shows "year_num doe div 365 = y"
proof -
  note c = year_check [OF assms(1,2)]
  have "year_num (days_before y) div 365 \<le> year_num doe div 365"
    using assms by (intro zdiv_mono1 year_num_mono) simp_all
  moreover have "year_num doe div 365 \<le> year_num (days_before (y + 1) - 1) div 365"
    using assms by (intro zdiv_mono1 year_num_mono) simp_all
  ultimately show ?thesis using c by simp
qed

subsection \<open>Months and days\<close>

text \<open>The month, counted from March, and the day of the month of a day of the year; the last two months
  belong to the next calendar year.\<close>

definition month_of :: "int \<Rightarrow> int" where
  "month_of doy = (let mp = (5 * doy + 2) div 153 in if mp < 10 then mp + 3 else mp - 9)"

definition day_of :: "int \<Rightarrow> int" where
  "day_of doy = (let mp = (5 * doy + 2) div 153 in doy - (153 * mp + 2) div 5 + 1)"

lemma day_checks:
  "list_all (\<lambda>doy. 1 \<le> month_of doy \<and> month_of doy \<le> 12 \<and> 1 \<le> day_of doy \<and>
     day_of doy \<le> (if month_of doy = 2 then (if doy = 365 then 29 else 28) else days_in_month 1 (month_of doy)) \<and>
     (153 * (if 2 < month_of doy then month_of doy - 3 else month_of doy + 9) + 2) div 5 + day_of doy - 1 = doy) [0..365]"
  by code_simp

lemma day_check:
  assumes "0 \<le> doy" "doy \<le> 365"
  shows "1 \<le> month_of doy \<and> month_of doy \<le> 12 \<and> 1 \<le> day_of doy \<and>
     day_of doy \<le> (if month_of doy = 2 then (if doy = 365 then 29 else 28) else days_in_month 1 (month_of doy)) \<and>
     (153 * (if 2 < month_of doy then month_of doy - 3 else month_of doy + 9) + 2) div 5 + day_of doy - 1 = doy"
  using day_checks assms unfolding list_all_iff by simp

lemma days_in_month_other: "m \<noteq> 2 \<Longrightarrow> days_in_month y m = days_in_month 1 m"
  by (simp add: days_in_month_def)

lemma civil_round_trip:
  assumes "civil_from_days days = (y, m, d)"
  shows "days_from_civil y m d = days \<and> 1 \<le> m \<and> m \<le> 12 \<and> 1 \<le> d \<and> d \<le> days_in_month y m"
proof -
  define era where "era = (days + 306) div 146097"
  define doe where "doe = (days + 306) mod 146097"
  have doe: "0 \<le> doe" "doe < 146097" by (simp_all add: doe_def)
  obtain yoe where yoe: "0 \<le> yoe" "yoe < 400" "days_before yoe \<le> doe" "doe < days_before (yoe + 1)"
    using year_exists [OF doe] .
  have f: "(doe - doe div 1460 + doe div 36524 - doe div 146096) div 365 = yoe"
    using year_formula [OF yoe] by (simp add: year_num_def)
  define doy where "doy = doe - days_before yoe"
  have b: "days_before yoe = 365 * yoe + yoe div 4 - yoe div 100" using yoe by (simp add: days_before_def)
  have dq: "doe - (365 * yoe + yoe div 4 - yoe div 100) = doy" by (simp add: doy_def b)
  have doy: "0 \<le> doy" "doy \<le> 365" "doy = 365 \<Longrightarrow> leap (yoe + 1)"
    using yoe year_check [OF yoe(1,2)] by (auto simp: doy_def split: if_splits)
  have ymd: "m = month_of doy" "d = day_of doy" "y = yoe + era * 400 + (if month_of doy \<le> 2 then 1 else 0)"
    using assms unfolding civil_from_days_def Let_def doe_def [symmetric] era_def [symmetric] f dq
      month_of_def [unfolded Let_def, symmetric] day_of_def [unfolded Let_def, symmetric]
    by (elim Pair_inject; simp only:)+
  note c = day_check [OF doy(1,2)]
  define y' where "y' = (if m \<le> 2 then y - 1 else y)"
  have y': "y' = yoe + era * 400" by (simp add: y'_def ymd)
  have dm: "y' div 400 = era" "y' mod 400 = yoe" using yoe by (simp_all add: y')
  have c': "(153 * (if 2 < m then m - 3 else m + 9) + 2) div 5 + d - 1 = doy" using c unfolding ymd(1,2) by (elim conjE)
  have "days_from_civil y m d = era * 146097 + (yoe * 365 + yoe div 4 - yoe div 100 + doy) - 306"
    unfolding days_from_civil_def y'_def [symmetric] Let_def dm c' ..
  also have "\<dots> = era * 146097 + doe - 306" by (simp add: doy_def b)
  also have "\<dots> = days" unfolding era_def doe_def using div_mult_mod_eq [of "days + 306" 146097] by simp
  finally have days: "days_from_civil y m d = days" .
  have "d \<le> days_in_month y m"
  proof (cases "m = 2")
    case True
    then have y: "y = yoe + 1 + 400 * era" using ymd by simp
    have mods: "y mod 4 = (yoe + 1) mod 4" "y mod 100 = (yoe + 1) mod 100" "y mod 400 = (yoe + 1) mod 400"
      using mod_mult_self2 [of "yoe + 1" 4 "100 * era"] mod_mult_self2 [of "yoe + 1" 100 "4 * era"]
        mod_mult_self2 [of "yoe + 1" 400 era] by (simp_all add: y)
    have "d \<le> (if doy = 365 then 29 else 28)" using c ymd(1,2) True by simp
    moreover have "doy = 365 \<Longrightarrow> y mod 4 = 0 \<and> (y mod 100 \<noteq> 0 \<or> y mod 400 = 0)"
      using doy(3) by (simp add: leap_def mods)
    ultimately show ?thesis using True
      by (cases "doy = 365") (auto simp: days_in_month_def)
  next
    case False
    then show ?thesis using c ymd(1,2) days_in_month_other [of m y] by simp
  qed
  then show ?thesis using days c ymd by simp
qed

end
