(* ===== verification/Timestamps.thy ===== *)
theory Timestamps
  imports Calendar FloatText
begin

text \<open>
  \<open>RFC3339Nano\<close> text and back: every instant of the years 0 to 9999 is read as it was written, by
  \<open>time.Parse\<close> and by the repository's own parser.
\<close>

lemma format_padded_spec:
  assumes "0 \<le> k" "k < 10 ^ w" "0 < w"
  shows "length (format_padded w k) = w \<and> list_all is_digit (format_padded w k) \<and> digits_val 10 (format_padded w k) = k"
proof -
  have l: "length (int_digits k) \<le> w" using int_digits_length_le [OF assms] .
  have d: "list_all is_digit (int_digits k)" using int_digits_digits [of k] by (simp add: list_all_iff)
  have z: "is_digit CHR ''0''" by (simp add: is_digit_def)
  show ?thesis using assms(1) l d z
    by (auto simp: format_padded_def pad_left_def digits_val_append digits_val_zeros digits_val_int_digits list_all_iff)
qed

lemma get_padded:
  "0 \<le> k \<Longrightarrow> k < 10 ^ w \<Longrightarrow> 0 < w \<Longrightarrow> get_digits w (format_padded w k @ r) = Some (k, r)"
  using format_padded_spec [of k w] by (simp add: get_digits_def)

lemma expect_same [simp]: "expect_char c (c # r) = Some r"
  by (simp add: expect_char_def)

lemma fraction_digits:
  assumes "0 < ns" "ns < 1000000000"
  defines "u \<equiv> strip_zeros (format_padded 9 ns)"
  shows "u \<noteq> [] \<and> list_all is_digit u \<and> digits_val 10 (take 9 (u @ replicate 9 CHR ''0'')) = ns"
proof -
  let ?p = "format_padded 9 ns"
  have p: "length ?p = 9" "list_all is_digit ?p" "digits_val 10 ?p = ns" using format_padded_spec [of ns 9] assms by simp_all
  obtain j where j: "?p = u @ replicate j CHR ''0''" using strip_zeros_append unfolding u_def by blast
  have "u \<noteq> []"
  proof
    assume "u = []"
    then have "digits_val 10 ?p = 0" using j digits_val_zeros by simp
    then show False using p(3) assms(1) by simp
  qed
  moreover have "list_all is_digit u" using p(2) unfolding j by simp
  moreover have "j = 9 - length u" "length u \<le> 9" using p(1) unfolding j by simp_all
  then have "take 9 (u @ replicate 9 CHR ''0'') = ?p" unfolding j by simp
  ultimately show ?thesis using p(3) by simp
qed

lemma parse_format_fraction:
  assumes "0 \<le> ns" "ns < 1000000000" "c \<notin> {CHR ''.'', CHR '',''}" "\<not> is_digit c"
  shows "parse_fraction (format_fraction ns @ c # r) = (ns, c # r)"
proof (cases "ns = 0")
  case True
  then show ?thesis using assms(3) by (cases r) (auto simp: format_fraction_def parse_fraction_def)
next
  case False
  define u where "u = strip_zeros (format_padded 9 ns)"
  have u: "u \<noteq> []" "list_all is_digit u" "digits_val 10 (take 9 (u @ replicate 9 CHR ''0'')) = ns"
    using fraction_digits [of ns] False assms(1,2) unfolding u_def by simp_all
  have t: "takeWhile is_digit (u @ c # r) = u" "dropWhile is_digit (u @ c # r) = c # r"
    using span_append [of u is_digit "c # r"] u(2) assms(4) by (auto simp: list_all_iff)
  obtain x v where x: "u = x # v" using u(1) by (cases u) auto
  have "format_fraction ns = CHR ''.'' # u" using False by (simp add: format_fraction_def u_def)
  then show ?thesis using u(2,3) t(1) x by (simp add: parse_fraction_def Let_def)
qed

lemma parse_format_date:
  assumes "civil_from_days days = (y, m, d)" "0 \<le> y" "y \<le> 9999"
  shows "parse_date (format_padded 4 y @ ''-'' @ format_padded 2 m @ ''-'' @ format_padded 2 d @ r) = Some (days, r)"
proof -
  note c = civil_round_trip [OF assms(1)]
  have "d \<le> 31" using c by (auto simp: days_in_month_def split: if_splits)
  then show ?thesis using c assms(2,3)
    by (simp add: parse_date_def get_padded)
qed

lemma parse_format_clock:
  assumes "0 \<le> h" "h < 24" "0 \<le> mi" "mi < 60" "0 \<le> sec" "sec < 60" "0 \<le> ns" "ns < 1000000000"
  shows "parse_clock (format_padded 2 h @ '':'' @ format_padded 2 mi @ '':'' @ format_padded 2 sec @ format_fraction ns @ ''Z'') =
    Some (((h * 60 + mi) * 60 + sec) * 1000000000 + ns, ''Z'')"
proof -
  have f: "parse_fraction (format_fraction ns @ ''Z'') = (ns, ''Z'')"
    using assms(7,8) by (intro parse_format_fraction) (simp_all add: is_digit_def)
  show ?thesis using assms(1-6) by (simp add: parse_clock_def get_hour_def get_padded f)
qed

lemma clock_parts:
  fixes sod :: int
  assumes "0 \<le> sod" "sod < 86400"
  shows "0 \<le> sod div 3600 \<and> sod div 3600 < 24 \<and> 0 \<le> sod div 60 mod 60 \<and> sod div 60 mod 60 < 60 \<and> 0 \<le> sod mod 60 \<and> sod mod 60 < 60 \<and>
    ((sod div 3600) * 60 + sod div 60 mod 60) * 60 + sod mod 60 = sod"
proof -
  have "sod div 3600 = sod div 60 div 60" using zdiv_zmult2_eq [of 60 sod 60] by simp
  then have "((sod div 3600) * 60 + sod div 60 mod 60) * 60 + sod mod 60 = sod"
    by (simp only: div_mult_mod_eq)
  moreover have "0 \<le> sod div 3600" "sod div 3600 < 24"
    using assms by (simp_all add: pos_imp_zdiv_nonneg_iff div_less_iff_less_mult)
  ultimately show ?thesis by simp
qed

lemma parse_format_time:
  assumes "0 \<le> fst (civil_from_days (t div day_ns))" "fst (civil_from_days (t div day_ns)) \<le> 9999"
  shows "parse_rfc3339 (format_rfc3339nano t) = Some t"
proof -
  define secs ns where "secs = t div 1000000000" and "ns = t mod 1000000000"
  define days sod where "days = secs div 86400" and "sod = secs mod 86400"
  define h mi sec where "h = sod div 3600" and "mi = sod div 60 mod 60" and "sec = sod mod 60"
  have "t div day_ns = days" using zdiv_zmult2_eq [of 86400 t 1000000000] by (simp add: days_def secs_def day_ns_def)
  then obtain y m d where c: "civil_from_days days = (y, m, d)" "0 \<le> y" "y \<le> 9999"
    using assms by (cases "civil_from_days days") auto
  have sod: "0 \<le> sod" "sod < 86400" and ns: "0 \<le> ns" "ns < 1000000000" by (simp_all add: sod_def ns_def)
  have p: "0 \<le> h" "h < 24" "0 \<le> mi" "mi < 60" "0 \<le> sec" "sec < 60" "((h * 60 + mi) * 60 + sec) = sod"
    using clock_parts [OF sod] unfolding h_def mi_def sec_def by simp_all
  have t: "days * day_ns + (sod * 1000000000 + ns) = t"
    using div_mult_mod_eq [of t 1000000000] div_mult_mod_eq [of secs 86400]
    unfolding days_def [symmetric] sod_def [symmetric] secs_def [symmetric] ns_def [symmetric] day_ns_def by linarith
  have f: "format_rfc3339nano t = format_padded 4 y @ ''-'' @ format_padded 2 m @ ''-'' @ format_padded 2 d @ ''T'' @
      format_padded 2 h @ '':'' @ format_padded 2 mi @ '':'' @ format_padded 2 sec @ format_fraction ns @ ''Z''"
    unfolding format_rfc3339nano_def Let_def secs_def [symmetric] ns_def [symmetric] days_def [symmetric] sod_def [symmetric]
      h_def [symmetric] mi_def [symmetric] sec_def [symmetric] c(1) prod.case ..
  have z: "parse_zone ''Z'' = Some 0" by (simp add: parse_zone_def)
  show ?thesis
    unfolding f parse_rfc3339_def parse_format_date [OF c]
    using parse_format_clock [OF p(1-6) ns] z t unfolding p(7) by simp
qed

end
