(* ===== verification/Wire.thy ===== *)
theory Wire
  imports JsonCodec Domain
begin

text \<open>
  The JSON form of the types of \<open>internal/domain/types.go\<close>, field by field as their tags say, with the
  zero values that decoding starts from.
\<close>

subsection \<open>Zero values\<close>

definition zero_scope :: scope where
  "zero_scope = \<lparr>sc_Location = [], sc_NetworkID = []\<rparr>"

definition zero_metric :: node_metric where
  "zero_metric = \<lparr>nm_WindowStart = 0, nm_WindowEnd = 0, nm_Scope = zero_scope, nm_NodeID = [], nm_Requests = 0,
     nm_ErrorRate = 0, nm_CacheHitRate = 0, nm_OriginMS = 0, nm_P50TTFBMS = 0, nm_P95TTFBMS = 0, nm_P99TTFBMS = 0,
     nm_Saturation = 0, nm_Healthy = False\<rparr>"

definition zero_delta :: expected_delta where
  "zero_delta = \<lparr>ed_P95TTFBDeltaMS = 0, ed_ErrorRateDelta = 0, ed_CostUnitsDelta = 0\<rparr>"

definition zero_request :: evaluation_request where
  "zero_request = \<lparr>er_Scope = zero_scope, er_CurrentWeights = []\<rparr>"

definition zero_ack :: acknowledgement where
  "zero_ack = \<lparr>ak_RecommendationID = [], ak_Actor = [], ak_Status = [], ak_ObservedAt = 0\<rparr>"

definition zero_outcome :: outcome where
  "zero_outcome = \<lparr>oc_RecommendationID = [], oc_ObservedAt = 0, oc_ObservedDelta = zero_delta, oc_Notes = []\<rparr>"

subsection \<open>Decoding\<close>

definition scope_fields :: "scope fields" where
  "scope_fields =
     [(''location'', field sc_Location sc_Location_update dec_string),
      (''network_id'', field sc_NetworkID sc_NetworkID_update dec_string)]"

definition metric_fields :: "bool \<Rightarrow> node_metric fields" where
  "metric_fields strict =
     [(''window_start'', field nm_WindowStart nm_WindowStart_update dec_time),
      (''window_end'', field nm_WindowEnd nm_WindowEnd_update dec_time),
      (''scope'', field nm_Scope nm_Scope_update (dec_struct strict scope_fields)),
      (''node_id'', field nm_NodeID nm_NodeID_update dec_string),
      (''requests'', field nm_Requests nm_Requests_update dec_u64),
      (''error_5xx_rate'', field nm_ErrorRate nm_ErrorRate_update dec_f64),
      (''cache_hit_ratio'', field nm_CacheHitRate nm_CacheHitRate_update dec_f64),
      (''origin_ms_total'', field nm_OriginMS nm_OriginMS_update dec_f64),
      (''ttfb_p50_ms'', field nm_P50TTFBMS nm_P50TTFBMS_update dec_f64),
      (''ttfb_p95_ms'', field nm_P95TTFBMS nm_P95TTFBMS_update dec_f64),
      (''ttfb_p99_ms'', field nm_P99TTFBMS nm_P99TTFBMS_update dec_f64),
      (''saturation'', field nm_Saturation nm_Saturation_update dec_f64),
      (''healthy'', field nm_Healthy nm_Healthy_update dec_bool)]"

definition delta_fields :: "expected_delta fields" where
  "delta_fields =
     [(''p95_ttfb_delta_ms'', field ed_P95TTFBDeltaMS ed_P95TTFBDeltaMS_update dec_f64),
      (''error_rate_delta'', field ed_ErrorRateDelta ed_ErrorRateDelta_update dec_f64),
      (''cost_units_delta'', field ed_CostUnitsDelta ed_CostUnitsDelta_update dec_f64)]"

definition request_fields :: "bool \<Rightarrow> evaluation_request fields" where
  "request_fields strict =
     [(''scope'', field er_Scope er_Scope_update (dec_struct strict scope_fields)),
      (''current_weights'', field er_CurrentWeights er_CurrentWeights_update (dec_map dec_f64 0))]"

definition ack_fields :: "acknowledgement fields" where
  "ack_fields =
     [(''recommendation_id'', field ak_RecommendationID ak_RecommendationID_update dec_string),
      (''actor'', field ak_Actor ak_Actor_update dec_string),
      (''status'', field ak_Status ak_Status_update dec_string),
      (''observed_at'', field ak_ObservedAt ak_ObservedAt_update dec_time)]"

definition outcome_fields :: "bool \<Rightarrow> outcome fields" where
  "outcome_fields strict =
     [(''recommendation_id'', field oc_RecommendationID oc_RecommendationID_update dec_string),
      (''observed_at'', field oc_ObservedAt oc_ObservedAt_update dec_time),
      (''observed_delta'', field oc_ObservedDelta oc_ObservedDelta_update (dec_struct strict delta_fields)),
      (''notes'', field oc_Notes oc_Notes_update dec_string)]"

subsection \<open>Encoding\<close>

definition enc_scope :: "scope \<Rightarrow> encoded" where
  "enc_scope s = enc_struct [(''location'', enc_string (sc_Location s)), (''network_id'', enc_string (sc_NetworkID s))]"

definition enc_metric :: "node_metric \<Rightarrow> encoded" where
  "enc_metric m = enc_struct
     [(''window_start'', enc_time (nm_WindowStart m)), (''window_end'', enc_time (nm_WindowEnd m)),
      (''scope'', enc_scope (nm_Scope m)), (''node_id'', enc_string (nm_NodeID m)),
      (''requests'', enc_int (uint (nm_Requests m))), (''error_5xx_rate'', enc_f64 (nm_ErrorRate m)),
      (''cache_hit_ratio'', enc_f64 (nm_CacheHitRate m)), (''origin_ms_total'', enc_f64 (nm_OriginMS m)),
      (''ttfb_p50_ms'', enc_f64 (nm_P50TTFBMS m)), (''ttfb_p95_ms'', enc_f64 (nm_P95TTFBMS m)),
      (''ttfb_p99_ms'', enc_f64 (nm_P99TTFBMS m)), (''saturation'', enc_f64 (nm_Saturation m)),
      (''healthy'', enc_bool (nm_Healthy m))]"

definition enc_delta :: "expected_delta \<Rightarrow> encoded" where
  "enc_delta d = enc_struct
     [(''p95_ttfb_delta_ms'', enc_f64 (ed_P95TTFBDeltaMS d)), (''error_rate_delta'', enc_f64 (ed_ErrorRateDelta d)),
      (''cost_units_delta'', enc_f64 (ed_CostUnitsDelta d))]"

definition enc_recommendation :: "recommendation \<Rightarrow> encoded" where
  "enc_recommendation r = enc_struct
     [(''schema_version'', enc_int (rc_SchemaVersion r)), (''recommendation_id'', enc_string (rc_RecommendationID r)),
      (''created_at'', enc_time (rc_CreatedAt r)), (''valid_until'', enc_time (rc_ValidUntil r)),
      (''mode'', enc_string (rc_Mode r)), (''scope'', enc_scope (rc_Scope r)), (''action'', enc_string (rc_Action r)),
      (''current'', enc_map enc_f64 (rc_Current r)), (''proposed'', enc_map enc_f64 (rc_Proposed r)),
      (''evidence_window'', enc_string (rc_EvidenceWindow r)), (''reason_codes'', enc_list enc_string (rc_ReasonCodes r)),
      (''expected'', enc_delta (rc_Expected r)), (''confidence'', enc_f64 (rc_Confidence r)),
      (''model_version'', enc_string (rc_ModelVersion r)), (''revision'', enc_int (uint (rc_Revision r))),
      (''input_window_start'', enc_time (rc_InputWindowStart r)), (''input_window_end'', enc_time (rc_InputWindowEnd r)),
      (''query_version'', enc_string (rc_QueryVersion r)), (''config_hash'', enc_string (rc_ConfigHash r)),
      (''evidence'', enc_map enc_metric (rc_Evidence r))]"

definition enc_result :: "evaluation_result \<Rightarrow> encoded" where
  "enc_result r = enc_struct
     ([(''generated'', enc_bool (rs_Generated r)), (''reason_codes'', enc_list enc_string (rs_ReasonCodes r))] @
      (case rs_Recommendation r of None \<Rightarrow> [] | Some q \<Rightarrow> [(''recommendation'', enc_recommendation q)]))"

end
