(* ===== verification/ClickHouse.thy ===== *)
theory ClickHouse
  imports Wire
begin

text \<open>
  \<open>internal/repository/clickhouse.go\<close>. The server behind the HTTP client is a parameter, as are the
  parser of \<open>net/url\<close> and the text of an error of \<open>encoding/json\<close>: a \<open>platform\<close>. SQL is text.
  A response body is what can be read of it.
\<close>

record url =
  ur_Base :: string
  ur_Query :: "(string \<times> string) list"

record http_call =
  hc_URL :: url
  hc_User :: string
  hc_Password :: string
  hc_ContentType :: string
  hc_Body :: string

record http_reply =
  hr_Status :: int
  hr_Body :: string

record 'w platform =
  pl_url :: "string \<Rightarrow> string + url"
  pl_do :: "http_call \<Rightarrow> 'w \<Rightarrow> (string + http_reply) \<times> 'w"
  pl_json_error :: "string \<Rightarrow> string"

record clickhouse =
  ch_endpoint :: string
  ch_user :: string
  ch_password :: string
  ch_timeout :: duration

definition slash :: "char \<Rightarrow> bool" where "slash c \<longleftrightarrow> c = CHR ''/''"

definition NewClickHouse :: "string \<Rightarrow> string \<Rightarrow> string \<Rightarrow> duration \<Rightarrow> clickhouse" where
  "NewClickHouse endpoint user password timeout =
     \<lparr>ch_endpoint = trim_right slash endpoint @ ''/'', ch_user = user, ch_password = password, ch_timeout = timeout\<rparr>"

subsection \<open>Requests\<close>

definition clickHouseError :: "http_reply \<Rightarrow> string" where
  "clickHouseError r =
     ''ClickHouse status '' @ format_int (hr_Status r) @ '': '' @ trim_space (take 65536 (hr_Body r))"

text \<open>One authenticated \<open>POST\<close>; the reply of a status other than 200 is an error.\<close>

definition post :: "'w platform \<Rightarrow> clickhouse \<Rightarrow> url \<Rightarrow> string \<Rightarrow> string \<Rightarrow> 'w \<Rightarrow> (string + string) \<times> 'w" where
  "post p c u ctype body w =
     (case pl_do p \<lparr>hc_URL = u, hc_User = ch_user c, hc_Password = ch_password c, hc_ContentType = ctype, hc_Body = body\<rparr> w of
        (Inl err, w') \<Rightarrow> (Inl err, w')
      | (Inr r, w') \<Rightarrow> (if hr_Status r \<noteq> 200 then Inl (clickHouseError r) else Inr (hr_Body r), w'))"

definition clickhouse_Ping :: "'w platform \<Rightarrow> clickhouse \<Rightarrow> 'w \<Rightarrow> string option \<times> 'w" where
  "clickhouse_Ping p c w =
     (case pl_url p (ch_endpoint c) of
        Inl err \<Rightarrow> (Some err, w)
      | Inr u \<Rightarrow>
          (case post p c u [] ''SELECT 1'' w of
             (Inl err, w') \<Rightarrow> (Some err, w')
           | (Inr _, w') \<Rightarrow> (None, w')))"

definition reply_limit :: int where "reply_limit = 8388608"

text \<open>The first JSON value of the reply's first 8 MiB; what follows it is not looked at.\<close>

definition queryJSON :: "'w platform \<Rightarrow> clickhouse \<Rightarrow> string \<Rightarrow> (string \<times> string) list \<Rightarrow> 'a decoder \<Rightarrow> 'a \<Rightarrow> 'w \<Rightarrow> (string + 'a) \<times> 'w" where
  "queryJSON p c query params dec z w =
     (case pl_url p (ch_endpoint c) of
        Inl err \<Rightarrow> (Inl err, w)
      | Inr u \<Rightarrow>
          (case post p c (u\<lparr>ur_Query := params\<rparr>) ''text/plain'' query w of
             (Inl err, w') \<Rightarrow> (Inl err, w')
           | (Inr body, w') \<Rightarrow>
               let s = take (nat reply_limit) body
               in (case json_first s of
                     None \<Rightarrow> (Inl (''decode ClickHouse response: '' @ pl_json_error p s), w')
                   | Some (v, _) \<Rightarrow>
                       (case dec z v of
                          None \<Rightarrow> (Inl (''decode ClickHouse response: '' @ pl_json_error p s), w')
                        | Some x \<Rightarrow> (Inr x, w')))))"

text \<open>\<open>Values.Set\<close> replaces every value of the key.\<close>

definition set_param :: "string \<Rightarrow> string \<Rightarrow> (string \<times> string) list \<Rightarrow> (string \<times> string) list" where
  "set_param k v ps = filter (\<lambda>p. fst p \<noteq> k) ps @ [(k, v)]"

definition insertJSONEachRow :: "'w platform \<Rightarrow> clickhouse \<Rightarrow> string \<Rightarrow> encoded \<Rightarrow> 'w \<Rightarrow> string option \<times> 'w" where
  "insertJSONEachRow p c query payload w =
     (case marshal payload of
        Inl err \<Rightarrow> (Some err, w)
      | Inr text \<Rightarrow>
          (case pl_url p (ch_endpoint c) of
             Inl err \<Rightarrow> (Some err, w)
           | Inr u \<Rightarrow>
               (case post p c (u\<lparr>ur_Query := set_param ''date_time_input_format'' ''best_effort'' (set_param ''query'' query (ur_Query u))\<rparr>)
                       ''application/x-ndjson'' (text @ [CHR 0x0A]) w of
                  (Inl err, w') \<Rightarrow> (Some err, w')
                | (Inr _, w') \<Rightarrow> (None, w'))))"

text \<open>The layout without a fraction accepts one all the same, so the second layout adds nothing.\<close>

definition parseClickHouseTime :: "string \<Rightarrow> string + instant" where
  "parseClickHouseTime value =
     (case parse_sql_time value of
        Some t \<Rightarrow> Inr t
      | None \<Rightarrow>
          (case parse_rfc3339 value of
             Some t \<Rightarrow> Inr t
           | None \<Rightarrow> Inl (''unsupported ClickHouse time '' @ value)))"

definition unlines :: "string list \<Rightarrow> string" where
  "unlines ls = concat (map ((#) CHR 0x0A) ls)"

subsection \<open>History\<close>

definition history_query :: string where
  "history_query = unlines
     [''WITH recent AS'',
      ''('',
      ''    SELECT window_start, window_end, node_id, requests, error_5xx_rate,'',
      ''           cache_hit_ratio, origin_ms_total, ttfb_p50_ms, ttfb_p95_ms, ttfb_p99_ms'',
      ''    FROM streampulse.node_metrics_1m FINAL'',
      ''    WHERE location = {location:String} AND network_id = {network:String}'',
      ''      AND window_end <= now64(3) + INTERVAL 5 SECOND'',
      ''    ORDER BY window_start DESC'',
      ''    LIMIT {windows:UInt32} BY node_id'',
      ''), saturation_by_node AS'',
      ''('',
      ''    SELECT node_id,'',
      ''           max(synthetic_node_rps) / greatest(max(synthetic_capacity_rps), 1) AS saturation'',
      ''    FROM streampulse.raw_delivery FINAL'',
      ''    WHERE location = {location:String} AND network_id = {network:String}'',
      ''      AND event_time >= (SELECT min(window_start) FROM recent)'',
      ''      AND event_time <= now64(3) + INTERVAL 5 SECOND'',
      ''    GROUP BY node_id'',
      '')'',
      ''SELECT recent.window_start, recent.window_end, recent.node_id, recent.requests,'',
      ''       recent.error_5xx_rate, recent.cache_hit_ratio, recent.origin_ms_total,'',
      ''       recent.ttfb_p50_ms, recent.ttfb_p95_ms, recent.ttfb_p99_ms,'',
      ''       least(1.0, greatest(0.0, ifNull(saturation_by_node.saturation, 0.0))) AS saturation'',
      ''FROM recent'',
      ''LEFT JOIN saturation_by_node USING node_id'',
      ''ORDER BY window_start, node_id'',
      ''FORMAT JSON'']"

record metricRow =
  mr_WindowStart :: string
  mr_WindowEnd :: string
  mr_NodeID :: string
  mr_Requests :: u64
  mr_ErrorRate :: f64
  mr_CacheHitRate :: f64
  mr_OriginMS :: f64
  mr_P50TTFBMS :: f64
  mr_P95TTFBMS :: f64
  mr_P99TTFBMS :: f64
  mr_Saturation :: f64

definition zero_metricRow :: metricRow where
  "zero_metricRow = \<lparr>mr_WindowStart = [], mr_WindowEnd = [], mr_NodeID = [], mr_Requests = 0, mr_ErrorRate = 0,
     mr_CacheHitRate = 0, mr_OriginMS = 0, mr_P50TTFBMS = 0, mr_P95TTFBMS = 0, mr_P99TTFBMS = 0, mr_Saturation = 0\<rparr>"

definition metricRow_fields :: "metricRow fields" where
  "metricRow_fields =
     [(''window_start'', field mr_WindowStart mr_WindowStart_update dec_string),
      (''window_end'', field mr_WindowEnd mr_WindowEnd_update dec_string),
      (''node_id'', field mr_NodeID mr_NodeID_update dec_string),
      (''requests'', field mr_Requests mr_Requests_update dec_u64),
      (''error_5xx_rate'', field mr_ErrorRate mr_ErrorRate_update dec_f64),
      (''cache_hit_ratio'', field mr_CacheHitRate mr_CacheHitRate_update dec_f64),
      (''origin_ms_total'', field mr_OriginMS mr_OriginMS_update dec_f64),
      (''ttfb_p50_ms'', field mr_P50TTFBMS mr_P50TTFBMS_update dec_f64),
      (''ttfb_p95_ms'', field mr_P95TTFBMS mr_P95TTFBMS_update dec_f64),
      (''ttfb_p99_ms'', field mr_P99TTFBMS mr_P99TTFBMS_update dec_f64),
      (''saturation'', field mr_Saturation mr_Saturation_update dec_f64)]"

text \<open>The anonymous \<open>struct{ Data []T }\<close> of both queries: only its \<open>data\<close> is kept.\<close>

definition data_fields :: "'a decoder \<Rightarrow> 'a \<Rightarrow> 'a list fields" where
  "data_fields dec z = [(''data'', dec_list dec z)]"

definition row_metric :: "scope \<Rightarrow> metricRow \<Rightarrow> string + node_metric" where
  "row_metric sc row =
     (case parseClickHouseTime (mr_WindowStart row) of
        Inl err \<Rightarrow> Inl (''parse window_start: '' @ err)
      | Inr windowStart \<Rightarrow>
          (case parseClickHouseTime (mr_WindowEnd row) of
             Inl err \<Rightarrow> Inl (''parse window_end: '' @ err)
           | Inr windowEnd \<Rightarrow> Inr
               \<lparr>nm_WindowStart = windowStart, nm_WindowEnd = windowEnd, nm_Scope = sc, nm_NodeID = mr_NodeID row,
                nm_Requests = mr_Requests row, nm_ErrorRate = mr_ErrorRate row, nm_CacheHitRate = mr_CacheHitRate row,
                nm_OriginMS = mr_OriginMS row, nm_P50TTFBMS = mr_P50TTFBMS row, nm_P95TTFBMS = mr_P95TTFBMS row,
                nm_P99TTFBMS = mr_P99TTFBMS row, nm_Saturation = mr_Saturation row, nm_Healthy = True\<rparr>))"

fun row_metrics :: "scope \<Rightarrow> metricRow list \<Rightarrow> string + node_metric list" where
  "row_metrics sc [] = Inr []"
| "row_metrics sc (row # rows) =
     (case row_metric sc row of
        Inl err \<Rightarrow> Inl err
      | Inr m \<Rightarrow> (case row_metrics sc rows of Inl err \<Rightarrow> Inl err | Inr ms \<Rightarrow> Inr (m # ms)))"

definition history_params :: "scope \<Rightarrow> int \<Rightarrow> (string \<times> string) list" where
  "history_params sc windows =
     [(''param_location'', sc_Location sc), (''param_network'', sc_NetworkID sc),
      (''param_windows'', format_int (if windows \<le> 0 then 30 else windows))]"

definition clickhouse_History :: "'w platform \<Rightarrow> clickhouse \<Rightarrow> scope \<Rightarrow> int \<Rightarrow> 'w \<Rightarrow> (string + node_metric list) \<times> 'w" where
  "clickhouse_History p c sc windows w =
     (case queryJSON p c history_query (history_params sc windows)
             (dec_struct False (data_fields (dec_struct False metricRow_fields) zero_metricRow)) [] w of
        (Inl err, w') \<Rightarrow> (Inl err, w')
      | (Inr rows, w') \<Rightarrow> (row_metrics sc rows, w'))"

subsection \<open>The latest recommendation\<close>

definition latest_query :: string where
  "latest_query = unlines
     [''SELECT recommendation_id, created_at, valid_until, revision, mode, action,'',
      ''       current_json, proposed_json, evidence_window, reason_codes,'',
      ''       expected_p95_ttfb_delta_ms, expected_error_rate_delta,'',
      ''       expected_cost_units_delta, confidence, model_version,'',
      ''       input_window_start, input_window_end, query_version, config_hash, evidence_json'',
      ''FROM streampulse.recommendations FINAL'',
      ''WHERE location = {location:String} AND network_id = {network:String}'',
      ''ORDER BY created_at DESC, revision DESC'',
      ''LIMIT 1'',
      ''FORMAT JSON'']"

record recommendationRow =
  rr_RecommendationID :: string
  rr_CreatedAt :: string
  rr_ValidUntil :: string
  rr_Revision :: u32
  rr_Mode :: string
  rr_Action :: string
  rr_CurrentJSON :: string
  rr_ProposedJSON :: string
  rr_EvidenceWindow :: string
  rr_ReasonCodes :: "string list"
  rr_ExpectedP95 :: f64
  rr_ExpectedError :: f64
  rr_ExpectedCost :: f64
  rr_Confidence :: f64
  rr_ModelVersion :: string
  rr_InputWindowStart :: string
  rr_InputWindowEnd :: string
  rr_QueryVersion :: string
  rr_ConfigHash :: string
  rr_EvidenceJSON :: string

definition zero_recommendationRow :: recommendationRow where
  "zero_recommendationRow = \<lparr>rr_RecommendationID = [], rr_CreatedAt = [], rr_ValidUntil = [], rr_Revision = 0, rr_Mode = [],
     rr_Action = [], rr_CurrentJSON = [], rr_ProposedJSON = [], rr_EvidenceWindow = [], rr_ReasonCodes = [],
     rr_ExpectedP95 = 0, rr_ExpectedError = 0, rr_ExpectedCost = 0, rr_Confidence = 0, rr_ModelVersion = [],
     rr_InputWindowStart = [], rr_InputWindowEnd = [], rr_QueryVersion = [], rr_ConfigHash = [], rr_EvidenceJSON = []\<rparr>"

definition recommendationRow_fields :: "recommendationRow fields" where
  "recommendationRow_fields =
     [(''recommendation_id'', field rr_RecommendationID rr_RecommendationID_update dec_string),
      (''created_at'', field rr_CreatedAt rr_CreatedAt_update dec_string),
      (''valid_until'', field rr_ValidUntil rr_ValidUntil_update dec_string),
      (''revision'', field rr_Revision rr_Revision_update dec_u32),
      (''mode'', field rr_Mode rr_Mode_update dec_string),
      (''action'', field rr_Action rr_Action_update dec_string),
      (''current_json'', field rr_CurrentJSON rr_CurrentJSON_update dec_string),
      (''proposed_json'', field rr_ProposedJSON rr_ProposedJSON_update dec_string),
      (''evidence_window'', field rr_EvidenceWindow rr_EvidenceWindow_update dec_string),
      (''reason_codes'', field rr_ReasonCodes rr_ReasonCodes_update (dec_list dec_string [])),
      (''expected_p95_ttfb_delta_ms'', field rr_ExpectedP95 rr_ExpectedP95_update dec_f64),
      (''expected_error_rate_delta'', field rr_ExpectedError rr_ExpectedError_update dec_f64),
      (''expected_cost_units_delta'', field rr_ExpectedCost rr_ExpectedCost_update dec_f64),
      (''confidence'', field rr_Confidence rr_Confidence_update dec_f64),
      (''model_version'', field rr_ModelVersion rr_ModelVersion_update dec_string),
      (''input_window_start'', field rr_InputWindowStart rr_InputWindowStart_update dec_string),
      (''input_window_end'', field rr_InputWindowEnd rr_InputWindowEnd_update dec_string),
      (''query_version'', field rr_QueryVersion rr_QueryVersion_update dec_string),
      (''config_hash'', field rr_ConfigHash rr_ConfigHash_update dec_string),
      (''evidence_json'', field rr_EvidenceJSON rr_EvidenceJSON_update dec_string)]"

text \<open>\<open>Unmarshal\<close> of the text of a column into a fresh map.\<close>

definition unmarshal_map :: "(string \<Rightarrow> string) \<Rightarrow> string \<Rightarrow> 'a decoder \<Rightarrow> 'a \<Rightarrow> string \<Rightarrow> string + 'a gomap" where
  "unmarshal_map why what dec z text =
     (case json_parse text of
        None \<Rightarrow> Inl (what @ why text)
      | Some v \<Rightarrow> (case dec_map dec z [] v of None \<Rightarrow> Inl (what @ why text) | Some m \<Rightarrow> Inr m))"

definition context_error :: "string \<Rightarrow> string + 'a \<Rightarrow> string + 'a" where
  "context_error what r = (case r of Inl err \<Rightarrow> Inl (what @ err) | Inr x \<Rightarrow> Inr x)"

definition bind_error :: "string + 'a \<Rightarrow> ('a \<Rightarrow> string + 'b) \<Rightarrow> string + 'b" where
  "bind_error r f = (case r of Inl err \<Rightarrow> Inl err | Inr x \<Rightarrow> f x)"

definition decode_evidence :: "(string \<Rightarrow> string) \<Rightarrow> string \<Rightarrow> string + node_metric gomap" where
  "decode_evidence why text =
     (if text \<noteq> [] \<and> text \<noteq> ''{}''
      then unmarshal_map why ''decode evidence: '' (dec_struct False (metric_fields False)) zero_metric text
      else Inr [])"

definition row_recommendation :: "(string \<Rightarrow> string) \<Rightarrow> scope \<Rightarrow> recommendationRow \<Rightarrow> string + recommendation" where
  "row_recommendation why sc row =
     bind_error (parseClickHouseTime (rr_CreatedAt row)) (\<lambda>createdAt.
     bind_error (parseClickHouseTime (rr_ValidUntil row)) (\<lambda>validUntil.
     bind_error (unmarshal_map why ''decode current weights: '' dec_f64 0 (rr_CurrentJSON row)) (\<lambda>current.
     bind_error (unmarshal_map why ''decode proposed weights: '' dec_f64 0 (rr_ProposedJSON row)) (\<lambda>proposed.
     bind_error (context_error ''parse input_window_start: '' (parseClickHouseTime (rr_InputWindowStart row))) (\<lambda>inputWindowStart.
     bind_error (context_error ''parse input_window_end: '' (parseClickHouseTime (rr_InputWindowEnd row))) (\<lambda>inputWindowEnd.
     bind_error (decode_evidence why (rr_EvidenceJSON row)) (\<lambda>evidence.
     Inr \<lparr>rc_SchemaVersion = 1, rc_RecommendationID = rr_RecommendationID row, rc_CreatedAt = createdAt,
          rc_ValidUntil = validUntil, rc_Mode = rr_Mode row, rc_Scope = sc, rc_Action = rr_Action row,
          rc_Current = current, rc_Proposed = proposed, rc_EvidenceWindow = rr_EvidenceWindow row,
          rc_ReasonCodes = rr_ReasonCodes row,
          rc_Expected = \<lparr>ed_P95TTFBDeltaMS = rr_ExpectedP95 row, ed_ErrorRateDelta = rr_ExpectedError row,
            ed_CostUnitsDelta = rr_ExpectedCost row\<rparr>,
          rc_Confidence = rr_Confidence row, rc_ModelVersion = rr_ModelVersion row, rc_Revision = rr_Revision row,
          rc_InputWindowStart = inputWindowStart, rc_InputWindowEnd = inputWindowEnd,
          rc_QueryVersion = rr_QueryVersion row, rc_ConfigHash = rr_ConfigHash row, rc_Evidence = evidence\<rparr>)))))))"

definition latest_params :: "scope \<Rightarrow> (string \<times> string) list" where
  "latest_params sc = [(''param_location'', sc_Location sc), (''param_network'', sc_NetworkID sc)]"

definition clickhouse_LatestRecommendation ::
    "'w platform \<Rightarrow> clickhouse \<Rightarrow> scope \<Rightarrow> 'w \<Rightarrow> (string + recommendation option) \<times> 'w" where
  "clickhouse_LatestRecommendation p c sc w =
     (case queryJSON p c latest_query (latest_params sc)
             (dec_struct False (data_fields (dec_struct False recommendationRow_fields) zero_recommendationRow)) [] w of
        (Inl err, w') \<Rightarrow> (Inl err, w')
      | (Inr [], w') \<Rightarrow> (Inr None, w')
      | (Inr (row # _), w') \<Rightarrow> (bind_error (row_recommendation (pl_json_error p) sc row) (\<lambda>r. Inr (Some r)), w'))"

subsection \<open>Acknowledgements and outcomes\<close>

record acknowledgementRow =
  ar_RecommendationID :: string
  ar_Actor :: string
  ar_Status :: string
  ar_ObservedAt :: string

definition enc_acknowledgementRow :: "acknowledgementRow \<Rightarrow> encoded" where
  "enc_acknowledgementRow r = enc_struct
     [(''recommendation_id'', enc_string (ar_RecommendationID r)), (''actor'', enc_string (ar_Actor r)),
      (''status'', enc_string (ar_Status r)), (''observed_at'', enc_string (ar_ObservedAt r))]"

record outcomeRow =
  ow_RecommendationID :: string
  ow_ObservedAt :: string
  ow_ObservedP95TTFBDelta :: f64
  ow_ObservedErrorDelta :: f64
  ow_ObservedCostDelta :: f64
  ow_Notes :: string

definition enc_outcomeRow :: "outcomeRow \<Rightarrow> encoded" where
  "enc_outcomeRow r = enc_struct
     [(''recommendation_id'', enc_string (ow_RecommendationID r)), (''observed_at'', enc_string (ow_ObservedAt r)),
      (''observed_p95_ttfb_delta_ms'', enc_f64 (ow_ObservedP95TTFBDelta r)),
      (''observed_error_rate_delta'', enc_f64 (ow_ObservedErrorDelta r)),
      (''observed_cost_units_delta'', enc_f64 (ow_ObservedCostDelta r)), (''notes'', enc_string (ow_Notes r))]"

definition ack_row :: "acknowledgement \<Rightarrow> acknowledgementRow" where
  "ack_row a =
     \<lparr>ar_RecommendationID = ak_RecommendationID a, ar_Actor = ak_Actor a, ar_Status = ak_Status a,
      ar_ObservedAt = format_rfc3339nano (ak_ObservedAt a)\<rparr>"

definition outcome_row :: "outcome \<Rightarrow> outcomeRow" where
  "outcome_row q =
     \<lparr>ow_RecommendationID = oc_RecommendationID q, ow_ObservedAt = format_rfc3339nano (oc_ObservedAt q),
      ow_ObservedP95TTFBDelta = ed_P95TTFBDeltaMS (oc_ObservedDelta q), ow_ObservedErrorDelta = ed_ErrorRateDelta (oc_ObservedDelta q),
      ow_ObservedCostDelta = ed_CostUnitsDelta (oc_ObservedDelta q), ow_Notes = oc_Notes q\<rparr>"

definition clickhouse_Acknowledge :: "'w platform \<Rightarrow> clickhouse \<Rightarrow> acknowledgement \<Rightarrow> 'w \<Rightarrow> string option \<times> 'w" where
  "clickhouse_Acknowledge p c a =
     insertJSONEachRow p c ''INSERT INTO streampulse.recommendation_acknowledgements FORMAT JSONEachRow''
       (enc_acknowledgementRow (ack_row a))"

definition clickhouse_Outcome :: "'w platform \<Rightarrow> clickhouse \<Rightarrow> outcome \<Rightarrow> 'w \<Rightarrow> string option \<times> 'w" where
  "clickhouse_Outcome p c q =
     insertJSONEachRow p c ''INSERT INTO streampulse.recommendation_outcomes FORMAT JSONEachRow''
       (enc_outcomeRow (outcome_row q))"

end
