(* ===== verification/Codec_Roundtrip.thy ===== *)
theory Codec_Roundtrip
  imports CodecFacts EncodeFacts Timestamps ClickHouse
begin

text \<open>
  JSON there and back: what an encoder writes is JSON text, and the decoder of the same type reads the
  value from it. The rules are collected in \<open>codec\<close>; a struct follows its field table.
\<close>

subsection \<open>Numbers\<close>

lemma digits_f_shape:
  assumes "ds \<noteq> []" "list_all is_digit ds" "hd ds \<noteq> CHR ''0''"
  shows "\<exists>w f. digits_f ds p = w @ point_part f @ [] \<and> whole_part w \<and> list_all is_digit f"
proof -
  define w where "w = (if 0 < p then take (nat p) ds @ replicate (nat p - length ds) CHR ''0'' else ''0'')"
  define f where "f = (if p < int (length ds) then replicate (nat (- p)) CHR ''0'' @ drop (nat p) ds else [])"
  have z: "is_digit CHR ''0''" by (simp add: is_digit_def)
  have "digits_f ds p = w @ point_part f @ []"
    using assms(1) by (auto simp: digits_f_def w_def f_def point_part_def)
  moreover have "list_all is_digit f" using assms(2) z by (auto simp: f_def list_all_iff dest: in_set_dropD)
  moreover have "whole_part w"
  proof (cases "0 < p")
    case True
    then have "take (nat p) ds \<noteq> []" "hd (take (nat p) ds) = hd ds" using assms(1) by simp_all
    then show ?thesis using True assms(2,3) z by (auto simp: whole_part_def w_def list_all_iff dest: in_set_takeD)
  next
    case False
    then show ?thesis by (simp add: whole_part_def w_def)
  qed
  ultimately show ?thesis by blast
qed

lemma digits_e_shape:
  assumes "ds = c # v" "-1073 \<le> p" "p \<le> 4000"
  shows "digits_e ds p = [c] @ point_part v @ exp_text p \<and> exp_part (exp_text p) (p - 1)"
  using exp_part_text [OF assms(2,3)] by (simp add: assms(1) digits_e_def point_part_def exp_text_def)

lemma number_ok_float [codec]: assumes "number x" shows "number_ok (format_json_float x)"
proof -
  have x: "finite_f64 x" "canonical x" using assms by (simp_all add: number_def)
  obtain ds p where d: "decimal_digits x = (ds, p)" by fastforce
  show ?thesis
  proof (cases "mant x = 0")
    case True
    have "x = NZero \<or> x = Fin 0 (-1074)" using mant_zero_cases [OF x True] .
    moreover have "number_ok (format_json_float NZero)" "number_ok (format_json_float (Fin 0 (-1074)))" by code_simp+
    ultimately show ?thesis by blast
  next
    case False
    have ds: "ds \<noteq> []" "hd ds \<noteq> CHR ''0''" using decimal_digits_head [OF x False d] by simp_all
    have sp: "list_all is_digit ds" "-1073 \<le> p" "p \<le> 4000" using decimal_digits_spec [OF x False d] by simp_all
    obtain c v where c: "ds = c # v" using ds(1) by (cases ds) auto
    have "number_ok (minus_sign x @ digits_f ds p)"
    proof -
      obtain w f where w: "digits_f ds p = w @ point_part f @ []" "whole_part w" "list_all is_digit f"
        using digits_f_shape [OF ds(1) sp(1) ds(2)] by blast
      show ?thesis using number_ok_literal [OF w(2,3), of "[]" 0 "signbit x"] unfolding w(1) minus_sign_def
        by (simp add: exp_part_def)
    qed
    moreover have "number_ok (minus_sign x @ digits_e ds p)"
    proof -
      note e = digits_e_shape [OF c sp(2,3)]
      have "whole_part [c]" "list_all is_digit v" using ds(2) sp(1) by (simp_all add: whole_part_def c)
      from number_ok_literal [OF this conjunct2 [OF e], of "signbit x"] show ?thesis
        using e unfolding minus_sign_def by simp
    qed
    ultimately show ?thesis unfolding format_json_float_def d Let_def prod.case by simp
  qed
qed

lemma parse_uint_format: "parse_uint (format_int (uint w)) = Some w" for w :: u64
proof -
  have "list_all is_digit (int_digits (uint w))" using int_digits_digits [of "uint w"] by (simp add: list_all_iff)
  moreover have "uint w < 18446744073709551616" using uint_range_size [of w] by (simp add: word_size)
  ultimately show ?thesis
    by (simp add: parse_uint_def format_int_def all_digits_def int_digits_nonempty digits_val_int_digits)
qed

subsection \<open>Decoding what was encoded\<close>

text \<open>\<open>decodes d dec old e x\<close>: encoding gave a document of depth at most \<open>d\<close> from which \<open>dec\<close> reads \<open>x\<close>.\<close>

definition decodes :: "nat \<Rightarrow> 'a decoder \<Rightarrow> 'a \<Rightarrow> encoded \<Rightarrow> 'a \<Rightarrow> bool" where
  "decodes d dec old e x \<longleftrightarrow> (\<exists>j. e = Inr j \<and> dec old j = Some x \<and> json_ok j \<and> json_depth j \<le> d)"

lemma decodes_string [codec]: "valid_utf8 s \<Longrightarrow> decodes d dec_string old (enc_string s) s"
  by (simp add: decodes_def enc_string_def dec_string_def unquote_escape json_escape_raw)

lemma decodes_bool [codec]: "decodes d dec_bool old (enc_bool b) b"
  by (simp add: decodes_def enc_bool_def dec_bool_def)

lemma decodes_f64 [codec]: "number x \<Longrightarrow> decodes d dec_f64 old (enc_f64 x) x"
  using number_ok_float [of x] parse_format_json [of x] by (simp add: decodes_def enc_f64_def dec_f64_def number_def)

lemma decodes_u64 [codec]: "decodes d dec_u64 old (enc_int (uint w)) w"
  by (simp add: decodes_def enc_int_def dec_u64_def parse_uint_format number_ok_int)

text \<open>Text without characters that need an escape.\<close>

lemma plain_digits: assumes "list_all is_digit s" shows "list_all plain_char s"
proof -
  have "list_all plain_char ''0123456789''" by code_simp
  then have "plain_char c" if "is_digit c" for c using that unfolding is_digit_def list_all_iff by (rule bspec)
  then show ?thesis using assms unfolding list_all_iff by blast
qed

lemma plain_padded: "list_all plain_char (format_padded w k)"
proof -
  have p: "list_all plain_char ''-0''" by code_simp
  show ?thesis
    using plain_digits [of "int_digits k"] plain_digits [of "int_digits (- k)"] int_digits_digits [of k] int_digits_digits [of "- k"] p
    by (auto simp: format_padded_def pad_left_def list_all_iff)
qed

lemma plain_time: "list_all plain_char (format_rfc3339nano t)"
proof -
  have p: "list_all plain_char ''-T:.Z''" by code_simp
  have f: "list_all plain_char (format_fraction ns)" for ns
    using p plain_padded [of 9 ns] by (auto simp: format_fraction_def strip_zeros_def list_all_iff dest: set_dropWhileD)
  show ?thesis using p f plain_padded
    by (auto simp: format_rfc3339nano_def Let_def list_all_iff split: prod.split)
qed

lemma decodes_time [codec]: "0 \<le> year_of t \<Longrightarrow> year_of t \<le> 9999 \<Longrightarrow> decodes d dec_time old (enc_time t) t"
  using parse_format_time [of t] passed_raw [OF passed_plain [OF plain_time [of t]]]
  by (simp add: decodes_def enc_time_def dec_time_def year_of_def)

lemma decodes_field [codec]: "decodes d dec (get r) e x \<Longrightarrow> decodes d (field get upd dec) r e (upd (\<lambda>_. x) r)"
  by (auto simp: decodes_def field_def)

subsection \<open>Structs\<close>

text \<open>The fields of a struct, decoded one after the other into the record.\<close>

inductive decodes_each :: "nat \<Rightarrow> 'r decoder list \<Rightarrow> encoded list \<Rightarrow> 'r \<Rightarrow> 'r \<Rightarrow> bool" for d where
  each_Nil: "decodes_each d [] [] r r"
| each_Cons: "decodes d dec r e r' \<Longrightarrow> decodes_each d decs es r' r'' \<Longrightarrow> decodes_each d (dec # decs) (e # es) r r''"

definition plain_keys :: "string list \<Rightarrow> bool" where
  "plain_keys ks \<longleftrightarrow> distinct ks \<and> list_all (\<lambda>k. raw_ok k \<and> unquote k = k) ks"

lemma decode_members_each:
  assumes "decodes_each d decs es r r'"
  shows "map snd fs = decs \<Longrightarrow> map snd ps = es \<Longrightarrow> map fst fs = map fst ps \<Longrightarrow>
    list_all (\<lambda>p. find_field T (fst p) = Some (snd p) \<and> raw_ok (fst p) \<and> unquote (fst p) = fst p) fs \<Longrightarrow>
    \<exists>vs. enc_members ps = Inr vs \<and> decode_members strict T r vs = Some r' \<and> members_ok vs \<and> members_depth vs \<le> d"
  using assms
proof (induction arbitrary: fs ps)
  case (each_Nil r)
  then show ?case by simp
next
  case (each_Cons dec r e r' decs es r'')
  obtain k fs' where fs: "fs = (k, dec) # fs'" "map snd fs' = decs" using each_Cons.prems(1) by (cases fs) auto
  obtain ps' where ps: "ps = (k, e) # ps'" "map snd ps' = es" "map fst fs' = map fst ps'"
    using each_Cons.prems(2,3) fs by (cases ps) auto
  obtain j where j: "e = Inr j" "dec r j = Some r'" "json_ok j" "json_depth j \<le> d"
    using each_Cons.hyps(1) by (auto simp: decodes_def)
  have "\<exists>vs. enc_members ps' = Inr vs \<and> decode_members strict T r' vs = Some r'' \<and> members_ok vs \<and> members_depth vs \<le> d"
    by (rule each_Cons.IH [OF fs(2) ps(2,3)]) (use each_Cons.prems(4) fs(1) in \<open>simp add: list_all_iff\<close>)
  then obtain vs where "enc_members ps' = Inr vs" "decode_members strict T r' vs = Some r''" "members_ok vs" "members_depth vs \<le> d"
    by blast
  then show ?case using j fs ps each_Cons.prems(4) by (intro exI [of _ "(k, j) # vs"]) simp
qed

lemma decodes_struct:
  assumes "decodes_each d (map snd fs) (map snd ps) r r'" "map fst fs = map fst ps" "plain_keys (map fst fs)"
  shows "decodes (Suc d) (dec_struct strict fs) r (enc_struct ps) r'"
proof -
  have "find_field fs k = Some dec" if "(k, dec) \<in> set fs" for k dec
    using that assms(3) map_of_is_SomeI [of fs k dec] by (simp add: find_field_def plain_keys_def)
  then have "list_all (\<lambda>p. find_field fs (fst p) = Some (snd p) \<and> raw_ok (fst p) \<and> unquote (fst p) = fst p) fs"
    using assms(3) by (auto simp: list_all_iff plain_keys_def)
  from decode_members_each [OF assms(1) refl refl assms(2) this, of strict] obtain vs where
    "enc_members ps = Inr vs" "decode_members strict fs r vs = Some r'" "members_ok vs" "members_depth vs \<le> d" by blast
  then show ?thesis by (simp add: decodes_def enc_struct_def dec_struct_def)
qed

subsection \<open>Maps\<close>

lemma decode_entries_keys:
  "\<lbrakk>\<forall>k \<in> set ks. valid_utf8 k \<and> decodes d dec z (enc (f k)) (f k)\<rbrakk> \<Longrightarrow>
   \<exists>vs. enc_members (map (\<lambda>k. (json_escape k, enc (f k))) ks) = Inr vs \<and>
     decode_entries dec z m vs = Some (fold (\<lambda>k m. AList.update k (f k) m) ks m) \<and> members_ok vs \<and> members_depth vs \<le> d"
proof (induction ks arbitrary: m)
  case (Cons k ks)
  obtain j where j: "enc (f k) = Inr j" "dec z j = Some (f k)" "json_ok j" "json_depth j \<le> d"
    using Cons.prems by (auto simp: decodes_def)
  obtain vs where "enc_members (map (\<lambda>k. (json_escape k, enc (f k))) ks) = Inr vs"
      "decode_entries dec z (AList.update k (f k) m) vs = Some (fold (\<lambda>k m. AList.update k (f k) m) ks (AList.update k (f k) m))"
      "members_ok vs" "members_depth vs \<le> d"
    using Cons.IH [of "AList.update k (f k) m"] Cons.prems by auto
  then show ?case using j Cons.prems
    by (intro exI [of _ "(json_escape k, j) # vs"]) (simp add: json_escape_raw unquote_escape)
qed simp

lemma decodes_map:
  assumes "\<forall>k \<in> set (mkeys m). valid_utf8 k \<and> decodes d dec z (enc (the (map_of m k))) (the (map_of m k))"
  shows "\<exists>m'. decodes (Suc d) (dec_map dec z) [] (enc_map enc m) m' \<and> same_map m' m"
proof -
  let ?f = "\<lambda>k. the (map_of m k)"
  define m' where "m' = fold (\<lambda>k n. AList.update k (?f k) n) (sort (mkeys m)) []"
  obtain vs where "enc_members (map (\<lambda>k. (json_escape k, enc (?f k))) (sort (mkeys m))) = Inr vs"
      "decode_entries dec z [] vs = Some m'" "members_ok vs" "members_depth vs \<le> d"
    using decode_entries_keys [of "sort (mkeys m)" d dec z enc ?f "[]"] assms unfolding m'_def by auto
  then have "decodes (Suc d) (dec_map dec z) [] (enc_map enc m) m'"
    by (simp add: decodes_def enc_map_def enc_struct_def dec_map_def)
  moreover have "map_of m' k = map_of m k" for k
  proof (cases "map_of m k")
    case None
    then have "k \<notin> set (mkeys m)" by (simp add: set_mkeys domIff)
    then show ?thesis using None by (simp add: m'_def map_of_fold_update)
  next
    case (Some v)
    then have "k \<in> set (mkeys m)" by (auto simp: set_mkeys)
    then show ?thesis using Some by (simp add: m'_def map_of_fold_update)
  qed
  then have "same_map m' m" by (simp add: same_map_def fun_eq_iff)
  ultimately show ?thesis by blast
qed

subsection \<open>Scopes and metrics\<close>

text \<open>What a metric must be to survive: finite numbers, times of the years JSON knows, UTF-8 text.\<close>

definition wire_scope :: "scope \<Rightarrow> bool" where
  "wire_scope s \<longleftrightarrow> valid_utf8 (sc_Location s) \<and> valid_utf8 (sc_NetworkID s)"

definition wire_time :: "instant \<Rightarrow> bool" where
  "wire_time t \<longleftrightarrow> 0 \<le> year_of t \<and> year_of t \<le> 9999"

definition wire_metric :: "node_metric \<Rightarrow> bool" where
  "wire_metric m \<longleftrightarrow> wire_time (nm_WindowStart m) \<and> wire_time (nm_WindowEnd m) \<and> wire_scope (nm_Scope m) \<and>
     valid_utf8 (nm_NodeID m) \<and> number (nm_ErrorRate m) \<and> number (nm_CacheHitRate m) \<and> number (nm_OriginMS m) \<and>
     number (nm_P50TTFBMS m) \<and> number (nm_P95TTFBMS m) \<and> number (nm_P99TTFBMS m) \<and> number (nm_Saturation m)"

lemma plain_tables:
  "plain_keys (map fst scope_fields)" "plain_keys (map fst (metric_fields strict))"
proof -
  show "plain_keys (map fst scope_fields)" by code_simp
  have "map fst (metric_fields strict) = map fst (metric_fields False)" by (simp add: metric_fields_def)
  moreover have "plain_keys (map fst (metric_fields False))" by code_simp
  ultimately show "plain_keys (map fst (metric_fields strict))" by simp
qed

lemma decodes_scope [codec]:
  assumes "wire_scope s" shows "decodes 1 (dec_struct strict scope_fields) old (enc_scope s) s"
proof -
  have "decodes (Suc 0) (dec_struct strict scope_fields) old (enc_scope s)
      (sc_NetworkID_update (\<lambda>_. sc_NetworkID s) (sc_Location_update (\<lambda>_. sc_Location s) old))"
    unfolding enc_scope_def
    by (rule decodes_struct [OF _ _ plain_tables(1)]) (use assms in \<open>auto simp: scope_fields_def wire_scope_def intro!: each_Nil each_Cons codec\<close>)
  then show ?thesis by (cases s; cases old; simp)
qed

lemma decodes_metric [codec]:
  assumes "wire_metric m" shows "decodes 2 (dec_struct strict (metric_fields strict)) old (enc_metric m) m"
proof -
  let ?ps = "[(''window_start'', enc_time (nm_WindowStart m)), (''window_end'', enc_time (nm_WindowEnd m)),
      (''scope'', enc_scope (nm_Scope m)), (''node_id'', enc_string (nm_NodeID m)),
      (''requests'', enc_int (uint (nm_Requests m))), (''error_5xx_rate'', enc_f64 (nm_ErrorRate m)),
      (''cache_hit_ratio'', enc_f64 (nm_CacheHitRate m)), (''origin_ms_total'', enc_f64 (nm_OriginMS m)),
      (''ttfb_p50_ms'', enc_f64 (nm_P50TTFBMS m)), (''ttfb_p95_ms'', enc_f64 (nm_P95TTFBMS m)),
      (''ttfb_p99_ms'', enc_f64 (nm_P99TTFBMS m)), (''saturation'', enc_f64 (nm_Saturation m)),
      (''healthy'', enc_bool (nm_Healthy m))]"
  have e: "decodes_each 1 (map snd (metric_fields strict)) (map snd ?ps) old m"
    unfolding metric_fields_def list.map snd_conv
    by (rule each_Cons, rule decodes_field, (rule codec; use assms in \<open>simp add: wire_metric_def wire_time_def\<close>))+
      (cases m; cases old; simp add: each_Nil)
  show ?thesis
    unfolding enc_metric_def numeral_2_eq_2 One_nat_def [symmetric]
    by (rule decodes_struct [OF e _ plain_tables(2)]) (simp add: metric_fields_def)
qed

end
