(* ===== verification/Publisher.thy ===== *)
theory Publisher
  imports Wire
begin

text \<open>
  \<open>internal/publisher/kafka.go\<close>. The writer of kafka-go is a parameter: what \<open>WriteMessages\<close> does to
  the world \<open>'w\<close> and which error it returns.
\<close>

datatype required_acks = RequireNone | RequireOne | RequireAll

record kafka_settings =
  ks_Addr :: "string list"
  ks_Topic :: string
  ks_BatchSize :: int
  ks_BatchTimeout :: duration
  ks_RequiredAcks :: required_acks
  ks_HashBalancer :: bool
  ks_Async :: bool

definition NewKafka :: "string list \<Rightarrow> string \<Rightarrow> kafka_settings" where
  "NewKafka brokers topic =
     \<lparr>ks_Addr = brokers, ks_Topic = topic, ks_BatchSize = 100, ks_BatchTimeout = 50000000,
      ks_RequiredAcks = RequireAll, ks_HashBalancer = True, ks_Async = False\<rparr>"

record kafka_message =
  km_Key :: string
  km_Value :: string
  km_Time :: instant

type_synonym 'w writer = "kafka_message \<Rightarrow> 'w \<Rightarrow> string option \<times> 'w"

definition kafka_Publish :: "'w writer \<Rightarrow> recommendation \<Rightarrow> 'w \<Rightarrow> string option \<times> 'w" where
  "kafka_Publish write r w =
     (case marshal (enc_recommendation r) of
        Inl err \<Rightarrow> (Some err, w)
      | Inr payload \<Rightarrow> write \<lparr>km_Key = scope_Key (rc_Scope r), km_Value = payload, km_Time = rc_CreatedAt r\<rparr> w)"

definition kafka_Close :: "('w \<Rightarrow> string option \<times> 'w) \<Rightarrow> 'w \<Rightarrow> string option \<times> 'w" where
  "kafka_Close close w = close w"

end
