(* ===== verification/Wire_Props.thy ===== *)
theory Wire_Props
  imports Codec_Roundtrip Events Publisher
begin

text \<open>
  What the programs write for each other is read back: timestamps by the parsers of the repository,
  a recommendation through the columns of its table, and when a recommendation can be published.
\<close>

text \<open>C35: A timestamp of the generator or of an acknowledgement is read back as the same instant, by
  \<open>time.Parse\<close> and by the repository's parser of ClickHouse times, for all the years that JSON knows.\<close>

theorem timestamps_read_back:
  assumes "0 \<le> year_of t" "year_of t \<le> 9999"
  shows "parse_rfc3339 (events_Timestamp t) = Some t \<and> parseClickHouseTime (events_Timestamp t) = Inr t"
proof -
  have p: "parse_rfc3339 (format_rfc3339nano t) = Some t"
    using parse_format_time assms by (simp add: year_of_def)
  have "parse_sql_time (format_rfc3339nano t) = None"
  proof -
    define days where "days = t div 1000000000 div 86400"
    obtain y m d where c: "civil_from_days days = (y, m, d)" by (metis prod_cases3)
    have "t div day_ns = days" using zdiv_zmult2_eq [of 86400 t 1000000000] by (simp add: day_ns_def days_def)
    then have "0 \<le> y" "y \<le> 9999" using assms c by (simp_all add: year_of_def)
    note date = parse_format_date [OF c this]
    obtain rest where f: "format_rfc3339nano t = format_padded 4 y @ ''-'' @ format_padded 2 m @ ''-'' @ format_padded 2 d @ ''T'' @ rest"
      unfolding format_rfc3339nano_def Let_def days_def [symmetric] c prod.case by blast
    show ?thesis unfolding parse_sql_time_def f date by (simp add: expect_char_def)
  qed
  then show ?thesis using p by (simp add: events_Timestamp_def parseClickHouseTime_def)
qed

lemma timestamps_read_back_witness:
  "parse_rfc3339 (events_Timestamp 63902908800123000000) = Some 63902908800123000000"
proof -
  have y: "0 \<le> year_of 63902908800123000000" "year_of 63902908800123000000 \<le> 9999" by code_simp+
  show ?thesis by (rule conjunct1 [OF timestamps_read_back [OF y]])
qed

subsection \<open>Recommendations in the table\<close>

definition wire_weights :: "f64 gomap \<Rightarrow> bool" where
  "wire_weights w \<longleftrightarrow> (\<forall>k \<in> set (mkeys w). valid_utf8 k \<and> number (the (map_of w k)))"

definition wire_evidence :: "node_metric gomap \<Rightarrow> bool" where
  "wire_evidence ev \<longleftrightarrow> (\<forall>k \<in> set (mkeys ev). valid_utf8 k \<and> wire_metric (the (map_of ev k)))"

text \<open>The row that holds a recommendation, as the materialized view of the table extracts it from the
  published message: maps are the JSON text they were published as, times parse to what they were.\<close>

definition row_holds :: "recommendation \<Rightarrow> recommendationRow \<Rightarrow> bool" where
  "row_holds r row \<longleftrightarrow>
     rr_RecommendationID row = rc_RecommendationID r \<and> parseClickHouseTime (rr_CreatedAt row) = Inr (rc_CreatedAt r) \<and>
     parseClickHouseTime (rr_ValidUntil row) = Inr (rc_ValidUntil r) \<and> rr_Revision row = rc_Revision r \<and>
     rr_Mode row = rc_Mode r \<and> rr_Action row = rc_Action r \<and>
     marshal (enc_map enc_f64 (rc_Current r)) = Inr (rr_CurrentJSON row) \<and>
     marshal (enc_map enc_f64 (rc_Proposed r)) = Inr (rr_ProposedJSON row) \<and>
     rr_EvidenceWindow row = rc_EvidenceWindow r \<and> rr_ReasonCodes row = rc_ReasonCodes r \<and>
     rr_ExpectedP95 row = ed_P95TTFBDeltaMS (rc_Expected r) \<and> rr_ExpectedError row = ed_ErrorRateDelta (rc_Expected r) \<and>
     rr_ExpectedCost row = ed_CostUnitsDelta (rc_Expected r) \<and> rr_Confidence row = rc_Confidence r \<and>
     rr_ModelVersion row = rc_ModelVersion r \<and> parseClickHouseTime (rr_InputWindowStart row) = Inr (rc_InputWindowStart r) \<and>
     parseClickHouseTime (rr_InputWindowEnd row) = Inr (rc_InputWindowEnd r) \<and> rr_QueryVersion row = rc_QueryVersion r \<and>
     rr_ConfigHash row = rc_ConfigHash r \<and> marshal (enc_map enc_metric (rc_Evidence r)) = Inr (rr_EvidenceJSON row)"

lemma unmarshal_decodes:
  assumes "decodes d (dec_map dec z) [] e m'" "marshal e = Inr text" "d \<le> max_depth"
  shows "unmarshal_map why what dec z text = Inr m'"
  using assms json_parse_render by (auto simp: decodes_def marshal_def unmarshal_map_def)

lemma weights_read_back:
  assumes "wire_weights w" "marshal (enc_map enc_f64 w) = Inr text"
  shows "\<exists>w'. unmarshal_map why what dec_f64 0 text = Inr w' \<and> same_map w' w"
proof -
  obtain w' where "decodes (Suc 0) (dec_map dec_f64 0) [] (enc_map enc_f64 w) w'" "same_map w' w"
    using decodes_map [of w 0 dec_f64 0 enc_f64] assms(1) codec by (auto simp: wire_weights_def)
  then show ?thesis using unmarshal_decodes [of "Suc 0" dec_f64 0 "enc_map enc_f64 w" w' "text" why what] assms(2)
    by (auto simp: max_depth_def)
qed

lemma empty_object: "marshal (enc_map enc_metric ev) = Inr ''{}'' \<Longrightarrow> ev = []"
proof (rule ccontr)
  assume m: "marshal (enc_map enc_metric ev) = Inr ''{}''" and ev: "ev \<noteq> []"
  then obtain k ks where k: "sort (mkeys ev) = k # ks" by (metis length_0_conv length_sort list.exhaust length_map mkeys_def)
  obtain vs where "enc_members (map (\<lambda>k. (json_escape k, enc_metric (the (map_of ev k)))) (sort (mkeys ev))) = Inr vs"
      "json_render (JObj vs) = ''{}''"
    using m by (auto simp: marshal_def enc_map_def enc_struct_def split: sum.splits)
  then show False unfolding k by (cases vs) (auto split: sum.splits)
qed

lemma evidence_reads_back:
  assumes "wire_evidence ev" "marshal (enc_map enc_metric ev) = Inr text"
  shows "\<exists>ev'. decode_evidence why text = Inr ev' \<and> same_map ev' ev"
proof (cases "text = ''{}''")
  case True
  then show ?thesis using assms(2) empty_object [of ev] by (auto simp: decode_evidence_def)
next
  case False
  obtain ev' where "decodes (Suc 2) (dec_map (dec_struct False (metric_fields False)) zero_metric) [] (enc_map enc_metric ev) ev'" "same_map ev' ev"
    using decodes_map [of ev 2 "dec_struct False (metric_fields False)" zero_metric enc_metric] assms(1) decodes_metric
    by (auto simp: wire_evidence_def)
  moreover have "text \<noteq> []" using assms(2) by (auto simp: marshal_def enc_map_def enc_struct_def split: sum.splits)
  ultimately show ?thesis using False assms(2)
      unmarshal_decodes [of "Suc 2" "dec_struct False (metric_fields False)" zero_metric "enc_map enc_metric ev" ev' "text"]
    by (auto simp: decode_evidence_def max_depth_def)
qed

lemma delta_eta:
  "\<lparr>ed_P95TTFBDeltaMS = ed_P95TTFBDeltaMS d, ed_ErrorRateDelta = ed_ErrorRateDelta d, ed_CostUnitsDelta = ed_CostUnitsDelta d\<rparr> = d"
  by (cases d) simp

text \<open>The row of a recommendation gives the recommendation back.\<close>

lemma row_reads_back:
  assumes "row_holds r row" "rc_SchemaVersion r = 1" "wire_weights (rc_Current r)" "wire_weights (rc_Proposed r)"
    "wire_evidence (rc_Evidence r)"
  shows "\<exists>r'. row_recommendation why (rc_Scope r) row = Inr r' \<and>
    same_map (rc_Current r') (rc_Current r) \<and> same_map (rc_Proposed r') (rc_Proposed r) \<and> same_map (rc_Evidence r') (rc_Evidence r) \<and>
    r' = r\<lparr>rc_Current := rc_Current r', rc_Proposed := rc_Proposed r', rc_Evidence := rc_Evidence r'\<rparr>"
proof -
  note h = assms(1) [unfolded row_holds_def]
  obtain c where c: "unmarshal_map why ''decode current weights: '' dec_f64 0 (rr_CurrentJSON row) = Inr c" "same_map c (rc_Current r)"
    using weights_read_back [OF assms(3)] h by blast
  obtain p where p: "unmarshal_map why ''decode proposed weights: '' dec_f64 0 (rr_ProposedJSON row) = Inr p" "same_map p (rc_Proposed r)"
    using weights_read_back [OF assms(4)] h by blast
  obtain ev where ev: "decode_evidence why (rr_EvidenceJSON row) = Inr ev" "same_map ev (rc_Evidence r)"
    using evidence_reads_back [OF assms(5)] h by blast
  have "row_recommendation why (rc_Scope r) row = Inr (r\<lparr>rc_Current := c, rc_Proposed := p, rc_Evidence := ev\<rparr>)"
    by (simp add: row_recommendation_def bind_error_def context_error_def h c(1) p(1) ev(1))
      (rule recommendation.equality, simp_all add: assms(2) delta_eta)
  then show ?thesis using c(2) p(2) ev(2) by simp
qed

definition stored_metric :: node_metric where
  "stored_metric = zero_metric\<lparr>nm_WindowStart := 63902822340000000000, nm_WindowEnd := 63902822400000000000, nm_NodeID := ''edge-1'',
     nm_Requests := 500, nm_ErrorRate := lit 1 2, nm_P95TTFBMS := lit 425 1, nm_Healthy := True\<rparr>"

definition stored_recommendation :: recommendation where
  "stored_recommendation =
     \<lparr>rc_SchemaVersion = 1, rc_RecommendationID = ''rec-1'', rc_CreatedAt = 63902822400000000000, rc_ValidUntil = 63902822520000000000,
      rc_Mode = ''shadow'', rc_Scope = \<lparr>sc_Location = ''sydney'', sc_NetworkID = ''UNKNOWN''\<rparr>, rc_Action = ''adjust_node_weights'',
      rc_Current = [(''edge-1'', lit 5 1)], rc_Proposed = [(''edge-1'', lit 5 1)], rc_EvidenceWindow = ''15m'',
      rc_ReasonCodes = [''HIGH_5XX_RATE''], rc_Expected = zero_delta, rc_Confidence = lit 9 1, rc_ModelVersion = ''rule-ewma-mad-v1'',
      rc_Revision = 1, rc_InputWindowStart = 63902822340000000000, rc_InputWindowEnd = 63902822400000000000,
      rc_QueryVersion = ''node-quality-v1'', rc_ConfigHash = ''0011223344556677'', rc_Evidence = [(''edge-1'', stored_metric)]\<rparr>"

definition stored_row :: "string \<Rightarrow> string \<Rightarrow> string \<Rightarrow> recommendationRow" where
  "stored_row current proposed evidence =
     (let r = stored_recommendation in zero_recommendationRow
        \<lparr>rr_RecommendationID := rc_RecommendationID r, rr_CreatedAt := ''2026-01-01 00:00:00.000'',
         rr_ValidUntil := ''2026-01-01 00:02:00.000'', rr_Revision := 1, rr_Mode := rc_Mode r, rr_Action := rc_Action r,
         rr_CurrentJSON := current, rr_ProposedJSON := proposed, rr_EvidenceWindow := rc_EvidenceWindow r,
         rr_ReasonCodes := rc_ReasonCodes r, rr_Confidence := rc_Confidence r, rr_ModelVersion := rc_ModelVersion r,
         rr_InputWindowStart := ''2025-12-31 23:59:00.000'', rr_InputWindowEnd := ''2026-01-01 00:00:00.000'',
         rr_QueryVersion := rc_QueryVersion r, rr_ConfigHash := rc_ConfigHash r, rr_EvidenceJSON := evidence\<rparr>)"

lemma stored_wire:
  "wire_weights (rc_Current stored_recommendation)" "wire_weights (rc_Proposed stored_recommendation)"
  "wire_evidence (rc_Evidence stored_recommendation)"
  by code_simp+

lemma stored_times:
  "parseClickHouseTime ''2026-01-01 00:00:00.000'' = Inr 63902822400000000000"
  "parseClickHouseTime ''2026-01-01 00:02:00.000'' = Inr 63902822520000000000"
  "parseClickHouseTime ''2025-12-31 23:59:00.000'' = Inr 63902822340000000000"
  by code_simp+

definition marshal_text :: "encoded \<Rightarrow> string" where
  "marshal_text e = (case marshal e of Inl err \<Rightarrow> [] | Inr t \<Rightarrow> t)"

definition sample_row :: recommendationRow where
  "sample_row = stored_row (marshal_text (enc_map enc_f64 (rc_Current stored_recommendation)))
     (marshal_text (enc_map enc_f64 (rc_Proposed stored_recommendation))) (marshal_text (enc_map enc_metric (rc_Evidence stored_recommendation)))"

lemma marshal_text_encodes: "encodes e \<Longrightarrow> marshal e = Inr (marshal_text e)"
  unfolding marshal_ok [symmetric] by (auto simp: marshal_text_def)

lemma sample_row_holds: "row_holds stored_recommendation sample_row"
proof -
  have "encodes (enc_map enc_f64 (rc_Current stored_recommendation))" "encodes (enc_map enc_f64 (rc_Proposed stored_recommendation))"
      "encodes (enc_map enc_metric (rc_Evidence stored_recommendation))"
    unfolding encodes_map by code_simp+
  note this [THEN marshal_text_encodes]
  then show ?thesis
    unfolding row_holds_def
    by (simp add: sample_row_def stored_row_def Let_def zero_recommendationRow_def stored_times)
      (simp add: stored_recommendation_def zero_delta_def)
qed

subsection \<open>Publishing\<close>

definition finite_wire :: "node_metric \<Rightarrow> bool" where
  "finite_wire m \<longleftrightarrow> wire_time (nm_WindowStart m) \<and> wire_time (nm_WindowEnd m) \<and> finite_f64 (nm_ErrorRate m) \<and>
     finite_f64 (nm_CacheHitRate m) \<and> finite_f64 (nm_OriginMS m) \<and> finite_f64 (nm_P50TTFBMS m) \<and> finite_f64 (nm_P95TTFBMS m) \<and>
     finite_f64 (nm_P99TTFBMS m) \<and> finite_f64 (nm_Saturation m)"

text \<open>What a recommendation needs for the broker: finite numbers and times of the years JSON knows.\<close>

definition publishable :: "recommendation \<Rightarrow> bool" where
  "publishable r \<longleftrightarrow>
     wire_time (rc_CreatedAt r) \<and> wire_time (rc_ValidUntil r) \<and> wire_time (rc_InputWindowStart r) \<and> wire_time (rc_InputWindowEnd r) \<and>
     (\<forall>k \<in> set (mkeys (rc_Current r)). finite_f64 (the (map_of (rc_Current r) k))) \<and>
     (\<forall>k \<in> set (mkeys (rc_Proposed r)). finite_f64 (the (map_of (rc_Proposed r) k))) \<and>
     finite_f64 (ed_P95TTFBDeltaMS (rc_Expected r)) \<and> finite_f64 (ed_ErrorRateDelta (rc_Expected r)) \<and>
     finite_f64 (ed_CostUnitsDelta (rc_Expected r)) \<and> finite_f64 (rc_Confidence r) \<and>
     (\<forall>k \<in> set (mkeys (rc_Evidence r)). finite_wire (the (map_of (rc_Evidence r) k)))"

lemma encodes_metric [simp]: "encodes (enc_metric m) \<longleftrightarrow> finite_wire m"
  by (auto simp: enc_metric_def enc_scope_def finite_wire_def wire_time_def)

lemma encodes_recommendation: "encodes (enc_recommendation r) \<longleftrightarrow> publishable r"
  by (auto simp: enc_recommendation_def enc_scope_def enc_delta_def publishable_def wire_time_def list_all_iff)

text \<open>C34: \<open>Publish\<close> hands the writer one message, keyed by the scope and stamped with the creation time,
  exactly for a recommendation whose numbers are finite and whose times JSON can express; for any
  other it returns an error and writes nothing.\<close>

theorem publish_writes_or_refuses:
  "(publishable r \<longrightarrow> (\<exists>j. enc_recommendation r = Inr j \<and>
      kafka_Publish write r w = write \<lparr>km_Key = scope_Key (rc_Scope r), km_Value = json_render j, km_Time = rc_CreatedAt r\<rparr> w)) \<and>
   (\<not> publishable r \<longrightarrow> (\<exists>err. kafka_Publish write r w = (Some err, w)))"
proof (cases "enc_recommendation r")
  case (Inl err)
  then show ?thesis using encodes_recommendation [of r] by (simp add: kafka_Publish_def marshal_def)
next
  case (Inr j)
  then show ?thesis using encodes_recommendation [of r] by (simp add: kafka_Publish_def marshal_def)
qed

lemma publish_writes_or_refuses_witness:
  "\<exists>j. kafka_Publish (\<lambda>m w. (None, w @ [m])) stored_recommendation [] =
     (None, [\<lparr>km_Key = ''sydney|UNKNOWN'', km_Value = json_render j, km_Time = 63902822400000000000\<rparr>])"
proof -
  have p: "publishable stored_recommendation" by code_simp
  have k: "scope_Key (rc_Scope stored_recommendation) = ''sydney|UNKNOWN''" "rc_CreatedAt stored_recommendation = 63902822400000000000"
    by (simp_all add: stored_recommendation_def scope_Key_def)
  show ?thesis
    using publish_writes_or_refuses [of stored_recommendation "\<lambda>m w. (None, w @ [m])" "[]"] p unfolding k by auto
qed

end
