(* ===== verification/Store_Props.thy ===== *)
theory Store_Props
  imports Wire_Props
begin

text \<open>
  What the repository makes of the replies of ClickHouse: rows in the \<open>data\<close> of a reply become metrics
  and the latest recommendation, whatever else the reply holds beside them.
\<close>

subsection \<open>Lists and rows\<close>

lemma decode_items_all:
  assumes "list_all (\<lambda>x. decodes d dec z (enc x) x) xs"
  shows "\<exists>vs. enc_members (map (\<lambda>x. ([], enc x)) xs) = Inr vs \<and> decode_items dec z [] (map snd vs) = Some xs \<and>
    elements_ok (map snd vs) \<and> elements_depth (map snd vs) \<le> d"
  using assms
proof (induction xs)
  case (Cons x xs)
  obtain j where j: "enc x = Inr j" "dec z j = Some x" "json_ok j" "json_depth j \<le> d" using Cons.prems by (auto simp: decodes_def)
  obtain vs where "enc_members (map (\<lambda>x. ([], enc x)) xs) = Inr vs" "decode_items dec z [] (map snd vs) = Some xs"
      "elements_ok (map snd vs)" "elements_depth (map snd vs) \<le> d"
    using Cons by auto
  then show ?case using j by (intro exI [of _ "([], j) # vs"]) simp
qed simp

lemma decodes_list:
  assumes "list_all (\<lambda>x. decodes d dec z (enc x) x) xs"
  shows "decodes (Suc d) (dec_list dec z) [] (enc_list enc xs) xs"
  using decode_items_all [OF assms] by (auto simp: decodes_def enc_list_def dec_list_def)

lemma decodes_deeper: "decodes d dec old e x \<Longrightarrow> d \<le> d' \<Longrightarrow> decodes d' dec old e x"
  by (auto simp: decodes_def)

lemma decodes_u32 [codec]: "decodes d dec_u32 old (enc_int (uint w)) w"
proof -
  have w: "uint w < 4294967296" using uint_range_size [of w] by (simp add: word_size)
  have u: "uint (ucast w :: u64) = uint w" by (rule uint_up_ucast) (simp add: is_up)
  have "parse_uint (format_int (uint w)) = Some (ucast w)" using parse_uint_format [of "ucast w"] unfolding u .
  moreover have "ucast (ucast w :: u64) = w"
    using w by (intro word_uint_eqI) (simp add: unsigned_ucast_eq [of "ucast w"] u take_bit_int_eq_self)
  ultimately show ?thesis using w by (simp add: decodes_def enc_int_def dec_u32_def number_ok_int u)
qed

text \<open>A row as ClickHouse writes it: one member per column of the query.\<close>

definition enc_metricRow :: "metricRow \<Rightarrow> encoded" where
  "enc_metricRow r = enc_struct
     [(''window_start'', enc_string (mr_WindowStart r)), (''window_end'', enc_string (mr_WindowEnd r)),
      (''node_id'', enc_string (mr_NodeID r)), (''requests'', enc_int (uint (mr_Requests r))),
      (''error_5xx_rate'', enc_f64 (mr_ErrorRate r)), (''cache_hit_ratio'', enc_f64 (mr_CacheHitRate r)),
      (''origin_ms_total'', enc_f64 (mr_OriginMS r)), (''ttfb_p50_ms'', enc_f64 (mr_P50TTFBMS r)),
      (''ttfb_p95_ms'', enc_f64 (mr_P95TTFBMS r)), (''ttfb_p99_ms'', enc_f64 (mr_P99TTFBMS r)),
      (''saturation'', enc_f64 (mr_Saturation r))]"

definition wire_metricRow :: "metricRow \<Rightarrow> bool" where
  "wire_metricRow r \<longleftrightarrow> list_all valid_utf8 [mr_WindowStart r, mr_WindowEnd r, mr_NodeID r] \<and>
     list_all number [mr_ErrorRate r, mr_CacheHitRate r, mr_OriginMS r, mr_P50TTFBMS r, mr_P95TTFBMS r, mr_P99TTFBMS r, mr_Saturation r]"

lemma decodes_metricRow:
  assumes "wire_metricRow r" shows "decodes 1 (dec_struct False metricRow_fields) old (enc_metricRow r) r"
proof -
  let ?ps = "[(''window_start'', enc_string (mr_WindowStart r)), (''window_end'', enc_string (mr_WindowEnd r)),
      (''node_id'', enc_string (mr_NodeID r)), (''requests'', enc_int (uint (mr_Requests r))),
      (''error_5xx_rate'', enc_f64 (mr_ErrorRate r)), (''cache_hit_ratio'', enc_f64 (mr_CacheHitRate r)),
      (''origin_ms_total'', enc_f64 (mr_OriginMS r)), (''ttfb_p50_ms'', enc_f64 (mr_P50TTFBMS r)),
      (''ttfb_p95_ms'', enc_f64 (mr_P95TTFBMS r)), (''ttfb_p99_ms'', enc_f64 (mr_P99TTFBMS r)),
      (''saturation'', enc_f64 (mr_Saturation r))]"
  have e: "decodes_each 0 (map snd metricRow_fields) (map snd ?ps) old r"
    unfolding metricRow_fields_def list.map snd_conv
    by (rule each_Cons, rule decodes_field, (rule codec; use assms in \<open>simp add: wire_metricRow_def\<close>))+
      (cases r; cases old; simp add: each_Nil)
  have "plain_keys (map fst metricRow_fields)" by code_simp
  from decodes_struct [OF e _ this, of False] show ?thesis
    unfolding enc_metricRow_def One_nat_def by (simp add: metricRow_fields_def)
qed

definition enc_recommendationRow :: "recommendationRow \<Rightarrow> encoded" where
  "enc_recommendationRow r = enc_struct
     [(''recommendation_id'', enc_string (rr_RecommendationID r)), (''created_at'', enc_string (rr_CreatedAt r)),
      (''valid_until'', enc_string (rr_ValidUntil r)), (''revision'', enc_int (uint (rr_Revision r))),
      (''mode'', enc_string (rr_Mode r)), (''action'', enc_string (rr_Action r)),
      (''current_json'', enc_string (rr_CurrentJSON r)), (''proposed_json'', enc_string (rr_ProposedJSON r)),
      (''evidence_window'', enc_string (rr_EvidenceWindow r)), (''reason_codes'', enc_list enc_string (rr_ReasonCodes r)),
      (''expected_p95_ttfb_delta_ms'', enc_f64 (rr_ExpectedP95 r)), (''expected_error_rate_delta'', enc_f64 (rr_ExpectedError r)),
      (''expected_cost_units_delta'', enc_f64 (rr_ExpectedCost r)), (''confidence'', enc_f64 (rr_Confidence r)),
      (''model_version'', enc_string (rr_ModelVersion r)), (''input_window_start'', enc_string (rr_InputWindowStart r)),
      (''input_window_end'', enc_string (rr_InputWindowEnd r)), (''query_version'', enc_string (rr_QueryVersion r)),
      (''config_hash'', enc_string (rr_ConfigHash r)), (''evidence_json'', enc_string (rr_EvidenceJSON r))]"

definition wire_recommendationRow :: "recommendationRow \<Rightarrow> bool" where
  "wire_recommendationRow r \<longleftrightarrow>
     list_all valid_utf8 [rr_RecommendationID r, rr_CreatedAt r, rr_ValidUntil r, rr_Mode r, rr_Action r, rr_CurrentJSON r, rr_ProposedJSON r,
       rr_EvidenceWindow r, rr_ModelVersion r, rr_InputWindowStart r, rr_InputWindowEnd r, rr_QueryVersion r, rr_ConfigHash r, rr_EvidenceJSON r] \<and>
     list_all valid_utf8 (rr_ReasonCodes r) \<and>
     list_all number [rr_ExpectedP95 r, rr_ExpectedError r, rr_ExpectedCost r, rr_Confidence r]"

lemma decodes_codes [codec]:
  "old = [] \<Longrightarrow> list_all valid_utf8 ss \<Longrightarrow> decodes 1 (dec_list dec_string []) old (enc_list enc_string ss) ss"
  unfolding One_nat_def by (simp, rule decodes_list) (auto simp: list_all_iff intro: codec)

lemma decodes_recommendationRow:
  assumes "wire_recommendationRow r"
  shows "decodes 2 (dec_struct False recommendationRow_fields) zero_recommendationRow (enc_recommendationRow r) r"
proof -
  have "decodes_each 1 (map snd recommendationRow_fields) (map snd
      [(''recommendation_id'', enc_string (rr_RecommendationID r)), (''created_at'', enc_string (rr_CreatedAt r)),
      (''valid_until'', enc_string (rr_ValidUntil r)), (''revision'', enc_int (uint (rr_Revision r))),
      (''mode'', enc_string (rr_Mode r)), (''action'', enc_string (rr_Action r)),
      (''current_json'', enc_string (rr_CurrentJSON r)), (''proposed_json'', enc_string (rr_ProposedJSON r)),
      (''evidence_window'', enc_string (rr_EvidenceWindow r)), (''reason_codes'', enc_list enc_string (rr_ReasonCodes r)),
      (''expected_p95_ttfb_delta_ms'', enc_f64 (rr_ExpectedP95 r)), (''expected_error_rate_delta'', enc_f64 (rr_ExpectedError r)),
      (''expected_cost_units_delta'', enc_f64 (rr_ExpectedCost r)), (''confidence'', enc_f64 (rr_Confidence r)),
      (''model_version'', enc_string (rr_ModelVersion r)), (''input_window_start'', enc_string (rr_InputWindowStart r)),
      (''input_window_end'', enc_string (rr_InputWindowEnd r)), (''query_version'', enc_string (rr_QueryVersion r)),
      (''config_hash'', enc_string (rr_ConfigHash r)), (''evidence_json'', enc_string (rr_EvidenceJSON r))]) zero_recommendationRow r"
    unfolding recommendationRow_fields_def list.map snd_conv
    by (rule each_Cons, rule decodes_field,
        (rule codec; use assms in \<open>simp add: wire_recommendationRow_def zero_recommendationRow_def\<close>))+
      (cases r; simp add: zero_recommendationRow_def each_Nil)
  moreover have "plain_keys (map fst recommendationRow_fields)" by code_simp
  ultimately show ?thesis
    using decodes_struct [of 1 recommendationRow_fields] unfolding enc_recommendationRow_def numeral_2_eq_2 One_nat_def [symmetric]
    by (simp add: recommendationRow_fields_def)
qed

subsection \<open>Replies\<close>

text \<open>A reply document: an object whose member \<open>data\<close> holds the rows, beside members of other names, and
  perhaps white space behind it; it fits into the bytes that are read.\<close>

definition other_key :: "string \<Rightarrow> bool" where
  "other_key k \<longleftrightarrow> unquote k \<noteq> ''data'' \<and> fold_name (unquote k) \<noteq> ''data''"

definition data_reply :: "encoded \<Rightarrow> string \<Rightarrow> bool" where
  "data_reply rows body \<longleftrightarrow>
     (\<exists>before v after t. rows = Inr v \<and> body = json_render (JObj (before @ (''data'', v) # after)) @ t \<and> number_end t \<and>
        members_ok (before @ after) \<and> members_depth (before @ after) < max_depth \<and>
        list_all (\<lambda>p. other_key (fst p)) (before @ after) \<and> length body \<le> nat reply_limit)"

text \<open>The server answers the query with 200 and the body.\<close>

definition answers :: "'w platform \<Rightarrow> clickhouse \<Rightarrow> string \<Rightarrow> (string \<times> string) list \<Rightarrow> 'w \<Rightarrow> string \<Rightarrow> 'w \<Rightarrow> bool" where
  "answers p c query params w body w' \<longleftrightarrow>
     (\<exists>u. pl_url p (ch_endpoint c) = Inr u \<and>
        pl_do p \<lparr>hc_URL = u\<lparr>ur_Query := params\<rparr>, hc_User = ch_user c, hc_Password = ch_password c, hc_ContentType = ''text/plain'',
          hc_Body = query\<rparr> w = (Inr \<lparr>hr_Status = 200, hr_Body = body\<rparr>, w'))"

lemma members_append [simp]:
  "members_ok (a @ b) \<longleftrightarrow> members_ok a \<and> members_ok b" "members_depth (a @ b) = max (members_depth a) (members_depth b)"
  by (induction a) auto

lemma find_data: "find_field (data_fields dec z) k = (if k = ''data'' \<or> fold_name k = ''data'' then Some (dec_list dec z) else None)"
proof -
  have "fold_name ''data'' = ''data''" by code_simp
  then show ?thesis by (auto simp: find_field_def data_fields_def)
qed

lemma skip_others:
  "list_all (\<lambda>p. other_key (fst p)) ps \<Longrightarrow>
   decode_members False (data_fields dec z) r (ps @ qs) = decode_members False (data_fields dec z) r qs"
  by (induction ps) (auto simp: other_key_def find_data)

lemma reply_decodes:
  assumes "data_reply (enc_list enc rows) body" "list_all (\<lambda>x. decodes d dec z (enc x) x) rows" "Suc (Suc d) \<le> max_depth"
  shows "\<exists>v rest. json_first (take (nat reply_limit) body) = Some (v, rest) \<and>
    dec_struct False (data_fields dec z) [] v = Some rows"
proof -
  obtain before v after t where b: "enc_list enc rows = Inr v" "body = json_render (JObj (before @ (''data'', v) # after)) @ t" "number_end t"
      "members_ok (before @ after)" "members_depth (before @ after) < max_depth"
      "list_all (\<lambda>p. other_key (fst p)) (before @ after)" "length body \<le> nat reply_limit"
    using assms(1) unfolding data_reply_def by blast
  have v: "dec_list dec z [] v = Some rows" "json_ok v" "json_depth v \<le> Suc d"
    using decodes_list [OF assms(2)] b(1) by (auto simp: decodes_def)
  have k: "raw_ok ''data''" "unquote ''data'' = ''data''" by code_simp+
  let ?j = "JObj (before @ (''data'', v) # after)"
  have ok: "json_ok ?j" using b(4) v(2) k(1) by simp
  have "members_depth before < max_depth" "members_depth after < max_depth" "json_depth v < max_depth"
    using b(5) v(3) assms(3) by simp_all
  then have depth: "json_depth ?j \<le> max_depth" by (simp add: Suc_le_eq)
  from json_first_render [OF ok depth b(3)] have "json_first (take (nat reply_limit) body) = Some (?j, t)"
    using b(2,7) by simp
  moreover have "dec_struct False (data_fields dec z) [] ?j = Some rows"
    using b(6) skip_others [of after dec z rows "[]"] v(1) k(2) by (simp add: dec_struct_def skip_others find_data)
  ultimately show ?thesis by blast
qed

lemma queryJSON_answer:
  assumes "answers p c query params w body w'" "json_first (take (nat reply_limit) body) = Some (v, rest)" "dec z v = Some x"
  shows "queryJSON p c query params dec z w = (Inr x, w')"
  using assms by (auto simp: answers_def queryJSON_def post_def Let_def)

lemma rows_read:
  assumes "answers p c query params w body w'" "data_reply (enc_list enc rows) body"
    "list_all (\<lambda>x. decodes d dec z (enc x) x) rows" "Suc (Suc d) \<le> max_depth"
  shows "queryJSON p c query params (dec_struct False (data_fields dec z)) [] w = (Inr rows, w')"
proof -
  obtain v rest where "json_first (take (nat reply_limit) body) = Some (v, rest)" "dec_struct False (data_fields dec z) [] v = Some rows"
    using reply_decodes [OF assms(2-4)] by (elim exE conjE)
  then show ?thesis by (rule queryJSON_answer [OF assms(1)])
qed

subsection \<open>History\<close>

definition row_shows :: "scope \<Rightarrow> metricRow \<Rightarrow> node_metric \<Rightarrow> bool" where
  "row_shows sc row m \<longleftrightarrow>
     parseClickHouseTime (mr_WindowStart row) = Inr (nm_WindowStart m) \<and> parseClickHouseTime (mr_WindowEnd row) = Inr (nm_WindowEnd m) \<and>
     nm_Scope m = sc \<and> nm_Healthy m \<and> mr_NodeID row = nm_NodeID m \<and> mr_Requests row = nm_Requests m \<and>
     mr_ErrorRate row = nm_ErrorRate m \<and> mr_CacheHitRate row = nm_CacheHitRate m \<and> mr_OriginMS row = nm_OriginMS m \<and>
     mr_P50TTFBMS row = nm_P50TTFBMS m \<and> mr_P95TTFBMS row = nm_P95TTFBMS m \<and> mr_P99TTFBMS row = nm_P99TTFBMS m \<and>
     mr_Saturation row = nm_Saturation m"

lemma row_metrics_shown: "list_all2 (row_shows sc) rows ms \<Longrightarrow> row_metrics sc rows = Inr ms"
proof (induction rule: list_all2_induct)
  case (Cons row rows m ms)
  have "row_metric sc row = Inr m" using Cons.hyps(1) by (cases m) (simp add: row_metric_def row_shows_def)
  then show ?case using Cons.IH by simp
qed simp



subsection \<open>A server\<close>

text \<open>A server that answers every query with the rows it holds, as \<open>FORMAT JSON\<close> does.\<close>

definition rows_body :: "encoded \<Rightarrow> string" where
  "rows_body rows =
     (case rows of Inl err \<Rightarrow> []
      | Inr v \<Rightarrow> json_render (JObj [(''meta'', JArr []), (''data'', v), (''rows'', JNum ''1'')]) @ [CHR 0x0A])"

definition rows_server :: "string \<Rightarrow> nat platform" where
  "rows_server body =
     \<lparr>pl_url = (\<lambda>s. Inr \<lparr>ur_Base = s, ur_Query = []\<rparr>), pl_do = (\<lambda>call w. (Inr \<lparr>hr_Status = 200, hr_Body = body\<rparr>, Suc w)),
      pl_json_error = (\<lambda>s. ''invalid'')\<rparr>"

definition sample_clickhouse :: clickhouse where
  "sample_clickhouse = NewClickHouse ''http://clickhouse:8123/'' ''streampulse'' ''local'' (3 * second)"

lemma rows_server_answers: "answers (rows_server body) c query params 0 body 1"
  by (simp add: answers_def rows_server_def)

lemma rows_body_reply:
  assumes "rows = Inr v" "length (rows_body rows) \<le> nat reply_limit"
  shows "data_reply rows (rows_body rows)"
proof -
  have k: "other_key ''meta''" "other_key ''rows''" "members_ok [(''meta'', JArr [])]" "members_ok [(''rows'', JNum ''1'')]"
      "members_depth [(''meta'', JArr [])] = 1" "members_depth [(''rows'', JNum ''1'')] = 0" "number_end [CHR 0x0A]"
    by code_simp+
  show ?thesis
    unfolding data_reply_def
    by (rule exI [of _ "[(''meta'', JArr [])]"], rule exI [of _ v], rule exI [of _ "[(''rows'', JNum ''1'')]"], rule exI [of _ "[CHR 0x0A]"])
      (use assms k in \<open>simp add: rows_body_def max_depth_def\<close>)
qed

definition sample_metric_row :: metricRow where
  "sample_metric_row = zero_metricRow\<lparr>mr_WindowStart := ''2025-12-31 23:59:00.000'', mr_WindowEnd := ''2026-01-01 00:00:00.000'',
     mr_NodeID := ''edge-1'', mr_Requests := 500, mr_ErrorRate := lit 1 2, mr_P95TTFBMS := lit 425 1\<rparr>"

definition sample_metric_shown :: node_metric where
  "sample_metric_shown = stored_metric\<lparr>nm_Scope := \<lparr>sc_Location = ''sydney'', sc_NetworkID = ''UNKNOWN''\<rparr>\<rparr>"

lemma reply_limit_nat: "int n \<le> 100000 \<Longrightarrow> n \<le> nat reply_limit"
  by (simp add: reply_limit_def)



end
