(* ===== verification/HttpApi.thy ===== *)
theory HttpApi
  imports Wire Service
begin

text \<open>
  \<open>internal/httpapi/handler.go\<close>. A request is its method, the decoded segments of its clean path and
  its body; the multiplexer matches a \<open>GET\<close> pattern for \<open>HEAD\<close> too, answers 405 when only the
  method is wrong and 404 otherwise. A body that cannot be read to its end counts as cut short there.
  The deadlines that handlers put on a context only reach the dependencies, which are parameters.
\<close>

record http_request =
  hq_Method :: string
  hq_Path :: "string list"
  hq_Body :: string

record http_response =
  hs_Status :: int
  hs_ContentType :: string
  hs_Body :: string

record 's api =
  ap_service :: service
  ap_store :: 's

subsection \<open>Routing\<close>

datatype route =
    Health
  | Ready
  | Metrics scope
  | Latest scope
  | Evaluate
  | Acknowledge string
  | Outcome string

definition pathScope :: "string \<Rightarrow> string \<Rightarrow> scope" where
  "pathScope l n = \<lparr>sc_Location = l, sc_NetworkID = n\<rparr>"

text \<open>The patterns: the method and, for a path that fits, the handler with its path values. A wildcard
  does not match an empty segment.\<close>

definition path_route :: "string list \<Rightarrow> (string \<times> route) option" where
  "path_route path =
     (if [] \<in> set path then None
      else case path of
        [a] \<Rightarrow> if a = ''healthz'' then Some (''GET'', Health) else if a = ''readyz'' then Some (''GET'', Ready) else None
      | [a, b, c] \<Rightarrow>
          if a = ''v1'' \<and> b = ''recommendations'' \<and> c = ''evaluate'' then Some (''POST'', Evaluate) else None
      | [a, b, c, d] \<Rightarrow>
          if a = ''v1'' \<and> b = ''recommendations'' \<and> d = ''ack'' then Some (''POST'', Acknowledge c)
          else if a = ''v1'' \<and> b = ''recommendations'' \<and> d = ''outcome'' then Some (''POST'', Outcome c) else None
      | [a, b, c, d, e] \<Rightarrow>
          if a = ''v1'' \<and> b = ''scopes'' \<and> e = ''metrics'' then Some (''GET'', Metrics (pathScope c d)) else None
      | [a, b, c, d, e, f] \<Rightarrow>
          if a = ''v1'' \<and> b = ''scopes'' \<and> e = ''recommendations'' \<and> f = ''latest''
          then Some (''GET'', Latest (pathScope c d)) else None
      | _ \<Rightarrow> None)"

definition method_matches :: "string \<Rightarrow> string \<Rightarrow> bool" where
  "method_matches pattern m \<longleftrightarrow> m = pattern \<or> pattern = ''GET'' \<and> m = ''HEAD''"

subsection \<open>Bodies and responses\<close>

definition body_limit :: int where "body_limit = 1048576"

text \<open>One JSON value and nothing but white space behind it, in the first mebibyte.\<close>

definition decodeJSON :: "'a decoder \<Rightarrow> 'a \<Rightarrow> string \<Rightarrow> 'a option" where
  "decodeJSON dec z body =
     (case json_first (take (nat body_limit) body) of
        None \<Rightarrow> None
      | Some (v, rest) \<Rightarrow>
          (case dec z v of
             None \<Rightarrow> None
           | Some x \<Rightarrow> if skip_space rest = [] then Some x else None))"

definition json_type :: string where "json_type = ''application/json''"

text \<open>\<open>writeJSON\<close> ignores an error of the encoder: the status is sent, the body stays empty.\<close>

definition writeJSON :: "int \<Rightarrow> encoded \<Rightarrow> http_response" where
  "writeJSON status payload =
     \<lparr>hs_Status = status, hs_ContentType = json_type,
      hs_Body = (case payload of Inl err \<Rightarrow> [] | Inr j \<Rightarrow> json_render j @ [CHR 0x0A])\<rparr>"

definition message :: "string \<Rightarrow> string \<Rightarrow> encoded" where
  "message k text = enc_struct [(k, enc_string text)]"

definition writeError :: "app_error \<Rightarrow> http_response" where
  "writeError e =
     (case e of
        ErrInvalidRequest \<Rightarrow> writeJSON 400 (message ''error'' (app_error_text e))
      | ErrRecommendationNotFound \<Rightarrow> writeJSON 404 (message ''error'' (app_error_text e))
      | ErrDependencyUnavailable _ _ \<Rightarrow> writeJSON 503 (message ''error'' (app_error_text e))
      | OtherError _ \<Rightarrow> writeJSON 500 (message ''error'' ''internal error''))"

definition invalid_body :: http_response where
  "invalid_body = writeJSON 400 (message ''error'' ''invalid JSON body'')"

definition no_content :: http_response where
  "no_content = \<lparr>hs_Status = 204, hs_ContentType = [], hs_Body = []\<rparr>"

definition plain_text :: "int \<Rightarrow> string \<Rightarrow> http_response" where
  "plain_text status text = \<lparr>hs_Status = status, hs_ContentType = ''text/plain; charset=utf-8'', hs_Body = text @ [CHR 0x0A]\<rparr>"

subsection \<open>Handlers\<close>

definition handle_health :: http_response where
  "handle_health = writeJSON 200 (message ''status'' ''ok'')"

definition handle_ready :: "deps \<Rightarrow> http_response" where
  "handle_ready d =
     (case service_Ready d of
        Some e \<Rightarrow> writeError e
      | None \<Rightarrow> writeJSON 200 (message ''status'' ''ready''))"

definition handle_metrics :: "range_order \<Rightarrow> app_config \<Rightarrow> deps \<Rightarrow> scope \<Rightarrow> http_response" where
  "handle_metrics it c d sc =
     (case service_Metrics it c d sc of
        Inl e \<Rightarrow> writeError e
      | Inr ms \<Rightarrow> writeJSON 200 (enc_struct [(''metrics'', enc_list enc_metric ms)]))"

definition handle_latest :: "deps \<Rightarrow> scope \<Rightarrow> http_response" where
  "handle_latest d sc =
     (case service_Latest d sc of
        Inl e \<Rightarrow> writeError e
      | Inr r \<Rightarrow> writeJSON 200 (enc_recommendation r))"

definition handle_evaluate :: "range_order \<Rightarrow> app_config \<Rightarrow> deps \<Rightarrow> string \<Rightarrow> service \<Rightarrow> http_response \<times> service" where
  "handle_evaluate it c d body s =
     (case decodeJSON (dec_struct True (request_fields True)) zero_request body of
        None \<Rightarrow> (invalid_body, s)
      | Some request \<Rightarrow>
          (case service_Evaluate it c d request s of
             (Inl e, s') \<Rightarrow> (writeError e, s')
           | (Inr result, s') \<Rightarrow> (writeJSON 200 (enc_result result), s')))"

definition handle_acknowledge ::
    "instant \<Rightarrow> (acknowledgement \<Rightarrow> 's \<Rightarrow> string option \<times> 's) \<Rightarrow> string \<Rightarrow> string \<Rightarrow> 's \<Rightarrow> http_response \<times> 's" where
  "handle_acknowledge now store i body s =
     (case decodeJSON (dec_struct True ack_fields) zero_ack body of
        None \<Rightarrow> (invalid_body, s)
      | Some ack \<Rightarrow>
          (case service_Acknowledge now store i ack s of
             (Some e, s') \<Rightarrow> (writeError e, s')
           | (None, s') \<Rightarrow> (no_content, s')))"

definition handle_outcome ::
    "instant \<Rightarrow> (outcome \<Rightarrow> 's \<Rightarrow> string option \<times> 's) \<Rightarrow> string \<Rightarrow> string \<Rightarrow> 's \<Rightarrow> http_response \<times> 's" where
  "handle_outcome now store i body s =
     (case decodeJSON (dec_struct True (outcome_fields True)) zero_outcome body of
        None \<Rightarrow> (invalid_body, s)
      | Some oc \<Rightarrow>
          (case service_RecordOutcome now store i oc s of
             (Some e, s') \<Rightarrow> (writeError e, s')
           | (None, s') \<Rightarrow> (no_content, s')))"

text \<open>The mux of \<open>New\<close>, with the audit store's operations as parameters.\<close>

definition ServeHTTP ::
    "range_order \<Rightarrow> app_config \<Rightarrow> deps \<Rightarrow> (acknowledgement \<Rightarrow> 's \<Rightarrow> string option \<times> 's) \<Rightarrow>
     (outcome \<Rightarrow> 's \<Rightarrow> string option \<times> 's) \<Rightarrow> http_request \<Rightarrow> 's api \<Rightarrow> http_response \<times> 's api" where
  "ServeHTTP it c d store_ack store_outcome q a =
     (case path_route (hq_Path q) of
        None \<Rightarrow> (plain_text 404 ''404 page not found'', a)
      | Some (m, r) \<Rightarrow>
          if \<not> method_matches m (hq_Method q) then (plain_text 405 ''Method Not Allowed'', a)
          else (case r of
             Health \<Rightarrow> (handle_health, a)
           | Ready \<Rightarrow> (handle_ready d, a)
           | Metrics sc \<Rightarrow> (handle_metrics it c d sc, a)
           | Latest sc \<Rightarrow> (handle_latest d sc, a)
           | Evaluate \<Rightarrow>
               (case handle_evaluate it c d (hq_Body q) (ap_service a) of (p, s') \<Rightarrow> (p, a\<lparr>ap_service := s'\<rparr>))
           | Acknowledge i \<Rightarrow>
               (case handle_acknowledge (dp_now d) store_ack i (hq_Body q) (ap_store a) of (p, s') \<Rightarrow> (p, a\<lparr>ap_store := s'\<rparr>))
           | Outcome i \<Rightarrow>
               (case handle_outcome (dp_now d) store_outcome i (hq_Body q) (ap_store a) of (p, s') \<Rightarrow> (p, a\<lparr>ap_store := s'\<rparr>))))"

end
