(* ===== verification/Http_Props.thy ===== *)
theory Http_Props
  imports HttpApi Service_Props
begin

text \<open>
  What the HTTP interface can do: its answers, and which requests change the service or the audit
  store. Each handler has its facts; the mux adds the routes.
\<close>

lemma method_POST: "method_matches ''POST'' m \<longleftrightarrow> m = ''POST''"
  by (simp add: method_matches_def)

lemma path_route_cases:
  assumes "path_route path = Some (m, r)"
  obtains "m = ''GET''" "r = Health \<or> r = Ready"
  | l n where "m = ''GET''" "r = Metrics (pathScope l n) \<or> r = Latest (pathScope l n)"
  | "m = ''POST''" "r = Evaluate" "path = [''v1'', ''recommendations'', ''evaluate'']"
  | i where "m = ''POST''" "r = Acknowledge i" "path = [''v1'', ''recommendations'', i, ''ack'']" "i \<noteq> []"
  | i where "m = ''POST''" "r = Outcome i" "path = [''v1'', ''recommendations'', i, ''outcome'']" "i \<noteq> []"
  using assms by (auto simp: path_route_def split: list.splits if_splits)

subsection \<open>Statuses\<close>

definition api_statuses :: "int set" where
  "api_statuses = {200, 204, 400, 404, 405, 500, 503}"

lemma writeJSON_status [simp]: "hs_Status (writeJSON k e) = k"
  by (simp add: writeJSON_def)

definition error_status :: "app_error \<Rightarrow> int" where
  "error_status e =
     (case e of ErrInvalidRequest \<Rightarrow> 400 | ErrRecommendationNotFound \<Rightarrow> 404 | ErrDependencyUnavailable op cause \<Rightarrow> 503 | OtherError t \<Rightarrow> 500)"

lemma writeError_status [simp]: "hs_Status (writeError e) = error_status e"
  by (cases e) (simp_all add: writeError_def error_status_def)

lemma error_status_range: "error_status e \<in> {400, 404, 500, 503}"
  by (cases e) (simp_all add: error_status_def)

lemma error_status_api [simp]: "error_status e \<in> api_statuses" "error_status e \<noteq> 200" "error_status e \<noteq> 204"
  using error_status_range [of e] by (auto simp: api_statuses_def)

lemma fixed_statuses [simp]:
  "hs_Status invalid_body = 400" "hs_Status no_content = 204" "hs_Status (plain_text k t) = k" "hs_Status handle_health = 200"
  "200 \<in> api_statuses" "204 \<in> api_statuses" "400 \<in> api_statuses" "404 \<in> api_statuses" "405 \<in> api_statuses"
  by (simp_all add: invalid_body_def no_content_def plain_text_def handle_health_def api_statuses_def)

lemma read_statuses [simp]:
  "hs_Status (handle_ready d) \<in> api_statuses" "hs_Status (handle_metrics it c d sc) \<in> api_statuses"
  "hs_Status (handle_latest d sc) \<in> api_statuses"
  by (simp_all add: handle_ready_def handle_metrics_def handle_latest_def split: option.split sum.split)

subsection \<open>Handlers that change something\<close>

abbreviation evaluation_body :: "string \<Rightarrow> evaluation_request option" where
  "evaluation_body body \<equiv> decodeJSON (dec_struct True (request_fields True)) zero_request body"

abbreviation ack_body :: "string \<Rightarrow> acknowledgement option" where
  "ack_body body \<equiv> decodeJSON (dec_struct True ack_fields) zero_ack body"

abbreviation outcome_body :: "string \<Rightarrow> outcome option" where
  "outcome_body body \<equiv> decodeJSON (dec_struct True (outcome_fields True)) zero_outcome body"

text \<open>The generation that an evaluation records.\<close>

definition generated_state :: "recommendation \<Rightarrow> service \<Rightarrow> service" where
  "generated_state r s = recordGeneration (rc_Scope r) (rc_CreatedAt r) (s\<lparr>sv_published := sv_published s @ [r]\<rparr>)"

lemma handle_evaluate_result:
  assumes "handle_evaluate it c d body s = (p, s')"
  shows "hs_Status p \<in> api_statuses \<and> (evaluation_body body = None \<longrightarrow> hs_Status p = 400) \<and>
    (s' \<noteq> s \<longrightarrow> hs_Status p = 200 \<and> (\<exists>request r. evaluation_body body = Some request \<and> justified it c d request s r \<and>
       dp_Publish d r = None \<and> s' = generated_state r s))"
proof (cases "evaluation_body body")
  case None
  then show ?thesis using assms by (auto simp: handle_evaluate_def)
next
  case (Some request)
  show ?thesis
    using assms Evaluate_outcomes [of it c d request s] Some
    by (auto simp: handle_evaluate_def generated_state_def split: sum.splits)
qed

lemma handle_acknowledge_result:
  assumes "handle_acknowledge now store i body s = (p, s')"
  shows "hs_Status p \<in> api_statuses \<and> (ack_body body = None \<longrightarrow> hs_Status p = 400) \<and>
    (s' \<noteq> s \<longrightarrow> (\<exists>ack. ack_body body = Some ack \<and> ak_Actor ack \<noteq> [] \<and> ak_Status ack \<noteq> [] \<and> s' = snd (store (stamped_ack now i ack) s)))"
proof (cases "ack_body body")
  case None
  then show ?thesis using assms by (auto simp: handle_acknowledge_def)
next
  case (Some ack)
  have "stamped_ack now i ack = (let a1 = ack\<lparr>ak_RecommendationID := i\<rparr> in
      if is_zero_time (ak_ObservedAt a1) then a1\<lparr>ak_ObservedAt := now\<rparr> else a1)"
    by (cases ack) (simp add: stamped_ack_def is_zero_time_def)
  then show ?thesis
    using assms Some by (auto simp: handle_acknowledge_def service_Acknowledge_def Let_def split: prod.splits option.splits if_splits)
qed

lemma handle_outcome_result:
  assumes "handle_outcome now store i body s = (p, s')"
  shows "hs_Status p \<in> api_statuses \<and> (outcome_body body = None \<longrightarrow> hs_Status p = 400) \<and>
    (s' \<noteq> s \<longrightarrow> (\<exists>q. outcome_body body = Some q \<and> s' = snd (store (stamped_outcome now i q) s)))"
proof (cases "outcome_body body")
  case None
  then show ?thesis using assms by (auto simp: handle_outcome_def)
next
  case (Some q)
  have "stamped_outcome now i q = (let o1 = q\<lparr>oc_RecommendationID := i\<rparr> in
      if is_zero_time (oc_ObservedAt o1) then o1\<lparr>oc_ObservedAt := now\<rparr> else o1)"
    by (cases q) (simp add: stamped_outcome_def is_zero_time_def)
  then show ?thesis
    using assms Some by (auto simp: handle_outcome_def service_RecordOutcome_def Let_def split: prod.splits option.splits if_splits)
qed

lemma ServeHTTP_effects:
  assumes "ServeHTTP it c d store_ack store_outcome q a = (p, a')"
  shows "hs_Status p \<in> api_statuses \<and>
    (hq_Method q \<noteq> ''POST'' \<longrightarrow> a' = a) \<and>
    (ap_service a' \<noteq> ap_service a \<longrightarrow> hs_Status p = 200 \<and> hq_Path q = [''v1'', ''recommendations'', ''evaluate''] \<and>
       (\<exists>request r. evaluation_body (hq_Body q) = Some request \<and> justified it c d request (ap_service a) r \<and>
          dp_Publish d r = None \<and> ap_service a' = generated_state r (ap_service a))) \<and>
    (ap_store a' \<noteq> ap_store a \<longrightarrow>
       (\<exists>i ack. hq_Path q = [''v1'', ''recommendations'', i, ''ack''] \<and> ack_body (hq_Body q) = Some ack \<and>
          ak_Actor ack \<noteq> [] \<and> ak_Status ack \<noteq> [] \<and> ap_store a' = snd (store_ack (stamped_ack (dp_now d) i ack) (ap_store a))) \<or>
       (\<exists>i oc. hq_Path q = [''v1'', ''recommendations'', i, ''outcome''] \<and> outcome_body (hq_Body q) = Some oc \<and>
          ap_store a' = snd (store_outcome (stamped_outcome (dp_now d) i oc) (ap_store a))))"
proof (cases "path_route (hq_Path q)")
  case None
  then show ?thesis using assms by (auto simp: ServeHTTP_def)
next
  case (Some mr)
  obtain m r where mr: "path_route (hq_Path q) = Some (m, r)" using Some by (cases mr) simp
  show ?thesis
  proof (cases "method_matches m (hq_Method q)")
    case False
    then show ?thesis using assms mr by (auto simp: ServeHTTP_def)
  next
    case True
    note sv = assms [unfolded ServeHTTP_def mr option.case prod.case]
    from mr show ?thesis
    proof (cases rule: path_route_cases)
      case 1
      then show ?thesis using sv True read_statuses(1) [of d] by auto
    next
      case (2 l n)
      then show ?thesis using sv True read_statuses(2) [of it c d "pathScope l n"]
          read_statuses(3) [of d "pathScope l n"] by auto
    next
      case 3
      obtain s' where e: "handle_evaluate it c d (hq_Body q) (ap_service a) = (p, s')" "a' = a\<lparr>ap_service := s'\<rparr>"
        using sv True 3 by (auto split: prod.splits)
      then show ?thesis using handle_evaluate_result [OF e(1)] 3 True by (auto simp: method_POST)
    next
      case (4 i)
      obtain s' where e: "handle_acknowledge (dp_now d) store_ack i (hq_Body q) (ap_store a) = (p, s')" "a' = a\<lparr>ap_store := s'\<rparr>"
        using sv True 4 by (auto split: prod.splits)
      then show ?thesis using handle_acknowledge_result [OF e(1)] 4 True by (auto simp: method_POST)
    next
      case (5 i)
      obtain s' where e: "handle_outcome (dp_now d) store_outcome i (hq_Body q) (ap_store a) = (p, s')" "a' = a\<lparr>ap_store := s'\<rparr>"
        using sv True 5 by (auto split: prod.splits)
      then show ?thesis using handle_outcome_result [OF e(1)] 5 True by (auto simp: method_POST)
    qed
  qed
qed


definition sample_ack_request :: http_request where
  "sample_ack_request =
     \<lparr>hq_Method = ''POST'', hq_Path = [''v1'', ''recommendations'', ''rec-1'', ''ack''],
      hq_Body = map (\<lambda>c. if c = CHR ''~'' then CHR 0x22 else c) ''{~actor~: ~ops~, ~status~: ~accepted~}''\<rparr>"

definition sample_api :: "audit_state api" where
  "sample_api = \<lparr>ap_service = app_New, ap_store = NewMemoryAuditStore\<rparr>"

definition sample_ack :: acknowledgement where
  "sample_ack = \<lparr>ak_RecommendationID = [], ak_Actor = ''ops'', ak_Status = ''accepted'', ak_ObservedAt = 0\<rparr>"

lemma sample_ack_body: "ack_body (hq_Body sample_ack_request) = Some sample_ack"
proof -
  have "take (nat body_limit) (hq_Body sample_ack_request) = hq_Body sample_ack_request"
    by (simp add: sample_ack_request_def body_limit_def)
  moreover have "(case json_first (hq_Body sample_ack_request) of
      None \<Rightarrow> None
    | Some (v, rest) \<Rightarrow> (case dec_struct True ack_fields zero_ack v of None \<Rightarrow> None | Some x \<Rightarrow> if skip_space rest = [] then Some x else None)) =
      Some sample_ack" by code_simp
  ultimately show ?thesis unfolding decodeJSON_def by simp
qed


end
