(* ===== verification/DurationText.thy ===== *)
theory DurationText
  imports GoText
begin

text \<open>
  \<open>Duration.String\<close>: hours, minutes and seconds with a fraction, or a fraction of a second in the
  largest unit that leaves a whole part. The environment reader of the service prints its default
  with it and parses the result.
\<close>

text \<open>The last \<open>k\<close> digits of \<open>n\<close> as a fraction without trailing zeros, and the rest of \<open>n\<close>.\<close>

definition split_fraction :: "nat \<Rightarrow> int \<Rightarrow> string \<times> int" where
  "split_fraction k n =
     (let f = n mod 10 ^ k
      in (if f = 0 then [] else ''.'' @ strip_zeros (format_padded k f), n div 10 ^ k))"

definition duration_string :: "duration \<Rightarrow> string" where
  "duration_string d =
     (let u = \<bar>sint d\<bar>; minus = (if sint d < 0 then ''-'' else [])
      in if u = 0 then ''0s''
         else if u < 1000000000 then
           (let (k, unit) = (if u < 1000 then (0, ''ns'') else if u < 1000000 then (3, [CHR 0xC2, CHR 0xB5, CHR ''s'']) else (6, ''ms''));
                (f, n) = split_fraction k u
            in minus @ int_digits n @ f @ unit)
         else
           (let (f, n) = split_fraction 9 u
            in minus @
               (if 60 \<le> n then (if 3600 \<le> n then int_digits (n div 3600) @ ''h'' else []) @ int_digits (n div 60 mod 60) @ ''m'' else []) @
               int_digits (n mod 60) @ f @ ''s''))"

end
