(* ===== verification/ServerConfig.thy ===== *)
theory ServerConfig
  imports DurationText ClickHouse Publisher HttpApi Service_Props
begin

text \<open>
  \<open>cmd/server/main.go\<close>: the configuration from the environment, its hash, the wiring of the parts and
  the health check. \<open>log.Fatalf\<close> and a panic end the process: they are the left results, with the
  text of the message. Signals, the listening socket and the server's own timeouts are not modelled.
\<close>

type_synonym environ = "string \<Rightarrow> string"

definition env :: "environ \<Rightarrow> string \<Rightarrow> string \<Rightarrow> string" where
  "env getenv name fallback = (let v = trim_space (getenv name) in if v \<noteq> [] then v else fallback)"

definition invalid_setting :: "string \<Rightarrow> string" where
  "invalid_setting name = ''invalid '' @ name"

definition envInt :: "environ \<Rightarrow> string \<Rightarrow> int \<Rightarrow> string + int" where
  "envInt getenv name fallback =
     (case parse_int (env getenv name (format_int fallback)) of
        None \<Rightarrow> Inl (invalid_setting name)
      | Some v \<Rightarrow> if v \<le> 0 then Inl (invalid_setting name) else Inr v)"

definition envFloat :: "environ \<Rightarrow> string \<Rightarrow> f64 \<Rightarrow> string + f64" where
  "envFloat getenv name fallback =
     (case parse_float (env getenv name (format_float_f fallback)) of
        None \<Rightarrow> Inl (invalid_setting name)
      | Some v \<Rightarrow> if v < 0 then Inl (invalid_setting name) else Inr v)"

definition envDuration :: "environ \<Rightarrow> string \<Rightarrow> duration \<Rightarrow> string + duration" where
  "envDuration getenv name fallback =
     (case parse_duration (env getenv name (duration_string fallback)) of
        None \<Rightarrow> Inl (invalid_setting name)
      | Some v \<Rightarrow> if sint v \<le> 0 then Inl (invalid_setting name) else Inr v)"

definition splitNonEmpty :: "string \<Rightarrow> string + string list" where
  "splitNonEmpty value =
     (let items = filter (\<lambda>s. s \<noteq> []) (map trim_space (split_on CHR '','' value))
      in if items = [] then Inl ''KAFKA_BROKERS must contain at least one broker'' else Inr items)"

subsection \<open>The configuration hash\<close>

definition enc_detector_config :: "detector_config \<Rightarrow> encoded" where
  "enc_detector_config c = enc_struct
     [(''MinimumSamples'', enc_int (uint (dc_MinimumSamples c))), (''MinimumHistory'', enc_int (dc_MinimumHistory c)),
      (''EWMAAlpha'', enc_f64 (dc_EWMAAlpha c)), (''ErrorThreshold'', enc_f64 (dc_ErrorThreshold c)),
      (''LatencyMultiple'', enc_f64 (dc_LatencyMultiple c)), (''RobustZThreshold'', enc_f64 (dc_RobustZThreshold c))]"

definition enc_scorer_config :: "scorer_config \<Rightarrow> encoded" where
  "enc_scorer_config c = enc_struct
     [(''MinimumSamples'', enc_int (uint (pc_MinimumSamples c))), (''StaleAfter'', enc_int (sint (pc_StaleAfter c))),
      (''FutureTolerance'', enc_int (sint (pc_FutureTolerance c))), (''SaturationLimit'', enc_f64 (pc_SaturationLimit c)),
      (''MaximumWeightStep'', enc_f64 (pc_MaximumWeightStep c)), (''BenefitMargin'', enc_f64 (pc_BenefitMargin c))]"

definition enc_app_config :: "app_config \<Rightarrow> encoded" where
  "enc_app_config c = enc_struct
     [(''HistoryWindows'', enc_int (ac_HistoryWindows c)), (''TTL'', enc_int (sint (ac_TTL c))),
      (''MinimumDwell'', enc_int (sint (ac_MinimumDwell c))), (''QueryVersion'', enc_string (ac_QueryVersion c)),
      (''ModelVersion'', enc_string (ac_ModelVersion c)), (''ConfigHash'', enc_string (ac_ConfigHash c))]"

text \<open>\<open>configHash\<close> of the three configurations; it panics when they cannot be encoded.\<close>

definition configHash :: "detector_config \<Rightarrow> scorer_config \<Rightarrow> app_config \<Rightarrow> string + string" where
  "configHash dc pc ac =
     (case marshal (enc_list id [enc_detector_config dc, enc_scorer_config pc, enc_app_config ac]) of
        Inl err \<Rightarrow> Inl (''panic: '' @ err)
      | Inr payload \<Rightarrow> Inr (hex_encode (take 8 (sha256 (string_bytes payload)))))"

subsection \<open>Reading the settings\<close>

record settings =
  st_detector :: detector_config
  st_scorer :: scorer_config
  st_app :: app_config
  st_clickhouse :: clickhouse
  st_kafka :: kafka_settings
  st_addr :: string

definition read_detector_config :: "environ \<Rightarrow> string + detector_config" where
  "read_detector_config e =
     bind_error (envInt e ''MINIMUM_SAMPLES'' 100) (\<lambda>samples.
     bind_error (envInt e ''MINIMUM_HISTORY_WINDOWS'' 5) (\<lambda>history.
     bind_error (envFloat e ''EWMA_ALPHA'' (lit 20 2)) (\<lambda>alpha.
     bind_error (envFloat e ''ERROR_RATE_THRESHOLD'' (lit 2 2)) (\<lambda>err.
     bind_error (envFloat e ''LATENCY_BASELINE_MULTIPLE'' (lit 2 0)) (\<lambda>multiple.
     bind_error (envFloat e ''ROBUST_Z_THRESHOLD'' (lit 3 0)) (\<lambda>z.
     Inr \<lparr>dc_MinimumSamples = of_int samples, dc_MinimumHistory = history, dc_EWMAAlpha = alpha,
          dc_ErrorThreshold = err, dc_LatencyMultiple = multiple, dc_RobustZThreshold = z\<rparr>))))))"

definition read_scorer_config :: "environ \<Rightarrow> string + scorer_config" where
  "read_scorer_config e =
     bind_error (envInt e ''MINIMUM_SAMPLES'' 100) (\<lambda>samples.
     bind_error (envDuration e ''METRICS_STALE_AFTER'' (2 * minute)) (\<lambda>stale.
     bind_error (envDuration e ''METRICS_FUTURE_TOLERANCE'' (5 * second)) (\<lambda>future.
     bind_error (envFloat e ''SATURATION_LIMIT'' (lit 85 2)) (\<lambda>saturation.
     bind_error (envFloat e ''MAXIMUM_WEIGHT_STEP'' (lit 20 2)) (\<lambda>step.
     bind_error (envFloat e ''BENEFIT_MARGIN'' (lit 1 4)) (\<lambda>margin.
     Inr \<lparr>pc_MinimumSamples = of_int samples, pc_StaleAfter = stale, pc_FutureTolerance = future,
          pc_SaturationLimit = saturation, pc_MaximumWeightStep = step, pc_BenefitMargin = margin\<rparr>))))))"

definition read_app_config :: "environ \<Rightarrow> string + app_config" where
  "read_app_config e =
     bind_error (envInt e ''HISTORY_WINDOWS'' 15) (\<lambda>windows.
     bind_error (envDuration e ''RECOMMENDATION_TTL'' (2 * minute)) (\<lambda>ttl.
     bind_error (envDuration e ''MINIMUM_DWELL'' minute) (\<lambda>dwell.
     Inr \<lparr>ac_HistoryWindows = windows, ac_TTL = ttl, ac_MinimumDwell = dwell, ac_QueryVersion = ''node-quality-v1'',
          ac_ModelVersion = ''rule-ewma-mad-v1'', ac_ConfigHash = []\<rparr>)))"

text \<open>\<open>main\<close> up to the server, in the order in which it reads and may stop.\<close>

definition server_settings :: "environ \<Rightarrow> string + settings" where
  "server_settings e =
     bind_error (read_detector_config e) (\<lambda>dc.
     bind_error (read_scorer_config e) (\<lambda>pc.
     bind_error (read_app_config e) (\<lambda>ac.
     bind_error (configHash dc pc ac) (\<lambda>hash.
     bind_error (envDuration e ''CLICKHOUSE_TIMEOUT'' (3 * second)) (\<lambda>timeout.
     bind_error (splitNonEmpty (env e ''KAFKA_BROKERS'' ''kafka:9092'')) (\<lambda>brokers.
     Inr \<lparr>st_detector = dc, st_scorer = pc, st_app = ac\<lparr>ac_ConfigHash := hash\<rparr>,
          st_clickhouse = NewClickHouse (env e ''CLICKHOUSE_URL'' ''http://clickhouse:8123'') (env e ''CLICKHOUSE_USER'' ''streampulse'')
            (env e ''CLICKHOUSE_PASSWORD'' ''streampulse-local'') timeout,
          st_kafka = NewKafka brokers (env e ''KAFKA_RECOMMENDATION_TOPIC'' ''cdn.recommendations.v1''),
          st_addr = env e ''HTTP_ADDR'' '':8090''\<rparr>))))))"

text \<open>The dependencies that \<open>main\<close> hands to the service, as one evaluation sees them: ClickHouse and
  Kafka in the world \<open>w\<close>, the detector and scorer of the settings.\<close>

definition server_deps :: "'w platform \<Rightarrow> 'w writer \<Rightarrow> settings \<Rightarrow> 'w \<Rightarrow> instant \<Rightarrow> deps" where
  "server_deps p write st w now =
     \<lparr>dp_Ping = fst (clickhouse_Ping p (st_clickhouse st) w),
      dp_History = (\<lambda>sc windows. fst (clickhouse_History p (st_clickhouse st) sc windows w)),
      dp_LatestRecommendation = (\<lambda>sc. fst (clickhouse_LatestRecommendation p (st_clickhouse st) sc w)),
      dp_detect = (\<lambda>it. detector_Evaluate it (st_detector st)),
      dp_propose = engine_propose (st_scorer st),
      dp_Publish = (\<lambda>r. fst (kafka_Publish write r w)),
      dp_now = now\<rparr>"

subsection \<open>The health check\<close>

definition healthcheck_url :: "environ \<Rightarrow> string" where
  "healthcheck_url e =
     (let address = env e ''HTTP_ADDR'' '':8090'';
          full = (if starts_with '':'' address then ''127.0.0.1'' @ address else address)
      in ''http://'' @ full @ ''/healthz'')"

text \<open>The exit code, given what the \<open>GET\<close> of a URL returns.\<close>

definition runHealthcheck :: "(string \<Rightarrow> string + int) \<Rightarrow> environ \<Rightarrow> int" where
  "runHealthcheck get e =
     (case get (healthcheck_url e) of
        Inl err \<Rightarrow> 1
      | Inr status \<Rightarrow> if status \<noteq> 200 then 1 else 0)"

end
