(* ===== verification/Settings_Props.thy ===== *)
theory Settings_Props
  imports ServerConfig EncodeFacts
begin

text \<open>
  What the service's start-up guarantees: the bounds of the settings that it accepts. The floats are
  never checked for being finite; that they are follows from the configuration hash, whose JSON
  encoding would fail.
\<close>

lemma bind_error_Inr: "bind_error r f = Inr y \<longleftrightarrow> (\<exists>x. r = Inr x \<and> f x = Inr y)"
  by (simp add: bind_error_def split: sum.split)

subsection \<open>Single variables\<close>

lemma parse_int_range: "parse_int s = Some k \<Longrightarrow> k < 2 ^ 63"
  by (auto simp: parse_int_def Let_def max_duration_def split: prod.splits if_splits)

lemma envInt_range: "envInt e name d = Inr k \<Longrightarrow> 0 < k \<and> k < 2 ^ 63"
  using parse_int_range by (auto simp: envInt_def split: option.splits if_splits)

lemma envFloat_range: "envFloat e name d = Inr x \<Longrightarrow> \<not> x < 0"
  by (auto simp: envFloat_def split: option.splits if_splits)

lemma envDuration_range: "envDuration e name d = Inr t \<Longrightarrow> 0 < sint t"
  by (auto simp: envDuration_def split: option.splits if_splits)

lemma splitNonEmpty_brokers: "splitNonEmpty v = Inr bs \<Longrightarrow> bs \<noteq> [] \<and> [] \<notin> set bs"
  by (auto simp: splitNonEmpty_def Let_def split: if_splits)

lemma uint_of_small: "0 < k \<Longrightarrow> k < 2 ^ 63 \<Longrightarrow> uint (of_int k :: u64) = k"
  by (simp add: unsigned_of_int take_bit_int_eq_self)

subsection \<open>The hash\<close>

lemma configHash_result:
  assumes "configHash dc pc ac = Inr h"
  shows "length h = 16" "encodes (enc_detector_config dc)" "encodes (enc_scorer_config pc)"
proof -
  obtain payload where m: "marshal (enc_list id [enc_detector_config dc, enc_scorer_config pc, enc_app_config ac]) = Inr payload"
    and h: "h = hex_encode (take 8 (sha256 (string_bytes payload)))"
    using assms by (auto simp: configHash_def split: sum.splits)
  have "length (hex_encode bs) = 2 * length bs" for bs by (induction bs) (simp_all add: hex_encode_def)
  then show "length h = 16" using h by simp
  have "encodes (enc_list id [enc_detector_config dc, enc_scorer_config pc, enc_app_config ac])"
    using m marshal_ok by blast
  then show "encodes (enc_detector_config dc)" "encodes (enc_scorer_config pc)" by simp_all
qed

lemma configHash_panics:
  assumes "\<not> encodes (enc_detector_config dc) \<or> \<not> encodes (enc_scorer_config pc)"
  shows "\<exists>err. configHash dc pc ac = Inl err"
  using assms configHash_result(2,3) [of dc pc ac] by (cases "configHash dc pc ac") auto

definition sound_detector :: "detector_config \<Rightarrow> bool" where
  "sound_detector c \<longleftrightarrow> 0 < dc_MinimumSamples c \<and> 0 < dc_MinimumHistory c \<and>
     (\<forall>x \<in> {dc_EWMAAlpha c, dc_ErrorThreshold c, dc_LatencyMultiple c, dc_RobustZThreshold c}. finite_f64 x \<and> \<not> x < 0)"

definition sound_scorer :: "scorer_config \<Rightarrow> bool" where
  "sound_scorer c \<longleftrightarrow> 0 < pc_MinimumSamples c \<and> 0 < sint (pc_StaleAfter c) \<and> 0 < sint (pc_FutureTolerance c) \<and>
     (\<forall>x \<in> {pc_SaturationLimit c, pc_MaximumWeightStep c, pc_BenefitMargin c}. finite_f64 x \<and> \<not> x < 0)"

definition sound_app :: "app_config \<Rightarrow> bool" where
  "sound_app c \<longleftrightarrow> 0 < ac_HistoryWindows c \<and> 0 < sint (ac_TTL c) \<and> 0 < sint (ac_MinimumDwell c)"

lemma of_int_positive: "0 < k \<Longrightarrow> k < 2 ^ 63 \<Longrightarrow> 0 < (of_int k :: u64)"
  using uint_of_small [of k] by (simp add: word_less_def)

lemma read_detector_config_sound:
  "read_detector_config e = Inr c \<Longrightarrow> encodes (enc_detector_config c) \<Longrightarrow> sound_detector c"
  by (auto simp: read_detector_config_def bind_error_Inr enc_detector_config_def sound_detector_def of_int_positive
      dest!: envInt_range envFloat_range)

lemma read_scorer_config_sound:
  "read_scorer_config e = Inr c \<Longrightarrow> encodes (enc_scorer_config c) \<Longrightarrow> sound_scorer c"
  by (auto simp: read_scorer_config_def bind_error_Inr enc_scorer_config_def sound_scorer_def of_int_positive
      dest!: envInt_range envFloat_range envDuration_range)

lemma read_app_config_sound: "read_app_config e = Inr c \<Longrightarrow> sound_app c"
  by (auto simp: read_app_config_def bind_error_Inr sound_app_def dest!: envInt_range envDuration_range)

lemma same_minimum:
  "read_detector_config e = Inr dc \<Longrightarrow> read_scorer_config e = Inr pc \<Longrightarrow> dc_MinimumSamples dc = pc_MinimumSamples pc"
  by (auto simp: read_detector_config_def read_scorer_config_def bind_error_Inr)

subsection \<open>The settings\<close>

text \<open>C38: Settings with which the server starts are sound: counts, windows and durations are positive,
  the detector and the scorer ask for the same number of samples, all thresholds are finite and not
  negative (so that a variable holding \<open>NaN\<close> or \<open>Inf\<close> stops the start), the hash has 16 digits, and
  there is at least one named broker.\<close>

theorem server_settings_sound:
  assumes "server_settings e = Inr st"
  shows "sound_detector (st_detector st) \<and> sound_scorer (st_scorer st) \<and> sound_app (st_app st) \<and>
    dc_MinimumSamples (st_detector st) = pc_MinimumSamples (st_scorer st) \<and> length (ac_ConfigHash (st_app st)) = 16 \<and>
    0 < sint (ch_timeout (st_clickhouse st)) \<and> ks_Addr (st_kafka st) \<noteq> [] \<and> [] \<notin> set (ks_Addr (st_kafka st))"
proof -
  obtain dc pc ac hash timeout brokers where *:
    "read_detector_config e = Inr dc" "read_scorer_config e = Inr pc" "read_app_config e = Inr ac"
    "configHash dc pc ac = Inr hash" "envDuration e ''CLICKHOUSE_TIMEOUT'' (3 * second) = Inr timeout"
    "splitNonEmpty (env e ''KAFKA_BROKERS'' ''kafka:9092'') = Inr brokers"
    "st_detector st = dc" "st_scorer st = pc" "st_app st = ac\<lparr>ac_ConfigHash := hash\<rparr>"
    "ch_timeout (st_clickhouse st) = timeout" "ks_Addr (st_kafka st) = brokers"
    using assms by (auto simp: server_settings_def bind_error_Inr NewClickHouse_def NewKafka_def)
  then show ?thesis
    using read_detector_config_sound [OF *(1) configHash_result(2) [OF *(4)]]
      read_scorer_config_sound [OF *(2) configHash_result(3) [OF *(4)]] read_app_config_sound [OF *(3)]
      same_minimum [OF *(1,2)] configHash_result(1) [OF *(4)] envDuration_range [OF *(5)] splitNonEmpty_brokers [OF *(6)]
    by (simp add: sound_app_def)
qed

definition sample_environ :: environ where
  "sample_environ name = (if name = ''KAFKA_BROKERS'' then '' a:1, ,b:2'' else if name = ''MINIMUM_SAMPLES'' then ''250'' else [])"

definition sample_read_detector :: detector_config where
  "sample_read_detector = \<lparr>dc_MinimumSamples = 250, dc_MinimumHistory = 5, dc_EWMAAlpha = lit 20 2,
     dc_ErrorThreshold = lit 2 2, dc_LatencyMultiple = lit 2 0, dc_RobustZThreshold = lit 3 0\<rparr>"

definition sample_read_scorer :: scorer_config where
  "sample_read_scorer = \<lparr>pc_MinimumSamples = 250, pc_StaleAfter = 2 * minute, pc_FutureTolerance = 5 * second,
     pc_SaturationLimit = lit 85 2, pc_MaximumWeightStep = lit 20 2, pc_BenefitMargin = lit 1 4\<rparr>"

definition sample_read_app :: app_config where
  "sample_read_app = \<lparr>ac_HistoryWindows = 15, ac_TTL = 2 * minute, ac_MinimumDwell = minute, ac_QueryVersion = ''node-quality-v1'',
     ac_ModelVersion = ''rule-ewma-mad-v1'', ac_ConfigHash = []\<rparr>"

lemma sample_reads:
  "read_detector_config sample_environ = Inr sample_read_detector"
  "read_scorer_config sample_environ = Inr sample_read_scorer"
  "read_app_config sample_environ = Inr sample_read_app"
  "envDuration sample_environ ''CLICKHOUSE_TIMEOUT'' (3 * second) = Inr (3 * second)"
  "splitNonEmpty (env sample_environ ''KAFKA_BROKERS'' ''kafka:9092'') = Inr [''a:1'', ''b:2'']"
  by code_simp+

lemma sample_hash: "\<exists>h. configHash sample_read_detector sample_read_scorer sample_read_app = Inr h"
proof -
  have "encodes (enc_list id [enc_detector_config sample_read_detector, enc_scorer_config sample_read_scorer, enc_app_config sample_read_app])"
    by code_simp
  then obtain payload where
    "marshal (enc_list id [enc_detector_config sample_read_detector, enc_scorer_config sample_read_scorer, enc_app_config sample_read_app]) =
       Inr payload"
    unfolding marshal_ok [symmetric] by blast
  then show ?thesis unfolding configHash_def by simp
qed

lemma server_settings_sound_witness:
  "\<exists>st. server_settings sample_environ = Inr st \<and> st_scorer st = sample_read_scorer \<and> ks_Addr (st_kafka st) = [''a:1'', ''b:2''] \<and>
     sound_detector (st_detector st) \<and> sound_app (st_app st)"
proof -
  obtain st where st: "server_settings sample_environ = Inr st" "st_scorer st = sample_read_scorer" "ks_Addr (st_kafka st) = [''a:1'', ''b:2'']"
    using sample_hash by (auto simp: server_settings_def sample_reads bind_error_def NewKafka_def)
  then show ?thesis using server_settings_sound [OF st(1)] by blast
qed

subsection \<open>A threshold that is not a number\<close>

text \<open>\<open>ParseFloat\<close> reads \<open>NaN\<close> and no comparison refuses it: the variable passes its own check and
  the start ends in the panic of \<open>configHash\<close> instead of the message about the variable.\<close>

definition nan_environ :: environ where
  "nan_environ name = (if name = ''ERROR_RATE_THRESHOLD'' then ''NaN'' else [])"

lemma nan_setting_panics:
  "envFloat nan_environ ''ERROR_RATE_THRESHOLD'' (lit 2 2) = Inr NaN \<and>
   server_settings nan_environ = Inl ''panic: json: unsupported value: NaN''"
  by code_simp

end
