(* ===== verification/ServerLife.thy ===== *)
theory ServerLife
  imports ServerConfig
begin

text \<open>
  The life of the service's process, the second half of \<open>main\<close> in \<open>cmd/server/main.go\<close>: the choice between
  health check and server, the server's settings, and the goroutines of a running server. Main serves
  until \<open>ListenAndServe\<close> returns, then runs its deferred calls and exits; a second goroutine waits for a
  signal and calls \<open>Shutdown\<close>; requests are served by goroutines of their own. \<open>Shutdown\<close> closes the
  listener, which makes \<open>ListenAndServe\<close> return at once, and then waits for the active requests.
\<close>

datatype start = RunHealthcheck | Fatal string | Serve settings

definition main_start :: "string list \<Rightarrow> environ \<Rightarrow> start" where
  "main_start args e =
     (if length args = 2 \<and> args ! 1 = ''healthcheck'' then RunHealthcheck
      else case server_settings e of Inl err \<Rightarrow> Fatal err | Inr st \<Rightarrow> Serve st)"

record http_server =
  hv_Addr :: string
  hv_ReadHeaderTimeout :: duration
  hv_ReadTimeout :: duration
  hv_WriteTimeout :: duration
  hv_IdleTimeout :: duration

definition http_server_of :: "settings \<Rightarrow> http_server" where
  "http_server_of st =
     \<lparr>hv_Addr = st_addr st, hv_ReadHeaderTimeout = 5 * second, hv_ReadTimeout = 10 * second,
      hv_WriteTimeout = 10 * second, hv_IdleTimeout = 60 * second\<rparr>"

subsection \<open>The running process\<close>

text \<open>Where main is: serving, past \<open>ListenAndServe\<close> with its deferred calls to run, past the close of the
  publisher, or gone with an exit code. Where the shutdown goroutine is: waiting for the signal,
  waiting for active requests, or returned, with or without the error of its deadline.\<close>

datatype main_pc = Serving | Stopped | PublisherClosed | Exited int
datatype shutdown_pc = AwaitSignal | Draining | Returned bool

record server_life =
  sl_listening :: bool
  sl_active :: nat
  sl_main :: main_pc
  sl_shutdown :: shutdown_pc

definition running :: "server_life \<Rightarrow> bool" where
  "running s \<longleftrightarrow> (\<forall>code. sl_main s \<noteq> Exited code)"

definition server_begin :: server_life where
  "server_begin = \<lparr>sl_listening = True, sl_active = 0, sl_main = Serving, sl_shutdown = AwaitSignal\<rparr>"

inductive server_step :: "server_life \<Rightarrow> server_life \<Rightarrow> bool" where
  accept: "running s \<Longrightarrow> sl_listening s \<Longrightarrow> server_step s (s\<lparr>sl_active := sl_active s + 1\<rparr>)"
| answer: "running s \<Longrightarrow> 0 < sl_active s \<Longrightarrow> server_step s (s\<lparr>sl_active := sl_active s - 1\<rparr>)"
| interrupted: "running s \<Longrightarrow> sl_shutdown s = AwaitSignal \<Longrightarrow> server_step s (s\<lparr>sl_listening := False, sl_shutdown := Draining\<rparr>)"
| drained: "running s \<Longrightarrow> sl_shutdown s = Draining \<Longrightarrow> sl_active s = 0 \<Longrightarrow> server_step s (s\<lparr>sl_shutdown := Returned True\<rparr>)"
| expired: "running s \<Longrightarrow> sl_shutdown s = Draining \<Longrightarrow> server_step s (s\<lparr>sl_shutdown := Returned False\<rparr>)"
| listen_failed: "sl_main s = Serving \<Longrightarrow> sl_listening s \<Longrightarrow> server_step s (s\<lparr>sl_main := Exited 1\<rparr>)"
| server_closed: "sl_main s = Serving \<Longrightarrow> \<not> sl_listening s \<Longrightarrow> server_step s (s\<lparr>sl_main := Stopped\<rparr>)"
| close_publisher: "sl_main s = Stopped \<Longrightarrow> server_step s (s\<lparr>sl_main := PublisherClosed\<rparr>)"
| main_returns: "sl_main s = PublisherClosed \<Longrightarrow> server_step s (s\<lparr>sl_main := Exited 0\<rparr>)"

inductive_cases server_stepE: "server_step s t"

abbreviation server_reaches :: "server_life \<Rightarrow> bool" where
  "server_reaches \<equiv> rtranclp server_step server_begin"

definition life_invariant :: "server_life \<Rightarrow> bool" where
  "life_invariant s \<longleftrightarrow>
     (sl_listening s \<longleftrightarrow> sl_shutdown s = AwaitSignal) \<and>
     (sl_main s \<in> {Stopped, PublisherClosed, Exited 0} \<longrightarrow> \<not> sl_listening s) \<and>
     (\<forall>code. sl_main s = Exited code \<longrightarrow> code \<in> {0, 1}) \<and> (sl_main s = Exited 1 \<longrightarrow> sl_listening s) \<and>
     (sl_shutdown s = Returned True \<longrightarrow> sl_active s = 0)"

lemma life_invariant_step: "server_step s t \<Longrightarrow> life_invariant s \<Longrightarrow> life_invariant t"
  by (induction rule: server_step.induct) (auto simp: life_invariant_def running_def)

lemma reachable_invariant: "server_reaches s \<Longrightarrow> life_invariant s"
proof (induction rule: rtranclp_induct)
  case base
  then show ?case by (simp add: life_invariant_def server_begin_def)
next
  case (step s t)
  then show ?case using life_invariant_step by blast
qed

subsection \<open>A run that leaves requests behind\<close>

definition busy :: "nat \<Rightarrow> server_life" where
  "busy n = server_begin\<lparr>sl_active := n\<rparr>"

lemma busy_reached: "server_reaches (busy n)"
proof (induction n)
  case 0
  then show ?case by (simp add: busy_def server_begin_def)
next
  case (Suc n)
  have "server_step (busy n) (busy (Suc n))"
    using accept [of "busy n"] by (simp add: busy_def running_def server_begin_def)
  then show ?case using Suc by simp
qed

lemma exits_while_draining:
  "rtranclp server_step (busy n) \<lparr>sl_listening = False, sl_active = n, sl_main = Exited 0, sl_shutdown = Draining\<rparr>"
proof -
  let ?s = "\<lambda>m. \<lparr>sl_listening = False, sl_active = n, sl_main = m, sl_shutdown = Draining\<rparr>"
  have "server_step (busy n) (?s Serving)"
    using interrupted [of "busy n"] by (simp add: busy_def running_def server_begin_def)
  moreover have "server_step (?s Serving) (?s Stopped)" using server_closed [of "?s Serving"] by simp
  moreover have "server_step (?s Stopped) (?s PublisherClosed)" using close_publisher [of "?s Stopped"] by simp
  moreover have "server_step (?s PublisherClosed) (?s (Exited 0))" using main_returns [of "?s PublisherClosed"] by simp
  ultimately show ?thesis by (meson converse_rtranclp_into_rtranclp rtranclp.rtrancl_refl)
qed

text \<open>C39: The end of the process. It exits with 0 only after a signal, when it accepts nothing any more, and
  with 1 only when listening failed; \<open>Shutdown\<close> returns without its deadline only when no request is
  active. But main does not wait for \<open>Shutdown\<close>: with any number of requests active, the process can
  exit with 0 while \<open>Shutdown\<close> still waits for them.\<close>

theorem shutdown_abandons_requests:
  "(\<forall>s. server_reaches s \<longrightarrow>
      (\<forall>code. sl_main s = Exited code \<longrightarrow> code = 0 \<and> \<not> sl_listening s \<and> sl_shutdown s \<noteq> AwaitSignal \<or> code = 1 \<and> sl_listening s) \<and>
      (sl_shutdown s = Returned True \<longrightarrow> \<not> sl_listening s \<and> sl_active s = 0)) \<and>
   (\<forall>n. \<exists>s. server_reaches s \<and> sl_main s = Exited 0 \<and> sl_active s = n \<and> sl_shutdown s = Draining)"
proof (intro conjI allI)
  fix n
  have "server_reaches \<lparr>sl_listening = False, sl_active = n, sl_main = Exited 0, sl_shutdown = Draining\<rparr>"
    using rtranclp_trans [OF busy_reached exits_while_draining] .
  then show "\<exists>s. server_reaches s \<and> sl_main s = Exited 0 \<and> sl_active s = n \<and> sl_shutdown s = Draining" by force
qed (auto dest!: reachable_invariant simp: life_invariant_def)

lemma shutdown_abandons_requests_witness:
  "\<exists>s. server_reaches s \<and> sl_main s = Exited 0 \<and> sl_active s = 3 \<and> \<not> sl_listening s"
  using shutdown_abandons_requests by (metis zero_neq_one main_pc.inject)

end
